(* ===== verification/Rust_Base.thy ===== *)
theory Rust_Base
  imports Main "HOL-Library.Word" "HOL-Library.List_Lexorder" "HOL-Library.Char_ord"
begin

text \<open>
  The part of Rust and of its standard library that the components share: results and the
  question-mark operator, loops that stop at the first error, byte strings and the \<open>str\<close>
  methods the sources call, fixed-width hexadecimal and UUID text forms, and the strictly
  ascending scans that every snapshot reader of the driver performs.

  A \<open>&str\<close> is its list of UTF-8 bytes (\<^typ>\<open>char\<close> is a byte), so \<^const>\<open>length\<close> is
  \<open>str::len\<close> and the lexicographic order is Rust's byte-wise order on \<open>str\<close>. An \<open>i64\<close> is a
  64-bit word read by \<^const>\<open>sint\<close>. A \<open>Uuid\<close> is a 128-bit word, whose unsigned order is the
  byte order of the type.
\<close>

type_synonym str = string
type_synonym i64 = "64 word"
type_synonym uuid = "128 word"

named_theorems result_simps "what it means for a fallible computation to succeed or to fail"


section \<open>Results\<close>

text \<open>\<open>Result<T, E>\<close> is \<open>'e + 'a\<close> with \<^const>\<open>Inl\<close> for \<open>Err\<close>; \<open>and_then\<close> is the question mark.\<close>

fun and_then :: "'e + 'a \<Rightarrow> ('a \<Rightarrow> 'e + 'b) \<Rightarrow> 'e + 'b" where
  "and_then (Inl e) f = Inl e"
| "and_then (Inr x) f = f x"

text \<open>\<open>if !condition { return Err(error) }\<close>\<close>

definition ensure :: "bool \<Rightarrow> 'e \<Rightarrow> 'e + unit" where
  "ensure c e = (if c then Inr () else Inl e)"

text \<open>\<open>Option::ok_or\<close> and \<open>Result::map_err\<close>.\<close>

fun ok_or :: "'a option \<Rightarrow> 'e \<Rightarrow> 'e + 'a" where
  "ok_or None e = Inl e"
| "ok_or (Some x) e = Inr x"

fun map_err :: "('e \<Rightarrow> 'f) \<Rightarrow> 'e + 'a \<Rightarrow> 'f + 'a" where
  "map_err f (Inl e) = Inl (f e)"
| "map_err f (Inr x) = Inr x"

fun is_ok :: "'e + 'a \<Rightarrow> bool" where
  "is_ok (Inl e) = False"
| "is_ok (Inr x) = True"

text \<open>\<open>Option::filter\<close>\<close>

fun opt_filter :: "('a \<Rightarrow> bool) \<Rightarrow> 'a option \<Rightarrow> 'a option" where
  "opt_filter p None = None"
| "opt_filter p (Some x) = (if p x then Some x else None)"

text \<open>\<open>for x in xs { f(x)?; }\<close>\<close>

fun each :: "('a \<Rightarrow> 'e + unit) \<Rightarrow> 'a list \<Rightarrow> 'e + unit" where
  "each f [] = Inr ()"
| "each f (x # xs) = and_then (f x) (\<lambda>_. each f xs)"

text \<open>A loop whose body updates its local variables and may return early with an error.\<close>

fun try_fold :: "('s \<Rightarrow> 'a \<Rightarrow> 'e + 's) \<Rightarrow> 's \<Rightarrow> 'a list \<Rightarrow> 'e + 's" where
  "try_fold f s [] = Inr s"
| "try_fold f s (x # xs) = and_then (f s x) (\<lambda>t. try_fold f t xs)"

lemma and_then_Inr [result_simps]:
  "and_then m f = Inr y \<longleftrightarrow> (\<exists>x. m = Inr x \<and> f x = Inr y)"
  by (cases m) auto

lemma and_then_Inl [result_simps]:
  "and_then m f = Inl e \<longleftrightarrow> m = Inl e \<or> (\<exists>x. m = Inr x \<and> f x = Inl e)"
  by (cases m) auto

lemma ensure_Inr [result_simps]: "ensure c e = Inr u \<longleftrightarrow> c"
  by (simp add: ensure_def)

lemma ensure_Inl [result_simps]: "ensure c e = Inl e' \<longleftrightarrow> \<not> c \<and> e' = e"
  by (auto simp: ensure_def)

lemma ok_or_Inr [result_simps]: "ok_or m e = Inr x \<longleftrightarrow> m = Some x"
  by (cases m) auto

lemma ok_or_Inl [result_simps]: "ok_or m e = Inl e' \<longleftrightarrow> m = None \<and> e' = e"
  by (cases m) auto

lemma map_err_Inr [result_simps]: "map_err f m = Inr x \<longleftrightarrow> m = Inr x"
  by (cases m) auto

lemma map_err_Inl [result_simps]: "map_err f m = Inl e \<longleftrightarrow> (\<exists>d. m = Inl d \<and> e = f d)"
  by (cases m) auto

lemma opt_filter_Some [result_simps]: "opt_filter p m = Some x \<longleftrightarrow> m = Some x \<and> p x"
  by (cases m) auto

lemma is_ok_iff: "is_ok m \<longleftrightarrow> (\<exists>x. m = Inr x)"
  by (cases m) auto

lemma each_Inr [result_simps]: "each f xs = Inr u \<longleftrightarrow> (\<forall>x \<in> set xs. f x = Inr ())"
  by (induction xs) (auto simp: and_then_Inr)

text \<open>The error of a loop is the error of one of its elements.\<close>

lemma each_Inl: "each f xs = Inl e \<Longrightarrow> \<exists>x \<in> set xs. f x = Inl e"
  by (induction xs) (auto simp: and_then_Inl)

text \<open>An invariant of the loop body holds of the loop's result.\<close>

lemma try_fold_invariant:
  assumes "try_fold f s xs = Inr t" and "I s"
    and "\<And>s x t. I s \<Longrightarrow> x \<in> set xs \<Longrightarrow> f s x = Inr t \<Longrightarrow> I t"
  shows "I t"
  using assms
proof (induction xs arbitrary: s)
  case (Cons x xs)
  from Cons.prems(1) obtain u where u: "f s x = Inr u" "try_fold f u xs = Inr t"
    by (auto simp: and_then_Inr)
  show ?case
  proof (rule Cons.IH [OF u(2)])
    show "I u" by (rule Cons.prems(3) [OF Cons.prems(2) _ u(1)]) simp
    show "I t'" if "I s'" and "y \<in> set xs" and "f s' y = Inr t'" for s' y t'
      by (rule Cons.prems(3) [OF that(1) _ that(3)]) (simp add: that(2))
  qed
qed simp

text \<open>
  A loop that checks each element, inserts its key into a \<open>HashSet\<close> with an error when the key is
  already there, and then runs the rest of its body; the result is the set.
\<close>

fun each_fresh ::
  "('a \<Rightarrow> 'e + unit) \<Rightarrow> ('a \<Rightarrow> 'k) \<Rightarrow> 'e \<Rightarrow> ('a \<Rightarrow> 'e + unit) \<Rightarrow> 'k list \<Rightarrow> 'a list \<Rightarrow> 'e + 'k list" where
  "each_fresh before key dup body seen [] = Inr seen"
| "each_fresh before key dup body seen (x # xs) =
     and_then (before x) (\<lambda>_.
     and_then (ensure (key x \<notin> set seen) dup) (\<lambda>_.
     and_then (body x) (\<lambda>_. each_fresh before key dup body (key x # seen) xs)))"

lemma each_fresh_Inr [result_simps]:
  "each_fresh before key dup body seen xs = Inr keys \<longleftrightarrow>
     (\<forall>x \<in> set xs. before x = Inr () \<and> body x = Inr ()) \<and> distinct (map key xs) \<and>
     key ` set xs \<inter> set seen = {} \<and> keys = rev (map key xs) @ seen"
  by (induction xs arbitrary: seen) (auto simp: and_then_Inr ensure_Inr)


section \<open>Strictly ascending scans\<close>

text \<open>
  \<open>previous.is_some_and(|previous| previous >= x)\<close> is the rejection test of every ordered
  snapshot of the driver; \<open>ascending\<close> is the scan that never meets it.
\<close>

fun ascending :: "'a :: linorder option \<Rightarrow> 'a list \<Rightarrow> bool" where
  "ascending p [] = True"
| "ascending p (x # xs) = ((case p of None \<Rightarrow> True | Some q \<Rightarrow> \<not> q \<ge> x) \<and> ascending (Some x) xs)"

lemma ascending_Some: "ascending (Some p) xs \<longleftrightarrow> (\<forall>x \<in> set xs. p < x) \<and> sorted_wrt (<) xs"
  by (induction xs arbitrary: p) (auto simp: not_le)

lemma ascending_None: "ascending None xs \<longleftrightarrow> sorted_wrt (<) xs"
  by (cases xs) (auto simp: ascending_Some)

lemma ascending_distinct: "ascending None xs \<Longrightarrow> distinct xs"
  by (simp add: ascending_None strict_sorted_iff)


section \<open>Byte classes\<close>

definition is_ascii_digit :: "char \<Rightarrow> bool" where
  "is_ascii_digit c \<longleftrightarrow> CHR ''0'' \<le> c \<and> c \<le> CHR ''9''"

definition is_ascii_lowercase :: "char \<Rightarrow> bool" where
  "is_ascii_lowercase c \<longleftrightarrow> CHR ''a'' \<le> c \<and> c \<le> CHR ''z''"

definition is_ascii_uppercase :: "char \<Rightarrow> bool" where
  "is_ascii_uppercase c \<longleftrightarrow> CHR ''A'' \<le> c \<and> c \<le> CHR ''Z''"

definition is_ascii_alphanumeric :: "char \<Rightarrow> bool" where
  "is_ascii_alphanumeric c \<longleftrightarrow> is_ascii_digit c \<or> is_ascii_lowercase c \<or> is_ascii_uppercase c"

text \<open>\<open>b.is_ascii_digit() || (b'a'..=b'f').contains(&b)\<close>\<close>

definition is_lower_hex :: "char \<Rightarrow> bool" where
  "is_lower_hex c \<longleftrightarrow> is_ascii_digit c \<or> (CHR ''a'' \<le> c \<and> c \<le> CHR ''f'')"

lemmas byte_class_defs =
  is_ascii_digit_def is_ascii_lowercase_def is_ascii_uppercase_def is_ascii_alphanumeric_def
  is_lower_hex_def


section \<open>String methods\<close>

definition starts_with :: "str \<Rightarrow> str \<Rightarrow> bool" where
  "starts_with s p \<longleftrightarrow> take (length p) s = p"

definition ends_with :: "str \<Rightarrow> str \<Rightarrow> bool" where
  "ends_with s p \<longleftrightarrow> length p \<le> length s \<and> drop (length s - length p) s = p"

definition strip_prefix :: "str \<Rightarrow> str \<Rightarrow> str option" where
  "strip_prefix p s = (if starts_with s p then Some (drop (length p) s) else None)"

text \<open>\<open>str::contains\<close> for a string pattern.\<close>

fun contains_str :: "str \<Rightarrow> str \<Rightarrow> bool" where
  "contains_str [] p = (p = [])"
| "contains_str (c # s) p = (starts_with (c # s) p \<or> contains_str s p)"

text \<open>\<open>str::split\<close> at every occurrence of one ASCII byte.\<close>

fun split_at :: "char \<Rightarrow> str \<Rightarrow> str list" where
  "split_at d [] = [[]]"
| "split_at d (c # s) =
     (if c = d then [] # split_at d s
      else (case split_at d s of [] \<Rightarrow> [[c]] | p # ps \<Rightarrow> (c # p) # ps))"

text \<open>\<open>str::rsplit_once\<close>: the parts before and after the last occurrence of one ASCII byte.\<close>

fun rsplit_once :: "char \<Rightarrow> str \<Rightarrow> (str \<times> str) option" where
  "rsplit_once d [] = None"
| "rsplit_once d (c # s) =
     (case rsplit_once d s of
        Some (a, b) \<Rightarrow> Some (c # a, b)
      | None \<Rightarrow> if c = d then Some ([], s) else None)"

text \<open>\<open>[&str]::join\<close>\<close>

fun join :: "str \<Rightarrow> str list \<Rightarrow> str" where
  "join sep [] = []"
| "join sep [x] = x"
| "join sep (x # y # ys) = x @ sep @ join sep (y # ys)"

text \<open>The UTF-8 encodings of the code points with Unicode property White\_Space.\<close>

definition utf8_whitespace :: "str list" where
  "utf8_whitespace =
     [[CHR 0x09], [CHR 0x0A], [CHR 0x0B], [CHR 0x0C], [CHR 0x0D], [CHR 0x20],
      [CHR 0xC2, CHR 0x85], [CHR 0xC2, CHR 0xA0], [CHR 0xE1, CHR 0x9A, CHR 0x80],
      [CHR 0xE2, CHR 0x80, CHR 0x80], [CHR 0xE2, CHR 0x80, CHR 0x81],
      [CHR 0xE2, CHR 0x80, CHR 0x82], [CHR 0xE2, CHR 0x80, CHR 0x83],
      [CHR 0xE2, CHR 0x80, CHR 0x84], [CHR 0xE2, CHR 0x80, CHR 0x85],
      [CHR 0xE2, CHR 0x80, CHR 0x86], [CHR 0xE2, CHR 0x80, CHR 0x87],
      [CHR 0xE2, CHR 0x80, CHR 0x88], [CHR 0xE2, CHR 0x80, CHR 0x89],
      [CHR 0xE2, CHR 0x80, CHR 0x8A], [CHR 0xE2, CHR 0x80, CHR 0xA8],
      [CHR 0xE2, CHR 0x80, CHR 0xA9], [CHR 0xE2, CHR 0x80, CHR 0xAF],
      [CHR 0xE2, CHR 0x81, CHR 0x9F], [CHR 0xE3, CHR 0x80, CHR 0x80]]"

lemma utf8_whitespace_nonempty: "w \<in> set utf8_whitespace \<Longrightarrow> w \<noteq> []"
  by (auto simp: utf8_whitespace_def)

function trim_start :: "str \<Rightarrow> str" where
  "trim_start s =
     (case find (\<lambda>w. starts_with s w) utf8_whitespace of
        None \<Rightarrow> s
      | Some w \<Rightarrow> if s = [] then [] else trim_start (drop (length w) s))"
  by pat_completeness auto
termination
  by (relation "measure length")
     (auto simp: find_Some_iff dest!: nth_mem utf8_whitespace_nonempty)

function trim_end :: "str \<Rightarrow> str" where
  "trim_end s =
     (case find (\<lambda>w. ends_with s w) utf8_whitespace of
        None \<Rightarrow> s
      | Some w \<Rightarrow> if s = [] then [] else trim_end (take (length s - length w) s))"
  by pat_completeness auto
termination
  by (relation "measure length")
     (auto simp: find_Some_iff dest!: nth_mem utf8_whitespace_nonempty)

declare trim_start.simps [simp del] trim_end.simps [simp del]

definition trim :: "str \<Rightarrow> str" where
  "trim s = trim_end (trim_start s)"

text \<open>\<open>value.trim().is_empty()\<close>\<close>

definition blank :: "str \<Rightarrow> bool" where
  "blank s \<longleftrightarrow> trim s = []"

lemma starts_with_append: "starts_with s p \<longleftrightarrow> (\<exists>t. s = p @ t)"
  by (metis append_eq_conv_conj append_take_drop_id starts_with_def)

lemma strip_prefix_Some: "strip_prefix p s = Some t \<longleftrightarrow> s = p @ t"
  by (auto simp: strip_prefix_def starts_with_append)

lemma ends_with_append: "ends_with s p \<longleftrightarrow> (\<exists>t. s = t @ p)"
proof
  assume "ends_with s p"
  then have "s = take (length s - length p) s @ p"
    by (metis append_take_drop_id ends_with_def)
  then show "\<exists>t. s = t @ p" by blast
qed (auto simp: ends_with_def)

lemma rsplit_once_Some:
  "rsplit_once d s = Some (a, b) \<longleftrightarrow> s = a @ d # b \<and> d \<notin> set b"
proof (induction s arbitrary: a)
  case Nil
  then show ?case by simp
next
  case (Cons c s)
  have none: "rsplit_once d s = None \<longleftrightarrow> d \<notin> set s"
  proof (induction s)
    case (Cons x s)
    then show ?case by (auto split: option.splits)
  qed simp
  show ?case
  proof (cases "rsplit_once d s")
    case None
    then show ?thesis using none by (cases a) auto
  next
    case (Some p)
    then obtain a' b' where p: "rsplit_once d s = Some (a', b')" by (cases p) auto
    then have "d \<in> set s" using none by force
    then show ?thesis using p Cons.IH [of a'] Cons.IH by (cases a) auto
  qed
qed

lemma split_at_nonempty: "split_at d s \<noteq> []"
  by (induction s) (auto split: list.splits)

text \<open>Joining the parts with the separator gives the string back.\<close>

lemma join_split_at: "join [d] (split_at d s) = s"
proof (induction s)
  case Nil
  then show ?case by simp
next
  case (Cons c s)
  obtain p ps where p: "split_at d s = p # ps"
    using split_at_nonempty [of d s] by (cases "split_at d s") auto
  show ?case
    using Cons p by (cases ps) auto
qed

lemma split_at_join:
  "ps \<noteq> [] \<Longrightarrow> (\<And>p. p \<in> set ps \<Longrightarrow> d \<notin> set p) \<Longrightarrow> split_at d (join [d] ps) = ps"
proof (induction ps rule: induct_list012)
  case (2 x)
  have "split_at d p = [p]" if "d \<notin> set p" for p
    using that by (induction p) auto
  with 2 show ?case by simp
next
  case (3 x y ys)
  have "split_at d (p @ d # s) = p # split_at d s" if "d \<notin> set p" for p s
    using that by (induction p) auto
  with 3 show ?case by simp
qed simp

lemma split_at_no_sep: "p \<in> set (split_at d s) \<Longrightarrow> d \<notin> set p"
proof (induction s arbitrary: p)
  case (Cons c s)
  then show ?case
    by (cases "split_at d s") (auto split: if_splits)
qed simp

lemma blank_Nil [simp]: "blank []"
proof -
  have "trim_start [] = []" and "trim_end [] = []"
    by (subst trim_start.simps trim_end.simps, simp split: option.split)+
  then show ?thesis by (simp add: blank_def trim_def)
qed


section \<open>Hexadecimal and UUID text\<close>

definition hex_char :: "nat \<Rightarrow> char" where
  "hex_char d = ''0123456789abcdef'' ! d"

text \<open>The lower-case hexadecimal digits of a number, most significant first, at a fixed width.\<close>

primrec hex_of :: "nat \<Rightarrow> nat \<Rightarrow> str" where
  "hex_of 0 n = []"
| "hex_of (Suc w) n = hex_of w (n div 16) @ [hex_char (n mod 16)]"

text \<open>\<open>Uuid::simple\<close> and the hyphenated \<open>Display\<close> form.\<close>

definition uuid_simple :: "uuid \<Rightarrow> str" where
  "uuid_simple u = hex_of 32 (unat u)"

definition uuid_hyphenated :: "uuid \<Rightarrow> str" where
  "uuid_hyphenated u =
     (let s = uuid_simple u in
        take 8 s @ ''-'' @ take 4 (drop 8 s) @ ''-'' @ take 4 (drop 12 s) @ ''-''
          @ take 4 (drop 16 s) @ ''-'' @ drop 20 s)"

definition is_nil :: "uuid \<Rightarrow> bool" where
  "is_nil u \<longleftrightarrow> u = 0"

text \<open>\<open>Uuid::get_version_num\<close> and the test for the RFC 4122 variant, at their bit positions.\<close>

definition uuid_version_num :: "uuid \<Rightarrow> nat" where
  "uuid_version_num u = unat u div 2 ^ 76 mod 16"

definition uuid_rfc4122 :: "uuid \<Rightarrow> bool" where
  "uuid_rfc4122 u \<longleftrightarrow> unat u div 2 ^ 62 mod 4 = 2"

lemma length_hex_of [simp]: "length (hex_of w n) = w"
  by (induction w arbitrary: n) auto

lemma hex_char_inj: "d < 16 \<Longrightarrow> e < 16 \<Longrightarrow> hex_char d = hex_char e \<longleftrightarrow> d = e"
  unfolding hex_char_def by (rule nth_eq_iff_index_eq) auto

lemma hex_char_lower_hex: "d < 16 \<Longrightarrow> is_lower_hex (hex_char d)"
proof -
  assume "d < 16"
  then have "hex_char d \<in> set ''0123456789abcdef''"
    unfolding hex_char_def by (intro nth_mem) simp
  then show ?thesis by (auto simp: byte_class_defs)
qed

lemma hex_of_lower_hex: "c \<in> set (hex_of w n) \<Longrightarrow> is_lower_hex c"
  by (induction w arbitrary: n) (auto simp: hex_char_lower_hex)

lemma hex_of_inj: "m < 16 ^ w \<Longrightarrow> n < 16 ^ w \<Longrightarrow> hex_of w m = hex_of w n \<Longrightarrow> m = n"
proof (induction w arbitrary: m n)
  case 0
  then show ?case by simp
next
  case (Suc w)
  from Suc.prems have "hex_of w (m div 16) = hex_of w (n div 16)"
    and "hex_char (m mod 16) = hex_char (n mod 16)" by auto
  moreover from Suc.prems have "m div 16 < 16 ^ w" "n div 16 < 16 ^ w"
    by (simp_all add: less_mult_imp_div_less mult.commute)
  ultimately have "m div 16 = n div 16" and "m mod 16 = n mod 16"
    using Suc.IH by (auto simp: hex_char_inj)
  then show ?case by (metis div_mult_mod_eq)
qed

lemma length_uuid_simple [simp]: "length (uuid_simple u) = 32"
  by (simp add: uuid_simple_def)

lemma uuid_simple_inj: "uuid_simple u = uuid_simple v \<longleftrightarrow> u = v"
proof
  assume eq: "uuid_simple u = uuid_simple v"
  have "unat w < 16 ^ 32" for w :: uuid
    using unsigned_less [of w] by simp
  then have "unat u = unat v"
    using eq hex_of_inj unfolding uuid_simple_def by blast
  then show "u = v" by (simp only: word_unat_eq_iff)
qed simp

lemma length_uuid_hyphenated [simp]: "length (uuid_hyphenated u) = 36"
  by (simp add: uuid_hyphenated_def Let_def)

lemma uuid_groups:
  "take 8 s @ take 4 (drop 8 s) @ take 4 (drop 12 s) @ take 4 (drop 16 s) @ drop 20 s = s"
proof -
  have "take 4 (drop k s) @ drop (k + 4) s = drop k s" for k
    using append_take_drop_id [of 4 "drop k s"] by (simp add: add.commute)
  from this [of 16] this [of 12] this [of 8] show ?thesis by simp
qed

lemma uuid_hyphenated_inj: "uuid_hyphenated u = uuid_hyphenated v \<longleftrightarrow> u = v"
proof
  assume eq: "uuid_hyphenated u = uuid_hyphenated v"
  let ?s = "uuid_simple u" and ?t = "uuid_simple v"
  have "take 8 ?s = take 8 ?t" and "take 4 (drop 8 ?s) = take 4 (drop 8 ?t)"
    and "take 4 (drop 12 ?s) = take 4 (drop 12 ?t)"
    and "take 4 (drop 16 ?s) = take 4 (drop 16 ?t)" and "drop 20 ?s = drop 20 ?t"
    using eq by (simp_all add: uuid_hyphenated_def Let_def append_eq_append_conv)
  then have "take 8 ?s @ take 4 (drop 8 ?s) @ take 4 (drop 12 ?s) @ take 4 (drop 16 ?s) @ drop 20 ?s
      = take 8 ?t @ take 4 (drop 8 ?t) @ take 4 (drop 12 ?t) @ take 4 (drop 16 ?t) @ drop 20 ?t"
    by simp
  then have "?s = ?t" by (simp only: uuid_groups)
  then show "u = v" by (simp add: uuid_simple_inj)
qed simp

text \<open>Reading the digits back.\<close>

definition hex_digit_value :: "char \<Rightarrow> nat" where
  "hex_digit_value c = (if is_ascii_digit c then of_char c - 48 else of_char c - 87)"

definition hex_value :: "str \<Rightarrow> nat" where
  "hex_value s = foldl (\<lambda>n c. 16 * n + hex_digit_value c) 0 s"

definition uuid_of_text :: "str \<Rightarrow> uuid" where
  "uuid_of_text s = word_of_nat (hex_value (filter (\<lambda>c. c \<noteq> CHR ''-'') s))"

lemma hex_digit_value_hex_char: "d < 16 \<Longrightarrow> hex_digit_value (hex_char d) = d"
proof -
  have "\<forall>d \<in> set [0..<16]. hex_digit_value (hex_char d) = d" by code_simp
  then show "d < 16 \<Longrightarrow> hex_digit_value (hex_char d) = d" by simp
qed

lemma hex_value_hex_of: "hex_value (hex_of w n) = n mod 16 ^ w"
proof (induction w arbitrary: n)
  case (Suc w)
  have "hex_value (hex_of (Suc w) n) = 16 * (n div 16 mod 16 ^ w) + n mod 16"
    using Suc by (simp add: hex_value_def hex_digit_value_hex_char)
  also have "\<dots> = n mod 16 ^ Suc w"
    by (simp add: mod_mult2_eq)
  finally show ?case .
qed (simp add: hex_value_def)

lemma uuid_of_text_hyphenated: "uuid_of_text (uuid_hyphenated u) = u"
proof -
  have hex: "c \<noteq> CHR ''-''" if "c \<in> set (uuid_simple u)" for c
    using that hex_of_lower_hex [of c 32 "unat u"] by (auto simp: uuid_simple_def byte_class_defs)
  let ?f = "filter (\<lambda>c. c \<noteq> CHR ''-'')"
  have part: "?f (take n (drop m (uuid_simple u))) = take n (drop m (uuid_simple u))" for n m
    using hex by (simp add: filter_id_conv) (meson in_set_dropD in_set_takeD)
  have rest: "?f (drop m (uuid_simple u)) = drop m (uuid_simple u)" for m
    using hex by (simp add: filter_id_conv) (meson in_set_dropD)
  have "?f (take 8 (uuid_simple u)) = take 8 (uuid_simple u)" using part [of 8 0] by simp
  then have "?f (uuid_hyphenated u) = uuid_simple u"
    unfolding uuid_hyphenated_def Let_def filter_append part rest
    using uuid_groups [of "uuid_simple u"] by simp
  moreover have "unat u < 16 ^ 32" using unsigned_less [of u] by simp
  ultimately show ?thesis
    by (simp add: uuid_of_text_def uuid_simple_def hex_value_hex_of)
qed

text \<open>A lower-case hexadecimal string whose length is in a range; \<open>sha256:\<close> digests.\<close>

definition hex_digest :: "str \<Rightarrow> nat \<Rightarrow> nat \<Rightarrow> bool" where
  "hex_digest s lo hi \<longleftrightarrow> lo \<le> length s \<and> length s \<le> hi \<and> list_all is_lower_hex s"

definition valid_sha256 :: "str \<Rightarrow> bool" where
  "valid_sha256 s =
     (case strip_prefix ''sha256:'' s of None \<Rightarrow> False | Some d \<Rightarrow> hex_digest d 64 64)"

lemma valid_sha256_length: "valid_sha256 s \<Longrightarrow> length s = 71"
  by (auto simp: valid_sha256_def hex_digest_def strip_prefix_Some split: option.splits)

end
