(* ===== verification/Domain.thy ===== *)
theory Domain
  imports Rust_Base
begin

text \<open>
  \<open>src/domain.rs\<close>: workshop roles and permissions, the kinds of durable operations with their
  queues and execution scopes, operation states and integration errors.

  The textual forms of the enumerations share one contract, the locale \<open>string_enum\<close>: parsing
  inverts printing and accepts nothing else.
\<close>


section \<open>Textual enumerations\<close>

locale string_enum =
  fixes as_str :: "'a \<Rightarrow> str"
    and from_str :: "str \<Rightarrow> 'e + 'a"
  assumes parse_print: "from_str (as_str x) = Inr x"
    and parse_sound: "from_str s = Inr x \<Longrightarrow> s = as_str x"
begin

lemma print_inj: "as_str x = as_str y \<longleftrightarrow> x = y"
  by (metis parse_print Inr_inject)

lemma parse_iff: "from_str s = Inr x \<longleftrightarrow> s = as_str x"
  by (auto simp: parse_print dest: parse_sound)

lemma refused_iff: "(\<exists>e. from_str s = Inl e) \<longleftrightarrow> s \<notin> range as_str"
  by (cases "from_str s") (auto simp: parse_print dest: parse_sound)

end


section \<open>Workshop roles\<close>

datatype workshop_role = Viewer | Artisan | Accountant | StudioManager | Owner

datatype workshop_permission =
  ViewWorkshop | ManageMembers | ManageModules | ManageDatabase | TransferOwnership

definition invitable :: "workshop_role list" where
  "invitable = [Viewer, Artisan, Accountant, StudioManager]"

fun role_as_str :: "workshop_role \<Rightarrow> str" where
  "role_as_str Viewer = ''viewer''"
| "role_as_str Artisan = ''artisan''"
| "role_as_str Accountant = ''accountant''"
| "role_as_str StudioManager = ''studio_manager''"
| "role_as_str Owner = ''owner''"

definition can_manage_members :: "workshop_role \<Rightarrow> bool" where
  "can_manage_members r \<longleftrightarrow> r = Owner \<or> r = StudioManager"

definition can_invite :: "workshop_role \<Rightarrow> bool" where
  "can_invite r \<longleftrightarrow> r \<in> set invitable"

definition can_manage_database :: "workshop_role \<Rightarrow> bool" where
  "can_manage_database r \<longleftrightarrow> r = Owner"

definition can_manage_modules :: "workshop_role \<Rightarrow> bool" where
  "can_manage_modules r \<longleftrightarrow> r = Owner \<or> r = StudioManager"

fun allows :: "workshop_role \<Rightarrow> workshop_permission \<Rightarrow> bool" where
  "allows r ViewWorkshop = True"
| "allows r ManageMembers = can_manage_members r"
| "allows r ManageModules = can_manage_modules r"
| "allows r ManageDatabase = can_manage_database r"
| "allows r TransferOwnership = (r = Owner)"

definition opaque_database_ref :: "uuid \<Rightarrow> str" where
  "opaque_database_ref i = ''mb_'' @ uuid_simple i"

definition role_from_str :: "str \<Rightarrow> str + workshop_role" where
  "role_from_str s =
     (if s = ''viewer'' then Inr Viewer
      else if s = ''artisan'' then Inr Artisan
      else if s = ''accountant'' then Inr Accountant
      else if s = ''studio_manager'' then Inr StudioManager
      else if s = ''owner'' then Inr Owner
      else Inl ''unknown workshop role'')"


section \<open>Operation kinds\<close>

datatype operation_kind =
    TenantProvision
  | MembershipReconcile
  | EntitlementApply
  | InvoiceCapture
  | InventoryCaptureExtract
  | TenantReconcile
  | TenantLifecycle
  | EmailDelivery
  | ModuleEnable
  | ModuleRestrict
  | OdooReleaseAdopt
  | PrivacyRetention
  | PrivacyDataSubjectRequest
  | WebshopDomainReconcile
  | WebshopEmailDomainReconcile
  | WebshopOnboardingReconcile

datatype operation_execution_scope = WorkshopScope uuid | FleetScope

datatype operation_scope_error = UnknownKind | QueueMismatch | WorkshopScopeMismatch

fun kind_as_str :: "operation_kind \<Rightarrow> str" where
  "kind_as_str TenantProvision = ''tenant.provision''"
| "kind_as_str MembershipReconcile = ''membership.reconcile''"
| "kind_as_str EntitlementApply = ''entitlement.apply''"
| "kind_as_str InvoiceCapture = ''invoice.capture''"
| "kind_as_str InventoryCaptureExtract = ''inventory.capture.extract''"
| "kind_as_str TenantReconcile = ''tenant.reconcile''"
| "kind_as_str TenantLifecycle = ''tenant.lifecycle''"
| "kind_as_str EmailDelivery = ''email.delivery''"
| "kind_as_str ModuleEnable = ''module.enable''"
| "kind_as_str ModuleRestrict = ''module.restrict''"
| "kind_as_str OdooReleaseAdopt = ''odoo.release.adopt''"
| "kind_as_str PrivacyRetention = ''privacy.retention''"
| "kind_as_str PrivacyDataSubjectRequest = ''privacy.data_subject_request''"
| "kind_as_str WebshopDomainReconcile = ''webshop-domain.reconcile''"
| "kind_as_str WebshopEmailDomainReconcile = ''webshop-email-domain.reconcile''"
| "kind_as_str WebshopOnboardingReconcile = ''webshop-onboarding.reconcile''"

fun kind_queue :: "operation_kind \<Rightarrow> str" where
  "kind_queue TenantProvision = ''tenant-provisioning''"
| "kind_queue MembershipReconcile = ''membership-provisioning''"
| "kind_queue EntitlementApply = ''membership-provisioning''"
| "kind_queue InvoiceCapture = ''invoice-capture''"
| "kind_queue InventoryCaptureExtract = ''inventory-capture''"
| "kind_queue TenantReconcile = ''tenant-reconciliation''"
| "kind_queue TenantLifecycle = ''tenant-lifecycle''"
| "kind_queue EmailDelivery = ''email-delivery''"
| "kind_queue ModuleEnable = ''tenant-reconciliation''"
| "kind_queue ModuleRestrict = ''tenant-reconciliation''"
| "kind_queue OdooReleaseAdopt = ''release-adoption''"
| "kind_queue PrivacyRetention = ''privacy-operations''"
| "kind_queue PrivacyDataSubjectRequest = ''privacy-operations''"
| "kind_queue WebshopDomainReconcile = ''tenant-reconciliation''"
| "kind_queue WebshopEmailDomainReconcile = ''tenant-reconciliation''"
| "kind_queue WebshopOnboardingReconcile = ''tenant-reconciliation''"

definition requires_workshop :: "operation_kind \<Rightarrow> bool" where
  "requires_workshop k \<longleftrightarrow>
     \<not> (k = OdooReleaseAdopt \<or> k = PrivacyRetention \<or> k = PrivacyDataSubjectRequest)"

definition execution_scope ::
  "operation_kind \<Rightarrow> str \<Rightarrow> uuid option \<Rightarrow> operation_scope_error + operation_execution_scope" where
  "execution_scope k leased_queue workshop =
     (if leased_queue \<noteq> kind_queue k then Inl QueueMismatch
      else case (requires_workshop k, workshop) of
             (True, Some w) \<Rightarrow> if \<not> is_nil w then Inr (WorkshopScope w) else Inl WorkshopScopeMismatch
           | (False, None) \<Rightarrow> Inr FleetScope
           | _ \<Rightarrow> Inl WorkshopScopeMismatch)"

definition kind_from_str :: "str \<Rightarrow> operation_scope_error + operation_kind" where
  "kind_from_str s =
     (if s = ''tenant.provision'' then Inr TenantProvision
      else if s = ''membership.reconcile'' then Inr MembershipReconcile
      else if s = ''entitlement.apply'' then Inr EntitlementApply
      else if s = ''invoice.capture'' then Inr InvoiceCapture
      else if s = ''inventory.capture.extract'' then Inr InventoryCaptureExtract
      else if s = ''tenant.reconcile'' then Inr TenantReconcile
      else if s = ''tenant.lifecycle'' then Inr TenantLifecycle
      else if s = ''email.delivery'' then Inr EmailDelivery
      else if s = ''module.enable'' then Inr ModuleEnable
      else if s = ''module.restrict'' then Inr ModuleRestrict
      else if s = ''odoo.release.adopt'' then Inr OdooReleaseAdopt
      else if s = ''privacy.retention'' then Inr PrivacyRetention
      else if s = ''privacy.data_subject_request'' then Inr PrivacyDataSubjectRequest
      else if s = ''webshop-domain.reconcile'' then Inr WebshopDomainReconcile
      else if s = ''webshop-email-domain.reconcile'' then Inr WebshopEmailDomainReconcile
      else if s = ''webshop-onboarding.reconcile'' then Inr WebshopOnboardingReconcile
      else Inl UnknownKind)"

datatype operation_state = Pending | InFlight | AwaitingReconciliation | Succeeded | DeadLetter


section \<open>Integration errors\<close>

datatype integration_error =
    Unauthorized
  | NotFound
  | Rejected
  | RateLimited "64 word option"
  | Unavailable
  | UnknownOutcome
  | ContractDrift
  | TooLarge

fun failure_class_of :: "integration_error \<Rightarrow> str" where
  "failure_class_of Unauthorized = ''unauthorized''"
| "failure_class_of NotFound = ''not_found''"
| "failure_class_of Rejected = ''rejected''"
| "failure_class_of (RateLimited _) = ''rate_limited''"
| "failure_class_of Unavailable = ''upstream_unavailable''"
| "failure_class_of UnknownOutcome = ''unknown_outcome''"
| "failure_class_of ContractDrift = ''contract_drift''"
| "failure_class_of TooLarge = ''document_too_large''"

fun retryable :: "integration_error \<Rightarrow> bool" where
  "retryable (RateLimited _) = True"
| "retryable Unavailable = True"
| "retryable UnknownOutcome = True"
| "retryable _ = False"

fun retry_after_seconds :: "integration_error \<Rightarrow> 64 word option" where
  "retry_after_seconds (RateLimited s) = s"
| "retry_after_seconds _ = None"


section \<open>Lemmas\<close>

interpretation role_text: string_enum role_as_str role_from_str
proof (unfold_locales, goal_cases)
  case (1 r)
  show ?case by (cases r) (simp_all add: role_from_str_def)
next
  case (2 s r)
  then show ?case by (simp add: role_from_str_def split: if_splits)
qed

interpretation kind_text: string_enum kind_as_str kind_from_str
proof (unfold_locales, goal_cases)
  case (1 k)
  show ?case by (cases k) (simp_all add: kind_from_str_def)
next
  case (2 s k)
  then show ?case by (simp add: kind_from_str_def split: if_splits)
qed

lemma allows_iff:
  "allows r p \<longleftrightarrow>
     p = ViewWorkshop \<or> r = Owner \<or> (r = StudioManager \<and> (p = ManageMembers \<or> p = ManageModules))"
  by (cases p) (auto simp: can_manage_members_def can_manage_modules_def can_manage_database_def)

lemma can_invite_iff: "can_invite r \<longleftrightarrow> r \<noteq> Owner"
  by (cases r) (simp_all add: can_invite_def invitable_def)

lemma opaque_database_ref_inj: "opaque_database_ref i = opaque_database_ref j \<longleftrightarrow> i = j"
  by (simp add: opaque_database_ref_def uuid_simple_inj)

lemma length_opaque_database_ref: "length (opaque_database_ref i) = 35"
  by (simp add: opaque_database_ref_def)

text \<open>The scope of an operation is determined by its kind: what a handler may touch.\<close>

lemma execution_scope_Workshop [result_simps]:
  "execution_scope k q ws = Inr (WorkshopScope w) \<longleftrightarrow>
     q = kind_queue k \<and> requires_workshop k \<and> ws = Some w \<and> \<not> is_nil w"
  by (auto simp: execution_scope_def split: bool.splits option.splits)

lemma execution_scope_Fleet [result_simps]:
  "execution_scope k q ws = Inr FleetScope \<longleftrightarrow>
     q = kind_queue k \<and> \<not> requires_workshop k \<and> ws = None"
  by (auto simp: execution_scope_def split: bool.splits option.splits)

lemma execution_scope_never_unknown: "execution_scope k q ws \<noteq> Inl UnknownKind"
  by (auto simp: execution_scope_def split: bool.splits option.splits)

end
