(* ===== verification/Sql_Table.thy ===== *)
theory Sql_Table
  imports Rust_Base
begin

text \<open>
  What the statements of \<open>src/persistence.rs\<close> and \<open>src/command.rs\<close> use of PostgreSQL: a table
  is a list of rows, \<open>update ... where\<close> reports how many rows it changed, and a statement that
  would break a \<open>CHECK\<close> or \<open>UNIQUE\<close> constraint fails as a whole. Timestamps are microseconds.
\<close>

datatype db_error =
    RowNotFound
  | CheckViolation
  | UniqueViolation
  | OtherConstraint
  | IntegerOutOfRange
  | Bail str

definition seconds :: "int \<Rightarrow> int" where
  "seconds n = n * 1000000"

text \<open>\<open>update t set f where p\<close>, with the number of affected rows.\<close>

definition update_where :: "('r \<Rightarrow> bool) \<Rightarrow> ('r \<Rightarrow> 'r) \<Rightarrow> 'r list \<Rightarrow> nat \<times> 'r list" where
  "update_where p f t = (length (filter p t), map (\<lambda>r. if p r then f r else r) t)"

text \<open>The same statement on a table whose rows have to satisfy a \<open>CHECK\<close> constraint.\<close>

definition checked_update ::
  "('r \<Rightarrow> bool) \<Rightarrow> ('r \<Rightarrow> bool) \<Rightarrow> ('r \<Rightarrow> 'r) \<Rightarrow> 'r list \<Rightarrow> db_error + nat \<times> 'r list" where
  "checked_update check p f t =
     (if list_all (\<lambda>r. p r \<longrightarrow> check (f r)) t then Inr (update_where p f t) else Inl CheckViolation)"

text \<open>\<open>length(text)\<close> counts characters: the bytes that do not continue a UTF-8 sequence.\<close>

definition char_count :: "str \<Rightarrow> nat" where
  "char_count s = length (filter (\<lambda>c. \<not> (CHR 0x80 \<le> c \<and> c \<le> CHR 0xBF)) s)"

text \<open>\<open>btrim(text)\<close> is empty exactly for a text of spaces.\<close>

definition btrim_empty :: "str \<Rightarrow> bool" where
  "btrim_empty s \<longleftrightarrow> list_all (\<lambda>c. c = CHR '' '') s"

lemma checked_update_Inr [result_simps]:
  "checked_update check p f t = Inr x \<longleftrightarrow>
     (\<forall>r \<in> set t. p r \<longrightarrow> check (f r)) \<and> x = update_where p f t"
  by (auto simp: checked_update_def list_all_iff)

lemma set_update_where:
  "set (snd (update_where p f t)) = f ` {r \<in> set t. p r} \<union> {r \<in> set t. \<not> p r}"
  by (auto simp: update_where_def)

lemma map_update_where:
  "(\<And>r. r \<in> set t \<Longrightarrow> p r \<Longrightarrow> k (f r) = k r) \<Longrightarrow> map k (snd (update_where p f t)) = map k t"
  by (simp add: update_where_def)

lemma update_where_none: "(\<And>r. r \<in> set t \<Longrightarrow> \<not> p r) \<Longrightarrow> update_where p f t = (0, t)"
  by (auto simp: update_where_def intro: map_idI)

text \<open>With a unique key, a condition that fixes the key selects at most one row.\<close>

lemma distinct_key_filter:
  assumes "distinct (map k t)" and "\<And>r. p r \<Longrightarrow> k r = x"
  shows "length (filter p t) = (if \<exists>r \<in> set t. p r then 1 else 0)"
  using assms
proof (induction t)
  case (Cons r t)
  show ?case
  proof (cases "p r")
    case True
    then have "\<not> p s" if "s \<in> set t" for s
      using Cons.prems that by (metis distinct.simps(2) image_eqI list.set_map list.simps(9))
    then show ?thesis using True by simp
  next
    case False
    then show ?thesis using Cons by simp
  qed
qed simp

lemma distinct_key_unique:
  "distinct (map k t) \<Longrightarrow> r \<in> set t \<Longrightarrow> s \<in> set t \<Longrightarrow> k r = k s \<Longrightarrow> r = s"
  by (metis distinct_map inj_onD)

end
