(* ===== verification/Transition_System.thy ===== *)
theory Transition_System
  imports Main
begin

text \<open>
  Executions of labelled step relations. The operation queue, the command ledger and the task
  supervisor are step relations of this form: every label records one call and what it returned.
  The locale \<open>step_invariant\<close> is the contract of an inductive invariant; each component
  interprets it on its own relation.
\<close>

inductive exec :: "('s \<Rightarrow> 'e \<Rightarrow> 's \<Rightarrow> bool) \<Rightarrow> 's \<Rightarrow> 'e list \<Rightarrow> 's \<Rightarrow> bool"
  for step :: "'s \<Rightarrow> 'e \<Rightarrow> 's \<Rightarrow> bool" where
  exec_Nil: "exec step s [] s"
| exec_snoc: "exec step s es t \<Longrightarrow> step t e u \<Longrightarrow> exec step s (es @ [e]) u"

inductive_cases exec_NilE: "exec step s [] t"

lemma exec_append: "exec step s es t \<Longrightarrow> exec step t fs u \<Longrightarrow> exec step s (es @ fs) u"
proof (rotate_tac, induction rule: exec.induct)
  case (exec_Nil s)
  then show ?case by simp
next
  case (exec_snoc s' fs t' e u)
  then show ?case by (metis append_assoc exec.exec_snoc)
qed

lemma exec_one: "step s e t \<Longrightarrow> exec step s [e] t"
  using exec.exec_snoc [OF exec.exec_Nil] by fastforce

locale step_invariant =
  fixes init :: "'s \<Rightarrow> bool"
    and step :: "'s \<Rightarrow> 'e \<Rightarrow> 's \<Rightarrow> bool"
    and inv :: "'s \<Rightarrow> bool"
  assumes init_inv: "init s \<Longrightarrow> inv s"
    and step_inv: "inv s \<Longrightarrow> step s e t \<Longrightarrow> inv t"
begin

lemma exec_inv: "exec step s es t \<Longrightarrow> inv s \<Longrightarrow> inv t"
  by (induction rule: exec.induct) (auto intro: step_inv)

lemma reach_inv: "exec step s es t \<Longrightarrow> init s \<Longrightarrow> inv t"
  by (rule exec_inv) (auto intro: init_inv)

end

end
