(* ===== verification/Operation_Queue.thy ===== *)
theory Operation_Queue
  imports Domain Sql_Table Transition_System "HOL-Library.Product_Lexorder"
begin

text \<open>
  The durable operation queue: the statements of \<open>src/persistence.rs\<close> on \<open>control.operations\<close>,
  the operator retry of \<open>src/api.rs\<close>, and what the worker loop of \<open>src/worker.rs\<close> decides about a
  leased operation. A row is a record with the table's columns; every statement is a function of
  the transaction time \<open>now()\<close> (microseconds) and the table. The type variable \<open>'j\<close> stands for
  \<open>jsonb\<close> values and the parameter \<open>is_object\<close> for \<open>jsonb_typeof(v) = 'object'\<close>; \<open>admits\<close> stands
  for the insert trigger and \<open>referenced\<close> for the foreign keys, which read other tables.
\<close>

section \<open>Rows and requests\<close>

record 'j operation_row =
  op_id :: uuid
  op_kind :: str
  op_queue :: str
  op_workshop_id :: "uuid option"
  op_target_user_id :: "uuid option"
  op_desired_epoch :: "int option"
  op_payload :: 'j
  op_requested_by :: "uuid option"
  op_correlation_id :: uuid
  op_idempotency_key :: str
  op_state :: operation_state
  op_attempt :: int
  op_max_attempts :: int
  op_next_attempt_at :: int
  op_leased_by :: "str option"
  op_lease_expires_at :: "int option"
  op_failure_class :: "str option"
  op_created_at :: int
  op_finished_at :: "int option"
  op_progress_percent :: int
  op_progress_phase :: "str option"
  op_progress_message :: "str option"
  op_progress_updated_at :: "int option"
  op_checkpoint :: "'j option"
  op_trace_parent :: "str option"
  op_trace_state :: "str option"

record 'j new_operation =
  no_kind :: operation_kind
  no_workshop_id :: "uuid option"
  no_target_user_id :: "uuid option"
  no_desired_epoch :: "int option"
  no_payload :: 'j
  no_requested_by :: "uuid option"
  no_correlation_id :: uuid
  no_idempotency_key :: str

record 'j leased_operation =
  lo_id :: uuid
  lo_kind :: str
  lo_workshop_id :: "uuid option"
  lo_target_user_id :: "uuid option"
  lo_desired_epoch :: "int option"
  lo_payload :: 'j
  lo_attempt :: int
  lo_max_attempts :: int
  lo_leased_by :: str
  lo_reconciling :: bool
  lo_trace_parent :: "str option"
  lo_trace_state :: "str option"

datatype operation_outcome =
    OutcomeSucceeded
  | OutcomeRetry integration_error
  | OutcomeFailed integration_error
  | OutcomeUnknown

text \<open>The regular expression of \<open>operation_trace_parent_format\<close>.\<close>

definition trace_parent_format :: "str \<Rightarrow> bool" where
  "trace_parent_format s \<longleftrightarrow>
     (let parts = split_at (CHR ''-'') s in
        map length parts = [2, 32, 16, 2] \<and> list_all (list_all is_lower_hex) parts)"

definition trace_state_bounded :: "str \<Rightarrow> bool" where
  "trace_state_bounded s \<longleftrightarrow>
     1 \<le> char_count s \<and> char_count s \<le> 512 \<and> CHR 0x0D \<notin> set s \<and> CHR 0x0A \<notin> set s"

text \<open>The \<open>CHECK\<close> constraints of \<open>control.operations\<close>.\<close>

definition operations_check :: "('j \<Rightarrow> bool) \<Rightarrow> 'j operation_row \<Rightarrow> bool" where
  "operations_check is_object r \<longleftrightarrow>
     case_option True trace_parent_format (op_trace_parent r) \<and>
     case_option True trace_state_bounded (op_trace_state r) \<and>
     0 \<le> op_attempt r \<and>
     (op_state r = InFlight) = (op_leased_by r \<noteq> None) \<and>
     (op_state r = InFlight) = (op_lease_expires_at r \<noteq> None) \<and>
     case_option True is_object (op_checkpoint r) \<and>
     case_option True (\<lambda>e. 0 < e) (op_desired_epoch r) \<and>
     op_idempotency_key r \<noteq> [] \<and>
     is_ok (kind_from_str (op_kind r)) \<and>
     1 \<le> op_max_attempts r \<and> op_max_attempts r \<le> 100 \<and>
     is_object (op_payload r) \<and>
     0 \<le> op_progress_percent r \<and> op_progress_percent r \<le> 100"


section \<open>Store operations\<close>

text \<open>The row an insert builds: the bound values and the column defaults.\<close>

definition new_row ::
  "int \<Rightarrow> uuid \<Rightarrow> str option \<Rightarrow> str option \<Rightarrow> 'j new_operation \<Rightarrow> 'j operation_row" where
  "new_row now new_id trace_parent trace_state n =
     \<lparr>op_id = new_id, op_kind = kind_as_str (no_kind n), op_queue = kind_queue (no_kind n),
      op_workshop_id = no_workshop_id n, op_target_user_id = no_target_user_id n,
      op_desired_epoch = no_desired_epoch n, op_payload = no_payload n,
      op_requested_by = no_requested_by n, op_correlation_id = no_correlation_id n,
      op_idempotency_key = no_idempotency_key n, op_state = Pending, op_attempt = 0,
      op_max_attempts = 12, op_next_attempt_at = now, op_leased_by = None,
      op_lease_expires_at = None, op_failure_class = None, op_created_at = now,
      op_finished_at = None, op_progress_percent = 0, op_progress_phase = None,
      op_progress_message = None, op_progress_updated_at = None, op_checkpoint = None,
      op_trace_parent = trace_parent, op_trace_state = trace_state\<rparr>"

text \<open>The unique key of the table (nulls not distinct).\<close>

definition op_key :: "'j operation_row \<Rightarrow> str \<times> uuid option \<times> str" where
  "op_key r = (op_kind r, op_requested_by r, op_idempotency_key r)"

text \<open>The columns the conflict clause of \<open>enqueue\<close> compares.\<close>

definition op_semantics :: "'j operation_row \<Rightarrow> uuid option \<times> uuid option \<times> int option \<times> 'j" where
  "op_semantics r = (op_workshop_id r, op_target_user_id r, op_desired_epoch r, op_payload r)"

definition enqueue ::
  "('j \<Rightarrow> bool) \<Rightarrow> ('j operation_row \<Rightarrow> bool) \<Rightarrow> ('j operation_row \<Rightarrow> bool) \<Rightarrow> int \<Rightarrow> uuid
     \<Rightarrow> str option \<Rightarrow> str option \<Rightarrow> 'j new_operation \<Rightarrow> 'j operation_row list \<Rightarrow> db_error + uuid \<times> 'j operation_row list" where
  "enqueue is_object admits referenced now new_id trace_parent trace_state n t =
     (let row = new_row now new_id trace_parent trace_state n in
      and_then (ensure (admits row) OtherConstraint) (\<lambda>_.
      and_then (ensure (operations_check is_object row) CheckViolation) (\<lambda>_.
        case find (\<lambda>r. op_key r = op_key row) t of
          Some r \<Rightarrow> if op_semantics r = op_semantics row then Inr (op_id r, t) else Inl RowNotFound
        | None \<Rightarrow> if \<exists>r \<in> set t. op_id r = new_id then Inl UniqueViolation
                  else if \<not> referenced row then Inl OtherConstraint
                  else Inr (new_id, t @ [row]))))"

text \<open>
  The authority every statement of a lease holder demands of its row, and the same test as
  \<open>lock_current_operation_lease\<close> performs it ahead of a terminal domain mutation.
\<close>

definition holds_lease :: "int \<Rightarrow> uuid \<Rightarrow> str \<Rightarrow> int \<Rightarrow> 'j operation_row \<Rightarrow> bool" where
  "holds_lease now i worker attempt r \<longleftrightarrow>
     op_id r = i \<and> op_state r = InFlight \<and> op_leased_by r = Some worker \<and> op_attempt r = attempt \<and>
     (case op_lease_expires_at r of None \<Rightarrow> False | Some e \<Rightarrow> e > now)"

definition lock_current_operation_lease ::
  "int \<Rightarrow> 'j leased_operation \<Rightarrow> 'j operation_row list \<Rightarrow> bool" where
  "lock_current_operation_lease now lo t \<longleftrightarrow>
     find (holds_lease now (lo_id lo) (lo_leased_by lo) (lo_attempt lo)) t \<noteq> None"

definition operation_checkpoint :: "uuid \<Rightarrow> 'j operation_row list \<Rightarrow> 'j option" where
  "operation_checkpoint i t =
     (case find (\<lambda>r. op_id r = i) t of None \<Rightarrow> None | Some r \<Rightarrow> op_checkpoint r)"

definition save_operation_checkpoint ::
  "('j \<Rightarrow> bool) \<Rightarrow> int \<Rightarrow> 'j leased_operation \<Rightarrow> 'j \<Rightarrow> 'j operation_row list
     \<Rightarrow> db_error + 'j operation_row list" where
  "save_operation_checkpoint is_object now lo v t =
     and_then
       (checked_update (operations_check is_object)
          (\<lambda>r. holds_lease now (lo_id lo) (lo_leased_by lo) (lo_attempt lo) r \<and> op_checkpoint r = None)
          (\<lambda>r. r\<lparr>op_checkpoint := Some v\<rparr>) t)
       (\<lambda>(changed, t').
          if changed \<noteq> 1 then Inl (Bail ''operation checkpoint could not be persisted'') else Inr t')"

text \<open>
  The rows the lease query may take: due, or in flight with an expired lease. The predicate
  \<open>locked\<close> says which rows concurrent transactions hold, which \<open>skip locked\<close> passes over.
\<close>

definition leasable :: "int \<Rightarrow> (uuid \<Rightarrow> bool) \<Rightarrow> str \<Rightarrow> 'j operation_row \<Rightarrow> bool" where
  "leasable now locked queue r \<longleftrightarrow>
     op_queue r = queue \<and> \<not> locked (op_id r) \<and>
     ((op_state r \<in> {Pending, AwaitingReconciliation} \<and> op_next_attempt_at r \<le> now) \<or>
      (op_state r = InFlight \<and> (case op_lease_expires_at r of None \<Rightarrow> False | Some e \<Rightarrow> e < now)))"

definition lease_candidate ::
  "int \<Rightarrow> (uuid \<Rightarrow> bool) \<Rightarrow> str \<Rightarrow> 'j operation_row list \<Rightarrow> 'j operation_row option" where
  "lease_candidate now locked queue t =
     (case sort_key (\<lambda>r. (op_next_attempt_at r, op_created_at r)) (filter (leasable now locked queue) t) of
        [] \<Rightarrow> None
      | c # _ \<Rightarrow> Some c)"

definition grant_lease :: "int \<Rightarrow> str \<Rightarrow> 'j operation_row \<Rightarrow> 'j operation_row" where
  "grant_lease now worker r =
     r\<lparr>op_state := InFlight, op_attempt := op_attempt r + 1, op_leased_by := Some worker,
       op_lease_expires_at := Some (now + seconds 60)\<rparr>"

definition leased_view :: "str \<Rightarrow> 'j operation_row \<Rightarrow> 'j leased_operation" where
  "leased_view worker c =
     \<lparr>lo_id = op_id c, lo_kind = op_kind c, lo_workshop_id = op_workshop_id c,
      lo_target_user_id = op_target_user_id c, lo_desired_epoch = op_desired_epoch c,
      lo_payload = op_payload c, lo_attempt = op_attempt c + 1,
      lo_max_attempts = op_max_attempts c, lo_leased_by = worker,
      lo_reconciling = (op_state c \<in> {InFlight, AwaitingReconciliation}),
      lo_trace_parent = op_trace_parent c, lo_trace_state = op_trace_state c\<rparr>"

definition lease ::
  "int \<Rightarrow> (uuid \<Rightarrow> bool) \<Rightarrow> str \<Rightarrow> str \<Rightarrow> 'j operation_row list
     \<Rightarrow> db_error + 'j leased_operation option \<times> 'j operation_row list" where
  "lease now locked queue worker t =
     (case lease_candidate now locked queue t of
        None \<Rightarrow> Inr (None, t)
      | Some c \<Rightarrow>
          if op_attempt c + 1 > 2147483647 then Inl IntegerOutOfRange
          else Inr (Some (leased_view worker c),
                    snd (update_where (\<lambda>r. op_id r = op_id c) (grant_lease now worker) t)))"

text \<open>\<open>retry_delay\<close> and \<open>effective_retry_delay\<close>, in seconds.\<close>

definition retry_delay :: "int \<Rightarrow> int" where
  "retry_delay attempt =
     (let e = min 8 (nat (max (- 2147483648) (attempt - 1))) in min 900 (min 4294967295 (5 * 2 ^ e)))"

definition effective_retry_delay :: "int \<Rightarrow> integration_error \<Rightarrow> int" where
  "effective_retry_delay attempt err =
     max (retry_delay attempt)
       (min 3600
          (case retry_after_seconds err of
             None \<Rightarrow> 0
           | Some s \<Rightarrow> if uint s < 2 ^ 63 then uint s else 0))"

text \<open>The first half of \<open>finish\<close>: the new state, failure class, delay and finished flag.\<close>

fun finish_plan ::
  "int \<Rightarrow> int \<Rightarrow> operation_outcome \<Rightarrow> operation_state \<times> str option \<times> int \<times> bool" where
  "finish_plan attempt max_attempts OutcomeSucceeded = (Succeeded, None, 0, True)"
| "finish_plan attempt max_attempts OutcomeUnknown =
     (AwaitingReconciliation, Some ''unknown_outcome'', retry_delay attempt, False)"
| "finish_plan attempt max_attempts (OutcomeRetry e) =
     (if attempt < max_attempts
      then (Pending, Some (failure_class_of e), effective_retry_delay attempt e, False)
      else (DeadLetter, Some (failure_class_of e), 0, True))"
| "finish_plan attempt max_attempts (OutcomeFailed e) =
     (DeadLetter, Some (failure_class_of e), 0, True)"

definition finish_row ::
  "int \<Rightarrow> operation_state \<times> str option \<times> int \<times> bool \<Rightarrow> 'j operation_row \<Rightarrow> 'j operation_row" where
  "finish_row now plan r =
     (let (state, failure, delay, finished) = plan in
        r\<lparr>op_state := state, op_failure_class := failure,
          op_next_attempt_at := now + seconds delay,
          op_leased_by := None, op_lease_expires_at := None,
          op_progress_percent := (if state = Succeeded then 100 else op_progress_percent r),
          op_progress_phase := (if state = Succeeded then Some ''complete'' else op_progress_phase r),
          op_progress_message := (if state = Succeeded then Some ''Complete'' else op_progress_message r),
          op_progress_updated_at := Some now,
          op_finished_at := (if finished then Some now else None)\<rparr>)"

definition finish ::
  "int \<Rightarrow> 'j leased_operation \<Rightarrow> operation_outcome \<Rightarrow> 'j operation_row list
     \<Rightarrow> db_error + 'j operation_row list" where
  "finish now lo outcome t =
     (let plan = finish_plan (lo_attempt lo) (lo_max_attempts lo) outcome;
          (changed, t') = update_where
            (holds_lease now (lo_id lo) (lo_leased_by lo) (lo_attempt lo)) (finish_row now plan) t
      in if changed \<noteq> 1 then Inl (Bail ''operation lease was lost'') else Inr t')"

definition renew_lease ::
  "int \<Rightarrow> uuid \<Rightarrow> str \<Rightarrow> int \<Rightarrow> 'j operation_row list \<Rightarrow> bool \<times> 'j operation_row list" where
  "renew_lease now i worker attempt t =
     (let (changed, t') = update_where (holds_lease now i worker attempt)
            (\<lambda>r. r\<lparr>op_lease_expires_at := Some (now + seconds 60)\<rparr>) t
      in (changed = 1, t'))"

text \<open>The statement of the operator's retry in \<open>src/api.rs\<close>; False is its conflict answer.\<close>

definition retry_dead_letter ::
  "int \<Rightarrow> uuid \<Rightarrow> 'j operation_row list \<Rightarrow> bool \<times> 'j operation_row list" where
  "retry_dead_letter now i t =
     (let (changed, t') = update_where (\<lambda>r. op_id r = i \<and> op_state r = DeadLetter)
            (\<lambda>r. r\<lparr>op_state := Pending, op_attempt := 0, op_next_attempt_at := now,
                   op_failure_class := None, op_finished_at := None\<rparr>) t
      in (changed = 1, t'))"


section \<open>Executions\<close>

text \<open>
  One label per statement that committed. Leases that find nothing, statements that fail and
  renewals that report False leave the table alone and need no label. Time only moves forward.
\<close>

datatype 'j queue_event =
    Enqueued uuid
  | Granted "'j leased_operation"
  | Renewed uuid str int
  | Checkpointed uuid str int
  | Finished uuid str int operation_state
  | Retried uuid
  | Elapsed

type_synonym 'j queue_state = "int \<times> 'j operation_row list"

inductive queue_step ::
  "('j \<Rightarrow> bool) \<Rightarrow> 'j queue_state \<Rightarrow> 'j queue_event \<Rightarrow> 'j queue_state \<Rightarrow> bool"
  for is_object :: "'j \<Rightarrow> bool" where
  step_enqueue: "enqueue is_object admits referenced now new_id tp ts n t = Inr (i, t') \<Longrightarrow>
     queue_step is_object (now, t) (Enqueued i) (now, t')"
| step_lease: "lease now locked q w t = Inr (Some lo, t') \<Longrightarrow>
     queue_step is_object (now, t) (Granted lo) (now, t')"
| step_renew: "renew_lease now i w a t = (True, t') \<Longrightarrow>
     queue_step is_object (now, t) (Renewed i w a) (now, t')"
| step_checkpoint: "save_operation_checkpoint is_object now lo v t = Inr t' \<Longrightarrow>
     queue_step is_object (now, t) (Checkpointed (lo_id lo) (lo_leased_by lo) (lo_attempt lo)) (now, t')"
| step_finish: "finish now lo outcome t = Inr t' \<Longrightarrow>
     st = fst (finish_plan (lo_attempt lo) (lo_max_attempts lo) outcome) \<Longrightarrow>
     queue_step is_object (now, t) (Finished (lo_id lo) (lo_leased_by lo) (lo_attempt lo) st) (now, t')"
| step_retry: "retry_dead_letter now i t = (True, t') \<Longrightarrow>
     queue_step is_object (now, t) (Retried i) (now, t')"
| step_elapse: "now \<le> now' \<Longrightarrow> queue_step is_object (now, t) Elapsed (now', t)"

inductive_cases queue_stepE: "queue_step is_object s e s'"

text \<open>
  Who owns an operation according to the log alone: the worker and attempt of its latest grant,
  unless that owner has finished it since.
\<close>

fun holder_step ::
  "uuid \<Rightarrow> 'j queue_event \<Rightarrow> (str \<times> int) option \<Rightarrow> (str \<times> int) option" where
  "holder_step i (Granted lo) h =
     (if lo_id lo = i then Some (lo_leased_by lo, lo_attempt lo) else h)"
| "holder_step i (Finished j w a st) h = (if j = i then None else h)"
| "holder_step i _ h = h"

definition lease_holder :: "uuid \<Rightarrow> 'j queue_event list \<Rightarrow> (str \<times> int) option" where
  "lease_holder i es = fold (holder_step i) es None"

text \<open>The token a lease holder's statement presents.\<close>

fun presents :: "'j queue_event \<Rightarrow> (uuid \<times> str \<times> int) option" where
  "presents (Renewed i w a) = Some (i, w, a)"
| "presents (Checkpointed i w a) = Some (i, w, a)"
| "presents (Finished i w a st) = Some (i, w, a)"
| "presents _ = None"


section \<open>The table invariant\<close>

text \<open>
  Beyond the declared constraints: a finished row has a terminal state, an in-flight row has been
  attempted, the queue is that of the kind, and the attempt counter fits its column.
\<close>

definition queue_matches :: "str \<Rightarrow> str \<Rightarrow> bool" where
  "queue_matches kind queue \<longleftrightarrow>
     (case kind_from_str kind of Inl _ \<Rightarrow> False | Inr k \<Rightarrow> queue = kind_queue k)"

definition row_ok :: "('j \<Rightarrow> bool) \<Rightarrow> 'j operation_row \<Rightarrow> bool" where
  "row_ok is_object r \<longleftrightarrow>
     operations_check is_object r \<and>
     (op_finished_at r \<noteq> None) = (op_state r \<in> {Succeeded, DeadLetter}) \<and>
     (op_state r = InFlight \<longrightarrow> 1 \<le> op_attempt r) \<and> op_attempt r \<le> 2147483647 \<and>
     queue_matches (op_kind r) (op_queue r)"

definition table_ok :: "('j \<Rightarrow> bool) \<Rightarrow> 'j operation_row list \<Rightarrow> bool" where
  "table_ok is_object t \<longleftrightarrow>
     distinct (map op_id t) \<and> distinct (map op_key t) \<and> list_all (row_ok is_object) t"

text \<open>The identity of a row, which no statement changes once it is inserted.\<close>

definition op_identity where
  "op_identity r = (op_id r, op_key r, op_semantics r)"

lemmas row_ok_simps = row_ok_def operations_check_def

lemma table_ok_unique: "table_ok is_object t \<Longrightarrow> r \<in> set t \<Longrightarrow> s \<in> set t \<Longrightarrow> op_id r = op_id s \<Longrightarrow> r = s"
  by (auto simp: table_ok_def intro: distinct_key_unique)

lemma table_ok_row: "table_ok is_object t \<Longrightarrow> r \<in> set t \<Longrightarrow> row_ok is_object r"
  by (simp add: table_ok_def list_all_iff)

lemma table_ok_update:
  assumes t: "table_ok is_object t"
    and ident: "\<And>r. p r \<Longrightarrow> op_identity (f r) = op_identity r"
    and row: "\<And>r. r \<in> set t \<Longrightarrow> row_ok is_object r \<Longrightarrow> p r \<Longrightarrow> row_ok is_object (f r)"
  shows "table_ok is_object (snd (update_where p f t))"
proof -
  have "map op_id (snd (update_where p f t)) = map op_id t"
    and "map op_key (snd (update_where p f t)) = map op_key t"
    using ident by (auto simp: op_identity_def intro!: map_update_where)
  moreover have "row_ok is_object r" if "r \<in> set (snd (update_where p f t))" for r
    using that t row by (auto simp: set_update_where table_ok_def list_all_iff)
  ultimately show ?thesis
    using t by (simp add: table_ok_def list_all_iff)
qed

lemma holds_lease_count:
  "table_ok is_object t \<Longrightarrow>
     length (filter (holds_lease now i w a) t) = (if \<exists>r \<in> set t. holds_lease now i w a r then 1 else 0)"
  by (rule distinct_key_filter [where k = op_id and x = i]) (auto simp: table_ok_def holds_lease_def)

lemma lease_candidate_Some:
  assumes "lease_candidate now locked q t = Some c"
  shows "c \<in> set t" and "leasable now locked q c"
    and "\<And>r. r \<in> set t \<Longrightarrow> leasable now locked q r \<Longrightarrow>
          (op_next_attempt_at c, op_created_at c) \<le> (op_next_attempt_at r, op_created_at r)"
proof -
  let ?k = "\<lambda>r. (op_next_attempt_at r, op_created_at r)"
  obtain cs where cs: "sort_key ?k (filter (leasable now locked q) t) = c # cs"
    using assms by (auto simp: lease_candidate_def split: list.splits)
  then have set: "set (c # cs) = {r \<in> set t. leasable now locked q r}"
    by (metis set_filter set_sort)
  then show "c \<in> set t" and "leasable now locked q c" by auto
  have "sorted (map ?k (c # cs))" using cs by (metis sorted_sort_key)
  then show "?k c \<le> ?k r" if "r \<in> set t" and "leasable now locked q r" for r
    using that set by auto
qed

lemma lease_candidate_None:
  "lease_candidate now locked q t = None \<longleftrightarrow> (\<forall>r \<in> set t. \<not> leasable now locked q r)"
proof -
  let ?s = "sort_key (\<lambda>r. (op_next_attempt_at r, op_created_at r)) (filter (leasable now locked q) t)"
  have "lease_candidate now locked q t = None \<longleftrightarrow> ?s = []"
    by (simp add: lease_candidate_def split: list.splits)
  also have "\<dots> \<longleftrightarrow> set ?s = {}" by (simp only: set_empty)
  also have "\<dots> \<longleftrightarrow> {r \<in> set t. leasable now locked q r} = {}" by (simp only: set_sort set_filter)
  finally show ?thesis by blast
qed

lemma lease_Some:
  assumes "lease now locked q w t = Inr (Some lo, t')"
  obtains c where "c \<in> set t" and "leasable now locked q c" and "op_attempt c < 2147483647"
    and "lo = leased_view w c"
    and "t' = snd (update_where (\<lambda>r. op_id r = op_id c) (grant_lease now w) t)"
proof -
  from assms obtain c where c: "lease_candidate now locked q t = Some c"
    "op_attempt c < 2147483647" "lo = leased_view w c"
    "t' = snd (update_where (\<lambda>r. op_id r = op_id c) (grant_lease now w) t)"
    by (auto simp: lease_def split: option.splits if_splits)
  with lease_candidate_Some(1,2) [OF c(1)] show ?thesis using that by blast
qed

text \<open>Every statement, seen as what it does to the rows.\<close>

lemma renew_lease_True:
  assumes "renew_lease now i w a t = (True, t')"
  shows "t' = snd (update_where (holds_lease now i w a)
                     (\<lambda>r. r\<lparr>op_lease_expires_at := Some (now + seconds 60)\<rparr>) t)"
    and "\<exists>r \<in> set t. holds_lease now i w a r"
  using assms by (auto simp: renew_lease_def update_where_def filter_eq_Cons_iff length_Suc_conv)

lemma save_operation_checkpoint_Inr:
  assumes "save_operation_checkpoint is_object now lo v t = Inr t'"
  shows "t' = snd (update_where
             (\<lambda>r. holds_lease now (lo_id lo) (lo_leased_by lo) (lo_attempt lo) r \<and> op_checkpoint r = None)
             (\<lambda>r. r\<lparr>op_checkpoint := Some v\<rparr>) t)"
    and "\<exists>r \<in> set t. holds_lease now (lo_id lo) (lo_leased_by lo) (lo_attempt lo) r \<and>
           op_checkpoint r = None \<and> operations_check is_object (r\<lparr>op_checkpoint := Some v\<rparr>)"
    and "\<forall>r \<in> set t. holds_lease now (lo_id lo) (lo_leased_by lo) (lo_attempt lo) r \<and>
           op_checkpoint r = None \<longrightarrow> operations_check is_object (r\<lparr>op_checkpoint := Some v\<rparr>)"
  using assms
  by (auto simp: save_operation_checkpoint_def result_simps update_where_def
        filter_eq_Cons_iff length_Suc_conv split: if_splits)

lemma finish_Inr:
  assumes "finish now lo outcome t = Inr t'"
  shows "t' = snd (update_where (holds_lease now (lo_id lo) (lo_leased_by lo) (lo_attempt lo))
             (finish_row now (finish_plan (lo_attempt lo) (lo_max_attempts lo) outcome)) t)"
    and "\<exists>r \<in> set t. holds_lease now (lo_id lo) (lo_leased_by lo) (lo_attempt lo) r"
  using assms
  by (auto simp: finish_def Let_def update_where_def filter_eq_Cons_iff length_Suc_conv split: if_splits)

lemma retry_dead_letter_True:
  assumes "retry_dead_letter now i t = (True, t')"
  shows "t' = snd (update_where (\<lambda>r. op_id r = i \<and> op_state r = DeadLetter)
     (\<lambda>r. r\<lparr>op_state := Pending, op_attempt := 0, op_next_attempt_at := now,
            op_failure_class := None, op_finished_at := None\<rparr>) t)"
  using assms by (auto simp: retry_dead_letter_def update_where_def)

lemma enqueue_Inr:
  assumes "enqueue is_object admits referenced now new_id tp ts n t = Inr (i, t')"
  defines "row \<equiv> new_row now new_id tp ts n"
  shows "operations_check is_object row"
    and "(t' = t \<and> (\<exists>r \<in> set t. op_id r = i \<and> op_key r = op_key row \<and> op_semantics r = op_semantics row))
       \<or> (t' = t @ [row] \<and> i = new_id \<and> (\<forall>r \<in> set t. op_id r \<noteq> new_id \<and> op_key r \<noteq> op_key row))"
  using assms
  by (auto simp: enqueue_def Let_def result_simps find_None_iff find_Some_iff
        split: option.splits if_splits)

lemmas row_step_simps =
  op_identity_def op_key_def op_semantics_def grant_lease_def finish_row_def Let_def

lemma finish_plan_states:
  "finish_plan a m outcome = (st, failure, delay, fin) \<Longrightarrow>
     st \<noteq> InFlight \<and> fin = (st \<in> {Succeeded, DeadLetter})"
  by (cases outcome) (auto split: if_splits)

lemma finish_row_unleased [simp]: "op_leased_by (finish_row now plan r) = None"
  by (simp add: finish_row_def split: prod.splits)

lemma finish_row_ok:
  assumes "row_ok is_object r"
  shows "row_ok is_object (finish_row now (finish_plan a m outcome) r)"
proof -
  obtain st failure delay fin where plan: "finish_plan a m outcome = (st, failure, delay, fin)"
    by (metis prod_cases4)
  from finish_plan_states [OF plan] assms plan show ?thesis
    by (simp add: row_ok_simps finish_row_def)
qed

lemma new_row_ok:
  "operations_check is_object (new_row now new_id tp ts n) \<Longrightarrow> row_ok is_object (new_row now new_id tp ts n)"
  by (simp add: row_ok_def new_row_def queue_matches_def kind_text.parse_print)

lemma grant_lease_ok:
  "row_ok is_object r \<Longrightarrow> leasable now locked q r \<Longrightarrow> op_attempt r < 2147483647 \<Longrightarrow>
     row_ok is_object (grant_lease now w r)"
  by (auto simp: row_ok_simps leasable_def grant_lease_def)

lemma op_id_new_row [simp]: "op_id (new_row now new_id tp ts n) = new_id"
  by (simp add: new_row_def)

lemma queue_step_table_ok:
  assumes "queue_step is_object s e s'" and "table_ok is_object (snd s)"
  shows "table_ok is_object (snd s')"
  using assms
proof (cases rule: queue_step.cases)
  case (step_enqueue admits referenced now new_id tp ts n t i t')
  then show ?thesis
    using enqueue_Inr [OF step_enqueue(4)] assms(2) new_row_ok [of is_object now new_id tp ts n]
    by (fastforce simp: table_ok_def)
next
  case (step_lease now locked q w t lo t')
  from step_lease(4) obtain c where c: "c \<in> set t" "leasable now locked q c"
      "op_attempt c < 2147483647"
      "t' = snd (update_where (\<lambda>r. op_id r = op_id c) (grant_lease now w) t)"
    by (rule lease_Some)
  have t: "table_ok is_object t" using assms(2) step_lease by simp
  have "table_ok is_object (snd (update_where (\<lambda>r. op_id r = op_id c) (grant_lease now w) t))"
  proof (rule table_ok_update [OF t])
    show "row_ok is_object (grant_lease now w r)"
      if "r \<in> set t" "row_ok is_object r" "op_id r = op_id c" for r
      using that table_ok_unique [OF t _ c(1)] c grant_lease_ok by metis
  qed (simp add: row_step_simps)
  then show ?thesis using c step_lease by simp
next
  case (step_renew now i w a t t')
  then show ?thesis
    using assms(2) renew_lease_True(1) [OF step_renew(4)]
    by (auto intro!: table_ok_update simp: row_step_simps) (auto simp: row_ok_simps holds_lease_def)
next
  case (step_checkpoint now lo v t t')
  then show ?thesis
    using assms(2) save_operation_checkpoint_Inr(1,3) [OF step_checkpoint(4)]
    by (auto intro!: table_ok_update simp: row_step_simps) (auto simp: row_ok_def)
next
  case (step_finish now lo outcome t t' st)
  then show ?thesis
    using assms(2) finish_Inr(1) [OF step_finish(4)]
    by (auto intro!: table_ok_update finish_row_ok simp: row_step_simps split: prod.splits)
next
  case (step_retry now i t t')
  then show ?thesis
    using assms(2) retry_dead_letter_True [OF step_retry(4)]
    by (auto intro!: table_ok_update simp: row_step_simps) (auto simp: row_ok_simps)
next
  case (step_elapse now now' t)
  then show ?thesis using assms(2) by simp
qed

interpretation queue_inv: step_invariant
  "\<lambda>s. snd s = []" "queue_step is_object" "\<lambda>s. table_ok is_object (snd s)"
  for is_object :: "'j \<Rightarrow> bool"
  by unfold_locales (simp add: table_ok_def, rule queue_step_table_ok)


section \<open>Row identities and ownership along executions\<close>

lemma update_where_identity:
  "(\<And>r. op_identity (f r) = op_identity r) \<Longrightarrow>
     map op_identity (snd (update_where p f t)) = map op_identity t"
  by (simp add: map_update_where)

lemma op_identity_steps:
  "op_identity (grant_lease now w r) = op_identity r"
  "op_identity (finish_row now plan r) = op_identity r"
  "op_identity (r\<lparr>op_lease_expires_at := e\<rparr>) = op_identity r"
  "op_identity (r\<lparr>op_checkpoint := c\<rparr>) = op_identity r"
  "op_identity (r\<lparr>op_state := st, op_attempt := a, op_next_attempt_at := m,
      op_failure_class := f, op_finished_at := g\<rparr>) = op_identity r"
  by (simp_all add: row_step_simps split: prod.splits)

lemma queue_step_identity:
  assumes "queue_step is_object (now, t) e (now', t')"
  shows "op_identity ` set t \<subseteq> op_identity ` set t'"
proof -
  have "\<exists>u. map op_identity t' = map op_identity t @ u"
    using assms
  proof (cases rule: queue_step.cases)
    case (step_enqueue admits referenced new_id tp ts n i)
    then show ?thesis using enqueue_Inr(2) [OF step_enqueue(3)] by auto
  next
    case (step_lease locked q w lo)
    from step_lease(3) show ?thesis
      by (rule lease_Some) (simp add: update_where_identity op_identity_steps)
  next
    case (step_renew i w a)
    then show ?thesis
      using renew_lease_True(1) [OF step_renew(3)] by (simp add: update_where_identity op_identity_steps)
  next
    case (step_checkpoint lo v)
    then show ?thesis
      using save_operation_checkpoint_Inr(1) [OF step_checkpoint(3)]
      by (simp add: update_where_identity op_identity_steps)
  next
    case (step_finish lo outcome st)
    then show ?thesis
      using finish_Inr(1) [OF step_finish(3)] by (simp add: update_where_identity op_identity_steps)
  next
    case (step_retry i)
    then show ?thesis
      using retry_dead_letter_True [OF step_retry(3)]
      by (simp add: update_where_identity op_identity_steps)
  next
    case step_elapse
    then show ?thesis by simp
  qed
  then show ?thesis by (metis list.set_map set_append Un_upper1)
qed

lemma exec_identity:
  "exec (queue_step is_object) s es s' \<Longrightarrow> op_identity ` set (snd s) \<subseteq> op_identity ` set (snd s')"
proof (induction rule: exec.induct)
  case (exec_snoc s es u e v)
  then show ?case
    using queue_step_identity [of is_object "fst u" "snd u" e "fst v" "snd v"] by auto
qed simp

lemma lease_holder_snoc [simp]: "lease_holder i (es @ [e]) = holder_step i e (lease_holder i es)"
  by (simp add: lease_holder_def)

text \<open>Every in-flight row is owned, in the log, by exactly the worker and attempt it stores.\<close>

definition owned_by_log :: "'j queue_event list \<Rightarrow> 'j operation_row list \<Rightarrow> bool" where
  "owned_by_log es t \<longleftrightarrow>
     (\<forall>r \<in> set t. \<forall>w. op_leased_by r = Some w \<longrightarrow> lease_holder (op_id r) es = Some (w, op_attempt r))"

lemma owned_by_log_update:
  assumes "owned_by_log es t" and "\<And>r. p r \<Longrightarrow> op_identity (f r) = op_identity r"
    and "\<And>r. r \<in> set t \<Longrightarrow> p r \<Longrightarrow> op_leased_by (f r) = None \<or>
      lease_holder (op_id r) (es @ [e]) = Some (the (op_leased_by (f r)), op_attempt (f r))"
    and "\<And>r. r \<in> set t \<Longrightarrow> \<not> p r \<Longrightarrow> op_leased_by r \<noteq> None \<Longrightarrow>
      lease_holder (op_id r) (es @ [e]) = lease_holder (op_id r) es"
  shows "owned_by_log (es @ [e]) (snd (update_where p f t))"
  unfolding owned_by_log_def
proof (intro ballI allI impI)
  fix r w assume r: "r \<in> set (snd (update_where p f t))" and w: "op_leased_by r = Some w"
  from r consider s where "s \<in> set t" "p s" "r = f s" | "r \<in> set t" "\<not> p r"
    by (auto simp: set_update_where)
  then show "lease_holder (op_id r) (es @ [e]) = Some (w, op_attempt r)"
  proof cases
    case 1
    with assms(2) [of s] assms(3) [of s] w show ?thesis by (simp add: op_identity_def)
  next
    case 2
    have "lease_holder (op_id r) es = Some (w, op_attempt r)"
      using assms(1) 2(1) w by (simp add: owned_by_log_def)
    with assms(4) [OF 2] w show ?thesis by simp
  qed
qed

lemma queue_step_owned:
  assumes step: "queue_step is_object (now, t) e (now', t')" and t: "table_ok is_object t"
    and owned: "owned_by_log es t"
  shows "owned_by_log (es @ [e]) t'"
  using step
proof (cases rule: queue_step.cases)
  case (step_enqueue admits referenced new_id tp ts n i)
  then show ?thesis
    using enqueue_Inr(2) [OF step_enqueue(3)] owned
    by (auto simp: owned_by_log_def) (auto simp: new_row_def)
next
  case (step_lease locked q w lo)
  from step_lease(3) obtain c where c: "c \<in> set t" "lo = leased_view w c"
      "t' = snd (update_where (\<lambda>r. op_id r = op_id c) (grant_lease now w) t)"
    by (rule lease_Some)
  show ?thesis unfolding c(3) step_lease(1)
  proof (rule owned_by_log_update [OF owned])
    show "op_leased_by (grant_lease now w r) = None \<or>
        lease_holder (op_id r) (es @ [Granted lo]) =
          Some (the (op_leased_by (grant_lease now w r)), op_attempt (grant_lease now w r))"
      if "r \<in> set t" "op_id r = op_id c" for r
      using that table_ok_unique [OF t that(1) c(1)] c(2) by (simp add: leased_view_def grant_lease_def)
  qed (auto simp: op_identity_steps c(2) leased_view_def)
next
  case (step_renew i w a)
  then show ?thesis
    using owned unfolding renew_lease_True(1) [OF step_renew(3)]
    by (intro owned_by_log_update) (auto simp: op_identity_steps owned_by_log_def holds_lease_def)
next
  case (step_checkpoint lo v)
  then show ?thesis
    using owned unfolding save_operation_checkpoint_Inr(1) [OF step_checkpoint(3)]
    by (intro owned_by_log_update) (auto simp: op_identity_steps owned_by_log_def holds_lease_def)
next
  case (step_finish lo outcome st)
  obtain r where r: "r \<in> set t" "holds_lease now (lo_id lo) (lo_leased_by lo) (lo_attempt lo) r"
    using finish_Inr(2) [OF step_finish(3)] by blast
  show ?thesis
    unfolding finish_Inr(1) [OF step_finish(3)] step_finish(1)
  proof (rule owned_by_log_update [OF owned])
    show "lease_holder (op_id s) (es @ [Finished (lo_id lo) (lo_leased_by lo) (lo_attempt lo) st])
        = lease_holder (op_id s) es"
      if "s \<in> set t" "\<not> holds_lease now (lo_id lo) (lo_leased_by lo) (lo_attempt lo) s" for s
      using that r table_ok_unique [OF t that(1) r(1)] by (auto simp: holds_lease_def)
  qed (auto simp: op_identity_steps)
next
  case (step_retry i)
  have "op_leased_by r = None" if "r \<in> set t" "op_state r = DeadLetter" for r
    using table_ok_row [OF t that(1)] that(2) by (simp add: row_ok_simps)
  then show ?thesis
    using owned unfolding retry_dead_letter_True [OF step_retry(3)] step_retry(1)
    by (intro owned_by_log_update) (auto simp: op_identity_steps owned_by_log_def)
next
  case step_elapse
  then show ?thesis using owned by (simp add: owned_by_log_def)
qed

lemma exec_owned:
  assumes "exec (queue_step is_object) s es s'" and "snd s = []"
  shows "owned_by_log es (snd s')"
  using assms
proof (induction rule: exec.induct)
  case (exec_Nil s)
  then show ?case by (simp add: owned_by_log_def)
next
  case (exec_snoc s es u e v)
  then show ?case
    using queue_step_owned [of is_object "fst u" "snd u" e "fst v" "snd v" es]
      queue_inv.reach_inv [OF exec_snoc.hyps(1)] by simp
qed

lemma holds_lease_owner:
  assumes "exec (queue_step is_object) (now0, []) es (now, t)" and "r \<in> set t"
    and "holds_lease now' i w a r"
  shows "lease_holder i es = Some (w, a)"
  using exec_owned [OF assms(1)] assms(2,3) by (auto simp: owned_by_log_def holds_lease_def)

lemma step_presents:
  assumes "queue_step is_object (now, t) e (now', t')" and "presents e = Some (i, w, a)"
  shows "\<exists>r \<in> set t. holds_lease now i w a r"
  using assms
  by (cases rule: queue_step.cases)
     (auto dest: renew_lease_True(2) save_operation_checkpoint_Inr(2) finish_Inr(2))



section \<open>Properties\<close>

text \<open>A small queue for the witnesses: one operation is enqueued, leased and finished.\<close>

definition sample_new :: "unit new_operation" where
  "sample_new = \<lparr>no_kind = TenantProvision, no_workshop_id = Some 7, no_target_user_id = None,
     no_desired_epoch = None, no_payload = (), no_requested_by = Some 5, no_correlation_id = 9,
     no_idempotency_key = ''provision:7''\<rparr>"

definition sample_pending :: "unit operation_row" where
  "sample_pending = new_row 0 1 None None sample_new"

definition sample_in_flight :: "unit operation_row" where
  "sample_in_flight = grant_lease 0 ''w1'' sample_pending"

definition sample_leased :: "unit leased_operation" where
  "sample_leased = leased_view ''w1'' sample_pending"

lemmas sample_defs = sample_new_def sample_pending_def sample_in_flight_def sample_leased_def

lemma sample_execution:
  "exec (queue_step (\<lambda>_. True)) (0, []) [Enqueued 1, Granted sample_leased] (0, [sample_in_flight])"
proof -
  have "enqueue (\<lambda>_. True) (\<lambda>_. True) (\<lambda>_. True) 0 1 None None sample_new [] = Inr (1, [sample_pending])"
    by code_simp
  then have 1: "queue_step (\<lambda>_. True) (0, []) (Enqueued 1) (0, [sample_pending])"
    by (rule step_enqueue)
  have "lease 0 (\<lambda>_. False) ''tenant-provisioning'' ''w1'' [sample_pending]
      = Inr (Some sample_leased, [sample_in_flight])"
    by code_simp
  then have 2: "queue_step (\<lambda>_. True) (0, [sample_pending]) (Granted sample_leased) (0, [sample_in_flight])"
    by (rule step_lease)
  show ?thesis using exec_append [OF exec_one [where step = "queue_step (\<lambda>_. True)", OF 1]
          exec_one [where step = "queue_step (\<lambda>_. True)", OF 2]] by simp
qed

text \<open>
  C2. Lease fencing. In every execution of the queue, operator retries included, a renewal, a
  checkpoint or a completion that the database accepts was presented by the current owner: the
  worker and attempt of the operation's latest grant, with no completion since. A worker whose
  lease was taken over can never again extend, checkpoint or complete the operation.
\<close>

theorem lease_fencing:
  assumes "exec (queue_step is_object) (now0, []) es (now, t)"
    and "queue_step is_object (now, t) e s'"
    and "presents e = Some (i, w, a)"
  shows "lease_holder i es = Some (w, a)"
  using assms step_presents [of is_object now t e "fst s'" "snd s'"] holds_lease_owner by fastforce

theorem lease_fencing_witness:
  "lease_holder 1 [Enqueued 1, Granted sample_leased] = Some (''w1'', 1)"
proof -
  have "finish 0 sample_leased OutcomeSucceeded [sample_in_flight]
      = Inr [finish_row 0 (Succeeded, None, 0, True) sample_in_flight]"
    by code_simp
  then have "queue_step (\<lambda>_. True) (0, [sample_in_flight])
      (Finished (lo_id sample_leased) (lo_leased_by sample_leased) (lo_attempt sample_leased) Succeeded)
      (0, [finish_row 0 (Succeeded, None, 0, True) sample_in_flight])"
    by (rule step_finish) simp
  from lease_fencing [OF sample_execution this, of 1 "''w1''" 1] show ?thesis
    by (simp add: sample_defs leased_view_def new_row_def)
qed

text \<open>
  C10. Table invariant. Every reachable queue satisfies all declared constraints (so no statement of
  the store can be refused by one), has unique ids and idempotency keys, gives a finish time to
  exactly the terminal rows, and routes every row to the queue of its kind.
\<close>

theorem queue_reachable_ok:
  assumes "exec (queue_step is_object) (now0, []) es (now, t)"
  shows "table_ok is_object t"
  using queue_inv.reach_inv [OF assms] by simp

theorem queue_reachable_ok_witness: "table_ok (\<lambda>_. True) [sample_in_flight]"
  by (rule queue_reachable_ok [OF sample_execution])





text \<open>
  C27. Leasing. On a table that satisfies the invariant, a lease call takes the row that is first by
  due time and creation time among the due or abandoned rows of the queue, never a terminal one,
  gives its caller an unexpired lease under a fresh attempt number, and changes no other row; it
  reports nothing to do exactly when no such row exists.
\<close>

theorem lease_exact:
  assumes t: "table_ok is_object t" and lease: "lease now locked q w t = Inr (res, t')"
  shows "case res of
      None \<Rightarrow> t' = t \<and> (\<forall>r \<in> set t. \<not> leasable now locked q r)
    | Some lo \<Rightarrow> \<exists>c \<in> set t. leasable now locked q c \<and> op_state c \<notin> {Succeeded, DeadLetter} \<and>
        (\<forall>r \<in> set t. leasable now locked q r \<longrightarrow>
           (op_next_attempt_at c, op_created_at c) \<le> (op_next_attempt_at r, op_created_at r)) \<and>
        lo = leased_view w c \<and>
        t' = map (\<lambda>r. if op_id r = op_id c then grant_lease now w r else r) t \<and>
        (\<exists>r \<in> set t'. holds_lease now (lo_id lo) w (op_attempt c + 1) r)"
proof (cases "lease_candidate now locked q t")
  case None
  with lease show ?thesis by (auto simp: lease_def lease_candidate_None)
next
  case (Some c)
  with lease have res: "res = Some (leased_view w c)"
    and t': "t' = map (\<lambda>r. if op_id r = op_id c then grant_lease now w r else r) t"
    by (auto simp: lease_def update_where_def split: if_splits)
  note c = lease_candidate_Some [OF Some]
  have "grant_lease now w c \<in> set t'" using c(1) unfolding t' by force
  moreover have "holds_lease now (op_id c) w (op_attempt c + 1) (grant_lease now w c)"
    by (simp add: holds_lease_def grant_lease_def seconds_def)
  moreover have "op_state c \<notin> {Succeeded, DeadLetter}"
    using c(2) by (auto simp: leasable_def)
  ultimately have "\<exists>r \<in> set t'. holds_lease now (lo_id (leased_view w c)) w (op_attempt c + 1) r"
      and "op_state c \<notin> {Succeeded, DeadLetter}"
    by (auto simp: leased_view_def)
  then show ?thesis unfolding res option.case
    by - (rule bexI [OF _ c(1)], intro conjI ballI impI c t' refl, simp_all)
qed

theorem lease_exact_witness:
  "\<exists>c \<in> set [sample_pending]. leasable 0 (\<lambda>_. False) ''tenant-provisioning'' c \<and>
     sample_leased = leased_view ''w1'' c"
proof -
  have "table_ok (\<lambda>_. True) [sample_pending]" by code_simp
  moreover have "lease 0 (\<lambda>_. False) ''tenant-provisioning'' ''w1'' [sample_pending]
      = Inr (Some sample_leased, [sample_in_flight])"
    by code_simp
  ultimately show ?thesis using lease_exact by fastforce
qed



text \<open>
  Retry delays. The back-off starts at five seconds, never decreases with the attempt and never
  exceeds fifteen minutes; a provider's retry hint can lengthen it, to one hour at most, and can
  never shorten it.
\<close>

theorem retry_delay_envelope:
  "5 \<le> retry_delay a \<and> retry_delay a \<le> 900 \<and> mono retry_delay \<and>
   retry_delay a \<le> effective_retry_delay a e \<and> effective_retry_delay a e \<le> 3600"
proof (intro conjI)
  have ge: "(5 :: int) * 2 ^ k \<ge> 5" for k :: nat by simp
  show "5 \<le> retry_delay a" using ge by (simp add: retry_delay_def)
  show le: "retry_delay a \<le> 900" by (simp add: retry_delay_def Let_def)
  show "mono retry_delay"
  proof
    fix a b :: int assume "a \<le> b"
    then have "min 8 (nat (max (- 2147483648) (a - 1))) \<le> min 8 (nat (max (- 2147483648) (b - 1)))"
      by linarith
    then have "(5 :: int) * 2 ^ min 8 (nat (max (- 2147483648) (a - 1)))
        \<le> 5 * 2 ^ min 8 (nat (max (- 2147483648) (b - 1)))"
      by (simp add: power_increasing)
    then show "retry_delay a \<le> retry_delay b" unfolding retry_delay_def Let_def by linarith
  qed
  show "retry_delay a \<le> effective_retry_delay a e" by (simp add: effective_retry_delay_def)
  show "effective_retry_delay a e \<le> 3600"
    using le by (simp add: effective_retry_delay_def)
qed

end
