(* ===== verification/Worker.thy ===== *)
theory Worker
  imports Operation_Queue
begin

text \<open>
  What the worker loop of \<open>src/worker.rs\<close> decides about one leased operation: the scope check
  ahead of the handler, the compensation that is called when a failure counts as terminal, the
  outcome that is reported to the queue, and the heartbeat that guards the handler. The handler
  and the compensations are parameters: they are the workers' own effects on other tables and on
  providers. The parameter \<open>module_key\<close> reads the string member of that name of a payload.
\<close>

section \<open>Validation\<close>

datatype validated_operation =
    ValidatedWorkshop operation_kind uuid
  | ValidatedFleet operation_kind

definition validate_operation ::
  "str \<Rightarrow> 'j leased_operation \<Rightarrow> integration_error + validated_operation" where
  "validate_operation queue lo =
     and_then (map_err (\<lambda>_. ContractDrift) (kind_from_str (lo_kind lo))) (\<lambda>kind.
     and_then (map_err (\<lambda>_. ContractDrift) (execution_scope kind queue (lo_workshop_id lo))) (\<lambda>scope.
       case scope of
         WorkshopScope w \<Rightarrow> Inr (ValidatedWorkshop kind w)
       | FleetScope \<Rightarrow> Inr (ValidatedFleet kind)))"


section \<open>Terminal failures and compensation\<close>

definition release_failure_is_terminal :: "integration_error \<Rightarrow> int \<Rightarrow> int \<Rightarrow> bool" where
  "release_failure_is_terminal e attempt max_attempts \<longleftrightarrow>
     e \<noteq> UnknownOutcome \<and> (\<not> retryable e \<or> attempt \<ge> max_attempts)"

definition domain_failure_is_terminal :: "integration_error \<Rightarrow> int \<Rightarrow> int \<Rightarrow> bool" where
  "domain_failure_is_terminal e attempt max_attempts \<longleftrightarrow>
     e \<noteq> UnknownOutcome \<and> (\<not> retryable e \<or> attempt \<ge> max_attempts)"

text \<open>The compensation of each kind that has one, with the arguments the loop passes it.\<close>

datatype compensation =
    LifecycleFailed uuid
  | ReleaseFailed
  | OnboardingFailed
  | DomainsFailed uuid
  | EmailDomainsFailed
  | ModuleActivationFailed uuid str

text \<open>\<open>result.as_ref().is_err_and(...)\<close>\<close>

fun is_err_and :: "('e \<Rightarrow> bool) \<Rightarrow> 'e + unit \<Rightarrow> bool" where
  "is_err_and p (Inl e) = p e"
| "is_err_and p (Inr _) = False"

text \<open>
  The chain of conditions after the handler. The kinds it compares are pairwise different, so at
  most one compensation is called.
\<close>

definition compensation_of ::
  "('j \<Rightarrow> str option) \<Rightarrow> bool \<Rightarrow> 'j leased_operation \<Rightarrow> integration_error + unit \<Rightarrow> compensation option" where
  "compensation_of module_key contract_valid lo result =
     (let attempt = lo_attempt lo; max_attempts = lo_max_attempts lo;
          final = (\<lambda>e. \<not> retryable e \<or> attempt \<ge> max_attempts)
      in if \<not> contract_valid then None
         else if lo_kind lo = ''tenant.lifecycle'' then
           (if is_err_and final result
            then map_option LifecycleFailed (lo_workshop_id lo) else None)
         else if lo_kind lo = ''odoo.release.adopt'' then
           (if is_err_and (\<lambda>e. release_failure_is_terminal e attempt max_attempts) result
            then Some ReleaseFailed else None)
         else if lo_kind lo = ''webshop-onboarding.reconcile'' then
           (if is_err_and final result then Some OnboardingFailed else None)
         else if lo_kind lo = ''webshop-domain.reconcile'' then
           (if is_err_and (\<lambda>e. domain_failure_is_terminal e attempt max_attempts) result
            then map_option DomainsFailed (lo_workshop_id lo) else None)
         else if lo_kind lo = ''webshop-email-domain.reconcile'' then
           (if is_err_and final result then Some EmailDomainsFailed else None)
         else if lo_kind lo = ''module.enable'' then
           (if is_err_and final result
            then (case (lo_workshop_id lo, module_key (lo_payload lo)) of
                    (Some w, Some k) \<Rightarrow> Some (ModuleActivationFailed w k)
                  | _ \<Rightarrow> None)
            else None)
         else None)"

text \<open>
  The work of one operation: the compensation that was called, if any, and the final result. The
  parameter \<open>run_compensation\<close> gives the error of a compensation, None when it succeeds.
\<close>

definition operation_work ::
  "('j \<Rightarrow> str option) \<Rightarrow> str \<Rightarrow> (validated_operation \<Rightarrow> integration_error + unit)
     \<Rightarrow> (compensation \<Rightarrow> integration_error option) \<Rightarrow> 'j leased_operation
     \<Rightarrow> compensation option \<times> (integration_error + unit)" where
  "operation_work module_key queue handle run_compensation lo =
     (let validated = validate_operation queue lo;
          result = and_then validated handle;
          called = compensation_of module_key (is_ok validated) lo result
      in (called,
          case Option.bind called run_compensation of
            None \<Rightarrow> result
          | Some e \<Rightarrow> Inl (if e = ContractDrift then ContractDrift else UnknownOutcome)))"

fun outcome_of :: "integration_error + unit \<Rightarrow> operation_outcome" where
  "outcome_of (Inr _) = OutcomeSucceeded"
| "outcome_of (Inl e) =
     (if e = UnknownOutcome then OutcomeUnknown
      else if retryable e then OutcomeRetry e
      else OutcomeFailed e)"

text \<open>The state the queue is told to put the operation in.\<close>

definition reported_state :: "'j leased_operation \<Rightarrow> integration_error + unit \<Rightarrow> operation_state" where
  "reported_state lo result =
     fst (finish_plan (lo_attempt lo) (lo_max_attempts lo) (outcome_of result))"


section \<open>The guarded handler\<close>

datatype 'a guarded_operation = Completed 'a | LeaseLost

text \<open>
  \<open>guard_operation_lease\<close> polls the work first. The list \<open>polls\<close> says for each heartbeat interval
  whether the work is done by its end (with its result) and, if it is not, what the renewal
  returns; an error of the renewal is returned as such. With nothing left to observe the loop has
  not returned yet.
\<close>

fun guard_operation_lease ::
  "('a option \<times> ('e + bool)) list \<Rightarrow> ('e + 'a guarded_operation) option" where
  "guard_operation_lease [] = None"
| "guard_operation_lease ((Some result, _) # polls) = Some (Inr (Completed result))"
| "guard_operation_lease ((None, renewed) # polls) =
     (case renewed of
        Inl e \<Rightarrow> Some (Inl e)
      | Inr True \<Rightarrow> guard_operation_lease polls
      | Inr False \<Rightarrow> Some (Inr LeaseLost))"


section \<open>Properties\<close>

lemma ex_scope: "(\<exists>s. P s) \<longleftrightarrow> (\<exists>w. P (WorkshopScope w)) \<or> P FleetScope"
  by (metis operation_execution_scope.exhaust)

lemma validate_operation_Inr [result_simps]:
  "validate_operation q lo = Inr v \<longleftrightarrow>
     (\<exists>k. lo_kind lo = kind_as_str k \<and> q = kind_queue k \<and>
        ((\<exists>w. requires_workshop k \<and> lo_workshop_id lo = Some w \<and> \<not> is_nil w \<and> v = ValidatedWorkshop k w) \<or>
         (\<not> requires_workshop k \<and> lo_workshop_id lo = None \<and> v = ValidatedFleet k)))"
  by (auto simp: validate_operation_def result_simps kind_text.parse_iff ex_scope)

lemma validate_operation_Inl: "validate_operation q lo = Inl e \<Longrightarrow> e = ContractDrift"
  by (auto simp: validate_operation_def result_simps ex_scope)

text \<open>
  C34. Scope safety. A handler is only ever run on an operation that was leased from the queue of
  its kind, and with exactly the workshop of the row when its kind is a workshop kind and with no
  workshop at all when it is a fleet kind; every other operation fails with contract drift, which
  is not retried and runs no compensation.
\<close>

theorem handler_scope_sound:
  "case validate_operation q lo of
     Inr (ValidatedWorkshop k w) \<Rightarrow>
       lo_kind lo = kind_as_str k \<and> q = kind_queue k \<and> requires_workshop k \<and>
       lo_workshop_id lo = Some w \<and> \<not> is_nil w
   | Inr (ValidatedFleet k) \<Rightarrow>
       lo_kind lo = kind_as_str k \<and> q = kind_queue k \<and> \<not> requires_workshop k \<and>
       lo_workshop_id lo = None
   | Inl e \<Rightarrow> operation_work mk q h rc lo = (None, Inl ContractDrift) \<and>
       reported_state lo (Inl ContractDrift) = DeadLetter"
proof (cases "validate_operation q lo")
  case (Inl e)
  with validate_operation_Inl [OF Inl] show ?thesis
    by (simp add: operation_work_def Let_def compensation_of_def reported_state_def)
next
  case (Inr v)
  then obtain k where "lo_kind lo = kind_as_str k" "q = kind_queue k"
    "(\<exists>w. requires_workshop k \<and> lo_workshop_id lo = Some w \<and> \<not> is_nil w \<and> v = ValidatedWorkshop k w) \<or>
     (\<not> requires_workshop k \<and> lo_workshop_id lo = None \<and> v = ValidatedFleet k)"
    by (auto simp: validate_operation_Inr)
  with Inr show ?thesis by auto
qed

text \<open>The state reported for a result, case by case.\<close>

lemma reported_DeadLetter:
  "reported_state lo result = DeadLetter \<longleftrightarrow>
     (\<exists>e. result = Inl e \<and> e \<noteq> UnknownOutcome \<and> (\<not> retryable e \<or> lo_attempt lo \<ge> lo_max_attempts lo))"
  by (cases result) (auto simp: reported_state_def)

lemma operation_work_uncalled:
  "operation_work mk q h rc lo = (None, result) \<Longrightarrow> result = and_then (validate_operation q lo) h"
  by (auto simp: operation_work_def Let_def)


definition sample_domain_operation :: "unit leased_operation" where
  "sample_domain_operation =
     \<lparr>lo_id = 1, lo_kind = ''webshop-domain.reconcile'', lo_workshop_id = Some 7,
      lo_target_user_id = None, lo_desired_epoch = None, lo_payload = (), lo_attempt = 12,
      lo_max_attempts = 12, lo_leased_by = ''w1'', lo_reconciling = False, lo_trace_parent = None,
      lo_trace_state = None\<rparr>"


text \<open>
  Release adoption and domain reconciliation never compensate an operation that is still to be
  reconciled: when their compensation has been called and has succeeded, the operation is
  dead-lettered.
\<close>

theorem release_and_domain_compensation_final:
  assumes "operation_work mk q h rc lo = (Some c, result)" and "rc c = None"
    and "lo_kind lo \<in> {''odoo.release.adopt'', ''webshop-domain.reconcile''}"
  shows "reported_state lo result = DeadLetter"
  using assms
  by (auto simp: operation_work_def Let_def compensation_of_def reported_DeadLetter
        release_failure_is_terminal_def domain_failure_is_terminal_def
        split: if_splits elim!: is_err_and.elims)

theorem release_and_domain_compensation_final_witness:
  "reported_state sample_domain_operation (Inl Unavailable) = DeadLetter"
proof -
  have "operation_work (\<lambda>_. None) ''tenant-reconciliation'' (\<lambda>_. Inl Unavailable) (\<lambda>_. None)
      sample_domain_operation = (Some (DomainsFailed 7), Inl Unavailable)"
    by code_simp
  from release_and_domain_compensation_final [OF this] show ?thesis
    by (simp add: sample_domain_operation_def)
qed

text \<open>
  C39. The other four kinds do compensate an operation that is still to be reconciled: when the
  last allowed attempt of a lifecycle operation ends with an unknown outcome, the loop marks the
  workshop's resources as failed and then reports the operation as awaiting reconciliation, so that
  it is leased and run again.
\<close>

theorem lifecycle_unknown_outcome_compensated:
  assumes "validate_operation q lo = Inr v" and "lo_kind lo = ''tenant.lifecycle''"
    and "h v = Inl UnknownOutcome" and "lo_attempt lo \<ge> lo_max_attempts lo"
    and "\<And>w. rc (LifecycleFailed w) = None"
  shows "\<exists>w. operation_work mk q h rc lo = (Some (LifecycleFailed w), Inl UnknownOutcome) \<and>
           reported_state lo (Inl UnknownOutcome) = AwaitingReconciliation"
proof -
  obtain w where w: "lo_workshop_id lo = Some w"
  proof -
    obtain k where k: "lo_kind lo = kind_as_str k" "requires_workshop k \<longrightarrow> lo_workshop_id lo \<noteq> None"
      using assms(1) by (auto simp: validate_operation_Inr)
    then have "requires_workshop k" using assms(2) by (cases k) (auto simp: requires_workshop_def)
    with k that show ?thesis by auto
  qed
  then show ?thesis
    using assms by (simp add: operation_work_def Let_def compensation_of_def reported_state_def)
qed

theorem lifecycle_unknown_outcome_compensated_witness:
  "\<exists>w. operation_work (\<lambda>_. None) ''tenant-lifecycle'' (\<lambda>_. Inl UnknownOutcome) (\<lambda>_. None)
      (sample_domain_operation\<lparr>lo_kind := ''tenant.lifecycle''\<rparr>)
    = (Some (LifecycleFailed w), Inl UnknownOutcome)"
proof -
  have "validate_operation ''tenant-lifecycle'' (sample_domain_operation\<lparr>lo_kind := ''tenant.lifecycle''\<rparr>)
      = Inr (ValidatedWorkshop TenantLifecycle 7)"
    by code_simp
  from lifecycle_unknown_outcome_compensated
    [OF this, where h = "\<lambda>_. Inl UnknownOutcome" and rc = "\<lambda>_. None" and mk = "\<lambda>_. None"]
  show ?thesis by (simp add: sample_domain_operation_def)
qed

text \<open>
  The guard returns the handler's result only if every renewal before the end of the handler
  reported a held lease.
\<close>

lemma guard_completed:
  "guard_operation_lease polls = Some (Inr (Completed result)) \<longleftrightarrow>
     (\<exists>before r after. polls = before @ (Some result, r) # after \<and> set before \<subseteq> {(None, Inr True)})"
proof
  assume "guard_operation_lease polls = Some (Inr (Completed result))"
  then show "\<exists>before r after. polls = before @ (Some result, r) # after \<and> set before \<subseteq> {(None, Inr True)}"
  proof (induction polls rule: guard_operation_lease.induct)
    case (2 x r polls)
    then show ?case by (intro exI [of _ "[]"] exI [of _ r] exI [of _ polls]) simp
  next
    case (3 renewed polls)
    then have "renewed = Inr True" by (auto split: sum.splits bool.splits)
    moreover from this 3 have "guard_operation_lease polls = Some (Inr (Completed result))" by simp
    ultimately obtain before r after where "polls = before @ (Some result, r) # after"
        and "set before \<subseteq> {(None, Inr True)}"
      using 3 by blast
    with \<open>renewed = Inr True\<close> show ?case
      by (intro exI [of _ "(None, Inr True) # before"] exI [of _ r] exI [of _ after]) simp
  qed simp
next
  have "guard_operation_lease (before @ (Some result, r) # after) = Some (Inr (Completed result))"
    if "set before \<subseteq> {(None, Inr True)}" for before r after
    using that by (induction before) auto
  then show "guard_operation_lease polls = Some (Inr (Completed result))"
    if "\<exists>before r after. polls = before @ (Some result, r) # after \<and> set before \<subseteq> {(None, Inr True)}"
    using that by blast
qed

end
