(* ===== verification/Json.thy ===== *)
theory Json
  imports Rust_Base
begin

text \<open>
  \<open>serde_json::Value\<close> as the sources use it. An object is the list of its members in key order,
  which is how the library's map iterates; \<open>get\<close>, \<open>as_str\<close> and the other accessors return
  \<^const>\<open>None\<close> on a value of another shape.
\<close>

text \<open>A number is a \<open>u64\<close>, a negative \<open>i64\<close>, or the bits of a finite \<open>f64\<close>.\<close>

datatype jnumber = PosInt "64 word" | NegInt i64 | JFloat "64 word"

datatype json =
    JNull
  | JBool bool
  | JNumber jnumber
  | JString str
  | JArray "json list"
  | JObject "(str \<times> json) list"

fun json_get :: "str \<Rightarrow> json \<Rightarrow> json option" where
  "json_get k (JObject ms) = map_of ms k"
| "json_get k _ = None"

fun json_as_str :: "json \<Rightarrow> str option" where
  "json_as_str (JString s) = Some s"
| "json_as_str _ = None"

fun json_as_bool :: "json \<Rightarrow> bool option" where
  "json_as_bool (JBool b) = Some b"
| "json_as_bool _ = None"

fun json_as_array :: "json \<Rightarrow> json list option" where
  "json_as_array (JArray xs) = Some xs"
| "json_as_array _ = None"

fun json_as_object :: "json \<Rightarrow> (str \<times> json) list option" where
  "json_as_object (JObject ms) = Some ms"
| "json_as_object _ = None"

fun json_as_u64 :: "json \<Rightarrow> 64 word option" where
  "json_as_u64 (JNumber (PosInt n)) = Some n"
| "json_as_u64 _ = None"

text \<open>\<open>as_i64\<close>: an unsigned number qualifies when it does not exceed \<open>i64::MAX\<close>.\<close>

fun json_as_i64 :: "json \<Rightarrow> i64 option" where
  "json_as_i64 (JNumber (PosInt n)) = (if uint n < 2 ^ 63 then Some n else None)"
| "json_as_i64 (JNumber (NegInt n)) = Some n"
| "json_as_i64 _ = None"

text \<open>A string member: \<open>value.get(key).and_then(Value::as_str)\<close>.\<close>

definition json_get_str :: "str \<Rightarrow> json \<Rightarrow> str option" where
  "json_get_str k v = Option.bind (json_get k v) json_as_str"

lemma json_as_str_Some [simp]: "json_as_str v = Some s \<longleftrightarrow> v = JString s"
  by (cases v) auto

lemma json_as_object_Some [simp]: "json_as_object v = Some ms \<longleftrightarrow> v = JObject ms"
  by (cases v) auto

lemma json_as_array_Some [simp]: "json_as_array v = Some xs \<longleftrightarrow> v = JArray xs"
  by (cases v) auto

lemma json_as_bool_Some [simp]: "json_as_bool v = Some b \<longleftrightarrow> v = JBool b"
  by (cases v) auto

text \<open>
  The values the library can build: the keys of every object are strictly ascending, as in the
  ordered map that represents it.
\<close>

fun json_wf :: "json \<Rightarrow> bool" where
  "json_wf (JArray xs) = (\<forall>x \<in> set xs. json_wf x)"
| "json_wf (JObject ms) = (sorted_wrt (<) (map fst ms) \<and> (\<forall>v \<in> snd ` set ms. json_wf v))"
| "json_wf _ = True"

text \<open>An object with the right number of members that has all expected keys has exactly those.\<close>

lemma object_keys_exact:
  fixes ms :: "(str \<times> json) list"
  assumes "sorted_wrt (<) (map fst ms)" and "sorted_wrt (<) ks" and "set ks \<subseteq> fst ` set ms"
    and "length ms = length ks"
  shows "map fst ms = ks"
proof -
  have "distinct ks" and "distinct (map fst ms)"
    using assms(1,2) by (simp_all add: strict_sorted_iff)
  then have "card (set ks) = card (set (map fst ms))"
    using assms(4) by (metis distinct_card length_map)
  with assms(3) have "set ks = set (map fst ms)"
    by (intro card_subset_eq) auto
  with assms(1,2) show ?thesis by (metis strict_sorted_equal)
qed

end
