(* ===== verification/Commands.thy ===== *)
theory Commands
  imports Json Operation_Queue
begin

text \<open>
  The command ledger of \<open>src/command.rs\<close> on \<open>control.commands\<close>: idempotent admission of API
  commands and their single completion, and the retry handler of \<open>src/api.rs\<close> as a client of the
  ledger. Canonicalisation (\<open>serde_jcs\<close>) and hashing (\<open>sha2\<close>) are the parameters \<open>jcs\<close> and
  \<open>sha256\<close>; \<open>jcs\<close> gives None where the library reports an error, on which the code panics.
\<close>

section \<open>Rows and results\<close>

record new_command =
  nc_actor_user_id :: uuid
  nc_scope :: str
  nc_command_kind :: str
  nc_idempotency_key :: str
  nc_semantic_request :: json
  nc_expected_version :: "i64 option"

datatype command_admission =
    NewCommand uuid
  | Replay uuid "uuid option" "16 word" "json option" "str option"
  | InProgress uuid "uuid option"

datatype command_error =
    InvalidIdempotencyKey
  | PayloadMismatch
  | Database db_error
  | Panicked

record command_result =
  cr_operation_id :: "uuid option"
  cr_response_status :: "16 word"
  cr_response_body :: "json option"
  cr_result_ref :: "str option"

datatype command_state = CommandAdmitted | CommandCompleted

record command_row =
  cmd_id :: uuid
  cmd_actor_user_id :: uuid
  cmd_scope :: str
  cmd_command_kind :: str
  cmd_idempotency_key :: str
  cmd_request_digest :: str
  cmd_expected_version :: "i64 option"
  cmd_state :: command_state
  cmd_operation_id :: "uuid option"
  cmd_response_status :: "int option"
  cmd_response_body :: "json option"
  cmd_result_ref :: "str option"
  cmd_created_at :: int
  cmd_completed_at :: "int option"

definition idempotency_byte :: "char \<Rightarrow> bool" where
  "idempotency_byte c \<longleftrightarrow> is_ascii_alphanumeric c \<or> c \<in> set ''._:/-''"

definition valid_idempotency_key :: "str \<Rightarrow> bool" where
  "valid_idempotency_key s \<longleftrightarrow> 1 \<le> length s \<and> length s \<le> 255 \<and> list_all idempotency_byte s"

text \<open>The \<open>CHECK\<close> constraints of \<open>control.commands\<close>.\<close>

definition commands_check :: "command_row \<Rightarrow> bool" where
  "commands_check r \<longleftrightarrow>
     (cmd_state r = CommandCompleted) = (cmd_completed_at r \<noteq> None) \<and>
     (cmd_state r \<noteq> CommandCompleted \<or> cmd_response_status r \<noteq> None) \<and>
     (cmd_response_body r = None \<or> cmd_result_ref r = None) \<and>
     \<not> btrim_empty (cmd_command_kind r) \<and> char_count (cmd_command_kind r) \<le> 100 \<and>
     case_option True (\<lambda>v. 0 < sint v) (cmd_expected_version r) \<and>
     1 \<le> char_count (cmd_idempotency_key r) \<and> char_count (cmd_idempotency_key r) \<le> 255 \<and>
     list_all idempotency_byte (cmd_idempotency_key r) \<and>
     length (cmd_request_digest r) = 32 \<and>
     case_option True (\<lambda>s. 100 \<le> s \<and> s \<le> 599) (cmd_response_status r) \<and>
     \<not> btrim_empty (cmd_scope r) \<and> char_count (cmd_scope r) \<le> 200"


section \<open>Ledger operations\<close>

definition request_digest :: "(json \<Rightarrow> str option) \<Rightarrow> (str \<Rightarrow> str) \<Rightarrow> json \<Rightarrow> command_error + str" where
  "request_digest jcs sha256 v = and_then (ok_or (jcs v) Panicked) (\<lambda>canonical. Inr (sha256 canonical))"

definition cmd_key :: "command_row \<Rightarrow> uuid \<times> str \<times> str \<times> str" where
  "cmd_key r = (cmd_actor_user_id r, cmd_scope r, cmd_command_kind r, cmd_idempotency_key r)"

definition nc_key :: "new_command \<Rightarrow> uuid \<times> str \<times> str \<times> str" where
  "nc_key c = (nc_actor_user_id c, nc_scope c, nc_command_kind c, nc_idempotency_key c)"

definition admitted_row :: "int \<Rightarrow> uuid \<Rightarrow> str \<Rightarrow> new_command \<Rightarrow> command_row" where
  "admitted_row now new_id digest c =
     \<lparr>cmd_id = new_id, cmd_actor_user_id = nc_actor_user_id c, cmd_scope = nc_scope c,
      cmd_command_kind = nc_command_kind c, cmd_idempotency_key = nc_idempotency_key c,
      cmd_request_digest = digest, cmd_expected_version = nc_expected_version c,
      cmd_state = CommandAdmitted, cmd_operation_id = None, cmd_response_status = None,
      cmd_response_body = None, cmd_result_ref = None, cmd_created_at = now,
      cmd_completed_at = None\<rparr>"

text \<open>
  The insert with \<open>on conflict do nothing\<close>: whether a row was inserted, and the table. The
  predicate \<open>referenced\<close> stands for the foreign key to \<open>control.users\<close>.
\<close>

definition insert_command ::
  "(command_row \<Rightarrow> bool) \<Rightarrow> command_row \<Rightarrow> command_row list \<Rightarrow> command_error + bool \<times> command_row list" where
  "insert_command referenced row t =
     and_then (ensure (commands_check row) (Database CheckViolation)) (\<lambda>_.
       if \<exists>r \<in> set t. cmd_key r = cmd_key row then Inr (False, t)
       else if \<exists>r \<in> set t. cmd_id r = cmd_id row then Inl (Database UniqueViolation)
       else if \<not> referenced row then Inl (Database OtherConstraint)
       else Inr (True, t @ [row]))"

definition admission_of ::
  "bool \<Rightarrow> str \<Rightarrow> i64 option \<Rightarrow> command_row \<Rightarrow> command_error + command_admission" where
  "admission_of inserted digest expected r =
     (if cmd_request_digest r \<noteq> digest \<or> cmd_expected_version r \<noteq> expected then Inl PayloadMismatch
      else if inserted then Inr (NewCommand (cmd_id r))
      else if cmd_state r = CommandCompleted then
        (let status = (case cmd_response_status r of None \<Rightarrow> 500 | Some s \<Rightarrow> s) in
           Inr (Replay (cmd_id r) (cmd_operation_id r)
                  (if 0 \<le> status \<and> status < 65536 then word_of_int status else 500)
                  (cmd_response_body r) (cmd_result_ref r)))
      else Inr (InProgress (cmd_id r) (cmd_operation_id r)))"

definition admit_command ::
  "(json \<Rightarrow> str option) \<Rightarrow> (str \<Rightarrow> str) \<Rightarrow> (command_row \<Rightarrow> bool) \<Rightarrow> int \<Rightarrow> uuid \<Rightarrow> new_command
     \<Rightarrow> command_row list \<Rightarrow> command_error + command_admission \<times> command_row list" where
  "admit_command jcs sha256 referenced now new_id c t =
     and_then (ensure (valid_idempotency_key (nc_idempotency_key c)) InvalidIdempotencyKey) (\<lambda>_.
     and_then (request_digest jcs sha256 (nc_semantic_request c)) (\<lambda>digest.
     and_then (insert_command referenced (admitted_row now new_id digest c) t) (\<lambda>(inserted, t').
     and_then (ok_or (find (\<lambda>r. cmd_key r = nc_key c) t') (Database RowNotFound)) (\<lambda>r.
     and_then (admission_of inserted digest (nc_expected_version c) r) (\<lambda>admission.
       Inr (admission, t'))))))"

definition complete_row :: "int \<Rightarrow> command_result \<Rightarrow> command_row \<Rightarrow> command_row" where
  "complete_row now res r =
     r\<lparr>cmd_state := CommandCompleted, cmd_operation_id := cr_operation_id res,
       cmd_response_status := Some (uint (cr_response_status res)),
       cmd_response_body := cr_response_body res, cmd_result_ref := cr_result_ref res,
       cmd_completed_at := Some now\<rparr>"

definition complete_command ::
  "(uuid option \<Rightarrow> bool) \<Rightarrow> int \<Rightarrow> uuid \<Rightarrow> command_result \<Rightarrow> command_row list
     \<Rightarrow> command_error + command_row list" where
  "complete_command referenced now i res t =
     and_then
       (map_err Database
         (checked_update commands_check (\<lambda>r. cmd_id r = i \<and> cmd_state r = CommandAdmitted)
            (complete_row now res) t))
       (\<lambda>(changed, t').
          if changed \<noteq> 0 \<and> \<not> referenced (cr_operation_id res) then Inl (Database OtherConstraint)
          else if changed \<noteq> 1 then Inl (Database RowNotFound)
          else Inr t')"


section \<open>A client: retrying a dead-letter operation\<close>

datatype api_error =
    ApiConflict str
  | ApiValidation str
  | ApiDatabase db_error
  | ApiPanic

fun command_error_of :: "command_error \<Rightarrow> api_error" where
  "command_error_of InvalidIdempotencyKey = ApiValidation ''Idempotency-Key contains invalid characters''"
| "command_error_of PayloadMismatch = ApiConflict ''Idempotency-Key was already used for another request''"
| "command_error_of (Database e) = ApiDatabase e"
| "command_error_of Panicked = ApiPanic"

definition non_operator_can_retry_operation :: "workshop_role option \<Rightarrow> str \<Rightarrow> bool" where
  "non_operator_can_retry_operation role kind =
     (case role of
        None \<Rightarrow> False
      | Some r \<Rightarrow> if kind = ''tenant.lifecycle'' then can_manage_database r else can_manage_members r)"

definition retry_command :: "uuid \<Rightarrow> str \<Rightarrow> uuid option \<Rightarrow> uuid \<Rightarrow> new_command" where
  "retry_command who key workshop i =
     \<lparr>nc_actor_user_id = who,
      nc_scope = (case workshop of
                    None \<Rightarrow> ''platform:operations''
                  | Some w \<Rightarrow> ''workshop:'' @ uuid_hyphenated w @ '':operations''),
      nc_command_kind = ''operation.retry'', nc_idempotency_key = key,
      nc_semantic_request = JObject [(''operation_id'', JString (uuid_hyphenated i))],
      nc_expected_version = None\<rparr>"

definition retry_response :: "uuid \<Rightarrow> json" where
  "retry_response i = JObject [(''id'', JString (uuid_hyphenated i)), (''state'', JString ''pending'')]"

definition retry_result :: "uuid \<Rightarrow> command_result" where
  "retry_result i =
     \<lparr>cr_operation_id = Some i, cr_response_status = 202, cr_response_body = Some (retry_response i),
      cr_result_ref = Some (uuid_hyphenated i)\<rparr>"

text \<open>
  The transaction of \<open>retry_operation\<close>, from the admission of its command to the answer. An error
  rolls the transaction back. \<open>from_u16\<close> is \<open>StatusCode::from_u16\<close>, \<open>audited\<close> the result of the
  audit insert, \<open>users\<close> and \<open>operations\<close> the foreign keys of the ledger.
\<close>

definition retry_operation ::
  "(json \<Rightarrow> str option) \<Rightarrow> (str \<Rightarrow> str) \<Rightarrow> (16 word \<Rightarrow> 16 word option) \<Rightarrow> (command_row \<Rightarrow> bool)
     \<Rightarrow> (uuid option \<Rightarrow> bool) \<Rightarrow> (api_error + unit) \<Rightarrow> int \<Rightarrow> uuid \<Rightarrow> uuid \<Rightarrow> str \<Rightarrow> uuid option \<Rightarrow> uuid
     \<Rightarrow> command_row list \<times> 'j operation_row list
     \<Rightarrow> api_error + (16 word \<times> json) \<times> command_row list \<times> 'j operation_row list" where
  "retry_operation jcs sha256 from_u16 users operations audited now new_id who key workshop i s =
     (let (commands, ops) = s in
      and_then (map_err command_error_of
        (admit_command jcs sha256 users now new_id (retry_command who key workshop i) commands))
        (\<lambda>(admission, commands').
         case admission of
           Replay _ _ status body _ \<Rightarrow>
             Inr ((case from_u16 status of None \<Rightarrow> 202 | Some c \<Rightarrow> c,
                   case body of None \<Rightarrow> JObject [(''replayed'', JBool True)] | Some b \<Rightarrow> b),
                  commands', ops)
         | InProgress command_id _ \<Rightarrow>
             Inr ((202, JObject [(''command_id'', JString (uuid_hyphenated command_id)),
                                 (''in_progress'', JBool True)]),
                  commands', ops)
         | NewCommand command_id \<Rightarrow>
             (let (changed, ops') = retry_dead_letter now i ops in
              and_then (ensure changed (ApiConflict ''only dead-letter operations can be retried'')) (\<lambda>_.
              and_then audited (\<lambda>_.
              and_then (map_err command_error_of
                (complete_command operations now command_id (retry_result i) commands')) (\<lambda>commands''.
                Inr ((202, retry_response i), commands'', ops')))))))"


section \<open>Executions of the ledger\<close>

datatype ledger_event =
    AdmitEvent new_command command_admission
  | CompleteEvent uuid command_result

inductive ledger_step ::
  "(json \<Rightarrow> str option) \<Rightarrow> (str \<Rightarrow> str) \<Rightarrow> command_row list \<Rightarrow> ledger_event \<Rightarrow> command_row list \<Rightarrow> bool"
  for jcs :: "json \<Rightarrow> str option" and sha256 :: "str \<Rightarrow> str" where
  step_admit: "admit_command jcs sha256 referenced now new_id c t = Inr (a, t') \<Longrightarrow>
     ledger_step jcs sha256 t (AdmitEvent c a) t'"
| step_complete: "complete_command operations now i res t = Inr t' \<Longrightarrow>
     ledger_step jcs sha256 t (CompleteEvent i res) t'"

definition ledger_ok :: "command_row list \<Rightarrow> bool" where
  "ledger_ok t \<longleftrightarrow>
     distinct (map cmd_id t) \<and> distinct (map cmd_key t) \<and> list_all commands_check t"

text \<open>What a row keeps for ever: its identity, and its result once it is completed.\<close>

definition cmd_identity where
  "cmd_identity r = (cmd_id r, cmd_key r, cmd_request_digest r, cmd_expected_version r)"

definition keeps :: "command_row \<Rightarrow> command_row \<Rightarrow> bool" where
  "keeps r s \<longleftrightarrow> cmd_identity s = cmd_identity r \<and> (cmd_state r = CommandCompleted \<longrightarrow> s = r)"

lemma cmd_key_admitted_row [simp]: "cmd_key (admitted_row now new_id digest c) = nc_key c"
  by (simp add: cmd_key_def nc_key_def admitted_row_def)

lemma cmd_id_admitted_row [simp]: "cmd_id (admitted_row now new_id digest c) = new_id"
  by (simp add: admitted_row_def)

lemma insert_command_Inr:
  "insert_command referenced row t = Inr (inserted, t') \<Longrightarrow>
     commands_check row \<and>
     (if inserted then t' = t @ [row] \<and> (\<forall>r \<in> set t. cmd_key r \<noteq> cmd_key row \<and> cmd_id r \<noteq> cmd_id row)
      else t' = t \<and> (\<exists>r \<in> set t. cmd_key r = cmd_key row))"
  by (auto simp: insert_command_def result_simps split: if_splits)

lemma admit_command_Inr:
  assumes "admit_command jcs sha256 referenced now new_id c t = Inr (a, t')"
  obtains canonical inserted r where "jcs (nc_semantic_request c) = Some canonical"
    and "insert_command referenced (admitted_row now new_id (sha256 canonical) c) t = Inr (inserted, t')"
    and "find (\<lambda>r. cmd_key r = nc_key c) t' = Some r"
    and "admission_of inserted (sha256 canonical) (nc_expected_version c) r = Inr a"
  using assms by (auto simp: admit_command_def request_digest_def result_simps)

lemma complete_command_Inr:
  assumes "complete_command operations now i res t = Inr t'"
  shows "t' = snd (update_where (\<lambda>r. cmd_id r = i \<and> cmd_state r = CommandAdmitted) (complete_row now res) t)"
    and "\<forall>r \<in> set t. cmd_id r = i \<and> cmd_state r = CommandAdmitted \<longrightarrow> commands_check (complete_row now res r)"
    and "\<exists>r \<in> set t. cmd_id r = i \<and> cmd_state r = CommandAdmitted"
  using assms
  by (auto simp: complete_command_def result_simps update_where_def length_Suc_conv filter_eq_Cons_iff
        split: if_splits)

lemma cmd_identity_complete_row [simp]: "cmd_identity (complete_row now res r) = cmd_identity r"
  by (simp add: cmd_identity_def cmd_key_def complete_row_def)

lemma ledger_step_ok:
  assumes "ledger_step jcs sha256 t e t'" and "ledger_ok t"
  shows "ledger_ok t'"
  using assms
proof (cases rule: ledger_step.cases)
  case (step_admit referenced now new_id c a)
  then obtain canonical inserted where
    "insert_command referenced (admitted_row now new_id (sha256 canonical) c) t = Inr (inserted, t')"
    by (auto elim: admit_command_Inr)
  from insert_command_Inr [OF this] assms(2) show ?thesis
    by (auto simp: ledger_ok_def split: if_splits)
next
  case (step_complete operations now i res)
  note c = complete_command_Inr [OF step_complete(2)]
  have "map k t' = map k t" if "\<And>r. k (complete_row now res r) = k r" for k :: "command_row \<Rightarrow> 'k"
    unfolding c(1) using that by (simp add: map_update_where)
  from this [of cmd_id] this [of cmd_key] have "map cmd_id t' = map cmd_id t" "map cmd_key t' = map cmd_key t"
    by (simp_all add: complete_row_def cmd_key_def)
  then show ?thesis
    using assms(2) c(2) unfolding c(1)
    by (auto simp: ledger_ok_def list_all_iff set_update_where)
qed

interpretation ledger_inv: step_invariant "\<lambda>t. t = []" "ledger_step jcs sha256" ledger_ok
  for jcs sha256
  by unfold_locales (simp add: ledger_ok_def, rule ledger_step_ok)

lemma ledger_step_keeps:
  assumes "ledger_step jcs sha256 t e t'" and "r \<in> set t"
  shows "\<exists>s \<in> set t'. keeps r s"
  using assms(1)
proof (cases rule: ledger_step.cases)
  case (step_admit referenced now new_id c a)
  then obtain canonical inserted where
    "insert_command referenced (admitted_row now new_id (sha256 canonical) c) t = Inr (inserted, t')"
    by (auto elim: admit_command_Inr)
  from insert_command_Inr [OF this] assms(2) show ?thesis
    by (auto simp: keeps_def split: if_splits)
next
  case (step_complete operations now i res)
  let ?s = "if cmd_id r = i \<and> cmd_state r = CommandAdmitted then complete_row now res r else r"
  have "?s \<in> set t'"
    unfolding complete_command_Inr(1) [OF step_complete(2)] using assms(2)
    by (auto simp: set_update_where)
  moreover have "keeps r ?s" by (auto simp: keeps_def)
  ultimately show ?thesis by blast
qed

lemma exec_keeps:
  assumes "exec (ledger_step jcs sha256) t es t'" and "r \<in> set t"
  shows "\<exists>s \<in> set t'. keeps r s"
  using assms
proof (induction rule: exec.induct)
  case (exec_Nil t)
  then show ?case by (auto simp: keeps_def)
next
  case (exec_snoc t es u e v)
  then obtain s s' where "s \<in> set u" "keeps r s" "s' \<in> set v" "keeps s s'"
    using ledger_step_keeps by metis
  then show ?case by (auto simp: keeps_def)
qed

text \<open>With the row of the key known, admission is the comparison with that row.\<close>

lemma admit_command_existing:
  assumes t: "ledger_ok t" and r: "r \<in> set t" "cmd_key r = nc_key c"
    and valid: "valid_idempotency_key (nc_idempotency_key c)" and jcs: "jcs (nc_semantic_request c) = Some canonical"
    and check: "commands_check (admitted_row now new_id (sha256 canonical) c)"
  shows "admit_command jcs sha256 referenced now new_id c t =
    and_then (admission_of False (sha256 canonical) (nc_expected_version c) r) (\<lambda>a. Inr (a, t))"
proof -
  have "find (\<lambda>r. cmd_key r = nc_key c) t = Some r"
    using t r distinct_key_unique [of cmd_key t]
    by (cases "find (\<lambda>r. cmd_key r = nc_key c) t")
       (auto simp: ledger_ok_def find_None_iff find_Some_iff)
  moreover have "insert_command referenced (admitted_row now new_id (sha256 canonical) c) t = Inr (False, t)"
    using r check by (auto simp: insert_command_def ensure_def)
  ultimately show ?thesis
    using valid jcs by (simp add: admit_command_def request_digest_def ensure_def)
qed


section \<open>Properties\<close>

definition sample_command :: new_command where
  "sample_command = \<lparr>nc_actor_user_id = 5, nc_scope = ''workshop:7'', nc_command_kind = ''member.invite'',
     nc_idempotency_key = ''invite:1'', nc_semantic_request = JObject [], nc_expected_version = None\<rparr>"

definition sample_jcs :: "json \<Rightarrow> str option" where
  "sample_jcs v = Some ''{}''"

definition sample_sha256 :: "str \<Rightarrow> str" where
  "sample_sha256 s = replicate 32 CHR ''d''"

definition sample_result :: command_result where
  "sample_result = \<lparr>cr_operation_id = None, cr_response_status = 201, cr_response_body = Some JNull,
     cr_result_ref = None\<rparr>"

definition sample_admitted :: command_row where
  "sample_admitted = admitted_row 0 1 (sample_sha256 ''{}'') sample_command"

lemma sample_admit:
  "admit_command sample_jcs sample_sha256 (\<lambda>_. True) 0 1 sample_command [] = Inr (NewCommand 1, [sample_admitted])"
  by code_simp

lemma sample_complete:
  "complete_command (\<lambda>_. True) 1 1 sample_result [sample_admitted] = Inr [complete_row 1 sample_result sample_admitted]"
  by code_simp

lemma admit_New_row:
  assumes "admit_command jcs sha256 referenced now new_id c t = Inr (NewCommand i, t')"
  shows "\<exists>canonical. jcs (nc_semantic_request c) = Some canonical \<and> i = new_id \<and>
    admitted_row now new_id (sha256 canonical) c \<in> set t'"
proof -
  from assms obtain canonical inserted r where
      r: "jcs (nc_semantic_request c) = Some canonical"
      "insert_command referenced (admitted_row now new_id (sha256 canonical) c) t = Inr (inserted, t')"
      "find (\<lambda>r. cmd_key r = nc_key c) t' = Some r"
      "admission_of inserted (sha256 canonical) (nc_expected_version c) r = Inr (NewCommand i)"
    by (rule admit_command_Inr)
  from r(4) have inserted and "i = cmd_id r"
    by (auto simp: admission_of_def Let_def split: if_splits)
  moreover from this insert_command_Inr [OF r(2)] r(3)
  have "r = admitted_row now new_id (sha256 canonical) c" "r \<in> set t'"
    by (auto simp: find_Some_iff nth_append split: if_splits dest: nth_mem)
  ultimately show ?thesis using r(1) by auto
qed

text \<open>
  C21. A command is admitted as new at most once. After an idempotency key has been admitted, and
  whatever the ledger does afterwards, another admission under the same actor, scope, kind and key
  changes nothing and answers with the first command, as in progress or as a replay.
\<close>

theorem command_admitted_once:
  assumes first: "admit_command jcs sha256 referenced now id1 c t0 = Inr (NewCommand i, t1)"
    and run: "exec (ledger_step jcs sha256) t1 es t"
    and again: "admit_command jcs sha256 referenced' now' id2 c' t = Inr (a, t')"
    and key: "nc_key c' = nc_key c" and t0: "ledger_ok t0"
  shows "t' = t \<and> (case a of NewCommand j \<Rightarrow> False | Replay j op st b ref \<Rightarrow> j = i | InProgress j op \<Rightarrow> j = i)"
proof -
  obtain r where r: "r \<in> set t1" "cmd_id r = i" "cmd_key r = nc_key c"
    using admit_New_row [OF first] by force
  with exec_keeps [OF run r(1)] obtain s where s: "s \<in> set t" "cmd_id s = i" "cmd_key s = nc_key c'"
    using key by (auto simp: keeps_def cmd_identity_def)
  from again obtain canonical inserted r' where
      "insert_command referenced' (admitted_row now' id2 (sha256 canonical) c') t = Inr (inserted, t')"
      and r': "find (\<lambda>r. cmd_key r = nc_key c') t' = Some r'"
      and adm: "admission_of inserted (sha256 canonical) (nc_expected_version c') r' = Inr a"
    by (rule admit_command_Inr)
  from insert_command_Inr [OF this(1)] s have t': "\<not> inserted" "t' = t"
    by (auto split: if_splits)
  have "ledger_ok t1" using ledger_step_ok [OF step_admit [OF first] t0] .
  then have "ledger_ok t" using ledger_inv.exec_inv [OF run] by simp
  moreover have "r' \<in> set t" "cmd_key r' = cmd_key s"
    using r' t' s(3) by (auto simp: find_Some_iff)
  ultimately have "r' = s"
    using s(1) by (auto simp: ledger_ok_def dest: distinct_key_unique)
  with adm t' s(2) show ?thesis
    by (auto simp: admission_of_def Let_def split: if_splits)
qed

theorem command_admitted_once_witness:
  "\<exists>a. admit_command sample_jcs sample_sha256 (\<lambda>_. True) 3 2 sample_command [sample_admitted]
       = Inr (a, [sample_admitted]) \<and> a \<noteq> NewCommand 2"
proof -
  have again: "admit_command sample_jcs sample_sha256 (\<lambda>_. True) 3 2 sample_command [sample_admitted]
      = Inr (InProgress 1 None, [sample_admitted])" by code_simp
  have "ledger_ok []" by code_simp
  with command_admitted_once [OF sample_admit exec_Nil again] again show ?thesis by auto
qed

text \<open>
  C22. Faithful replay. Once a command was admitted and completed, every later admission of the same
  request under the same key returns exactly the recorded operation, status, body and reference,
  and one whose digest or expected version differs is refused as a mismatch.
\<close>

theorem command_replay_faithful:
  assumes first: "admit_command jcs sha256 referenced now id1 c t0 = Inr (NewCommand i, t1)"
    and t0: "ledger_ok t0" and run1: "exec (ledger_step jcs sha256) t1 es t2"
    and complete: "complete_command operations now2 i res t2 = Inr t3"
    and run2: "exec (ledger_step jcs sha256) t3 es' t"
    and key: "nc_key c' = nc_key c" and valid: "valid_idempotency_key (nc_idempotency_key c')"
    and jcs: "jcs (nc_semantic_request c) = Some canonical"
    and jcs': "jcs (nc_semantic_request c') = Some canonical'"
    and check: "commands_check (admitted_row now' id2 (sha256 canonical') c')"
  shows "admit_command jcs sha256 referenced' now' id2 c' t =
    (if sha256 canonical' = sha256 canonical \<and> nc_expected_version c' = nc_expected_version c
     then Inr (Replay i (cr_operation_id res) (cr_response_status res) (cr_response_body res)
                 (cr_result_ref res), t)
     else Inl PayloadMismatch)"
proof -
  let ?row = "admitted_row now id1 (sha256 canonical) c"
  from admit_New_row [OF first] jcs have row: "?row \<in> set t1" "i = id1" by auto
  have ok1: "ledger_ok t1" using ledger_step_ok [OF step_admit [OF first] t0] .
  then have ok2: "ledger_ok t2" using ledger_inv.exec_inv [OF run1] by simp
  then have ok3: "ledger_ok t3" using ledger_step_ok [OF step_complete [OF complete]] by blast
  then have ok: "ledger_ok t" using ledger_inv.exec_inv [OF run2] by simp
  obtain r where r: "r \<in> set t2" "cmd_identity r = cmd_identity ?row"
    using exec_keeps [OF run1 row(1)] by (auto simp: keeps_def)
  obtain r' where r': "r' \<in> set t2" "cmd_id r' = i" "cmd_state r' = CommandAdmitted"
    using complete_command_Inr(3) [OF complete] by blast
  have "r' = r"
    using r r' row(2) ok2 by (intro distinct_key_unique [of cmd_id t2]) (auto simp: ledger_ok_def cmd_identity_def)
  then have "complete_row now2 res r \<in> set t3"
    unfolding complete_command_Inr(1) [OF complete] using r(1) r' by (auto simp: set_update_where)
  from exec_keeps [OF run2 this] have s: "complete_row now2 res r \<in> set t"
    by (auto simp: keeps_def complete_row_def)
  have ident: "cmd_identity (complete_row now2 res r) = cmd_identity ?row" using r(2) by simp
  then have "cmd_key (complete_row now2 res r) = nc_key c'"
    using key by (simp add: cmd_identity_def)
  note admit_command_existing [where jcs = jcs and ?sha256.0 = sha256 and now = now' and new_id = id2 and referenced = referenced',
      OF ok s this valid jcs' check]
  also have "uint (cr_response_status res) < 65536"
    using uint_lt2p [of "cr_response_status res"] by simp
  then have "admission_of False (sha256 canonical') (nc_expected_version c') (complete_row now2 res r) =
    (if sha256 canonical' = sha256 canonical \<and> nc_expected_version c' = nc_expected_version c
     then Inr (Replay i (cr_operation_id res) (cr_response_status res) (cr_response_body res) (cr_result_ref res))
     else Inl PayloadMismatch)"
    using ident row(2) by (auto simp: admission_of_def cmd_identity_def complete_row_def admitted_row_def)
  finally show ?thesis by simp
qed

theorem command_replay_faithful_witness:
  "admit_command sample_jcs sample_sha256 (\<lambda>_. True) 9 2 sample_command
      [complete_row 1 sample_result sample_admitted]
    = Inr (Replay 1 None 201 (Some JNull) None, [complete_row 1 sample_result sample_admitted])"
proof -
  have "ledger_ok []" and "valid_idempotency_key (nc_idempotency_key sample_command)"
    and "commands_check (admitted_row 9 2 (sample_sha256 ''{}'') sample_command)"
    by code_simp+
  moreover have "sample_jcs (nc_semantic_request sample_command) = Some ''{}''" by code_simp
  ultimately show ?thesis
    using command_replay_faithful [OF sample_admit _ exec_Nil sample_complete exec_Nil refl]
    by (simp add: sample_result_def)
qed

text \<open>
  A result with both a body and a reference cannot be recorded: the table's constraints allow
  only one of them, so completing a command with both fails whatever the ledger contains.
\<close>

theorem complete_body_and_reference_refused:
  assumes "cr_response_body res \<noteq> None" and "cr_result_ref res \<noteq> None"
  shows "complete_command operations now i res t =
    Inl (Database (if \<exists>r \<in> set t. cmd_id r = i \<and> cmd_state r = CommandAdmitted
                   then CheckViolation else RowNotFound))"
proof -
  have "\<not> commands_check (complete_row now res r)" for r
    using assms by (simp add: commands_check_def complete_row_def)
  then show ?thesis
    by (auto simp: complete_command_def checked_update_def list_all_iff update_where_def filter_empty_conv)
qed

theorem complete_body_and_reference_refused_witness:
  "complete_command (\<lambda>_. True) 1 1 (retry_result 4) [sample_admitted] = Inl (Database CheckViolation)"
proof -
  have "cr_response_body (retry_result 4) \<noteq> None" and "cr_result_ref (retry_result 4) \<noteq> None"
    by (simp_all add: retry_result_def)
  from complete_body_and_reference_refused [OF this, of "\<lambda>_. True" 1 1 "[sample_admitted]"] show ?thesis
    by (simp add: sample_admitted_def admitted_row_def)
qed

lemma retry_result_refused: "\<exists>e. complete_command operations now i (retry_result j) t = Inl (Database e)"
proof -
  have "\<not> commands_check (complete_row now (retry_result j) r)" for r
    by (simp add: commands_check_def complete_row_def retry_result_def)
  then show ?thesis
    by (auto simp: complete_command_def checked_update_def list_all_iff update_where_def filter_empty_conv)
qed

text \<open>
  C38. Consequence for the retry endpoint: it never succeeds on a fresh command. Whenever its
  transaction commits, the operations table is the one it started with, so an operator cannot move
  a dead-letter operation back to pending through it.
\<close>

theorem retry_operation_never_applies:
  assumes "retry_operation jcs sha256 from_u16 users operations audited now new_id who key workshop i (cs, ops)
    = Inr (answer, cs', ops')"
  shows "ops' = ops"
proof -
  obtain a cs1 where a: "admit_command jcs sha256 users now new_id (retry_command who key workshop i) cs
      = Inr (a, cs1)"
    using assms by (auto simp: retry_operation_def result_simps)
  show ?thesis
  proof (cases a)
    case (NewCommand j)
    obtain e where "complete_command operations now j (retry_result i) cs1 = Inl (Database e)"
      using retry_result_refused by blast
    with assms a NewCommand have False
      by (auto simp: retry_operation_def result_simps split: prod.splits)
    then show ?thesis ..
  qed (use assms a in \<open>auto simp: retry_operation_def\<close>)
qed

theorem retry_operation_never_applies_witness:
  "\<exists>answer cs' ops'.
     retry_operation sample_jcs sample_sha256 Some (\<lambda>_. True) (\<lambda>_. True) (Inr ()) 2 9 5 ''k'' None 4
       ([complete_row 1 sample_result (admitted_row 0 1 (sample_sha256 ''{}'') (retry_command 5 ''k'' None 4))],
        [sample_in_flight]) = Inr (answer, cs', ops') \<and> ops' = [sample_in_flight]"
  (is "\<exists>answer cs' ops'. ?run = _ \<and> _")
proof -
  have "is_ok ?run" by code_simp
  then obtain answer cs' ops' where run: "?run = Inr (answer, cs', ops')"
    by (auto simp: is_ok_iff)
  from retry_operation_never_applies [OF run] run show ?thesis by blast
qed

end
