(* ===== verification/Release_Manifest.thy ===== *)
theory Release_Manifest
  imports Json
begin

text \<open>
  \<open>src/release.rs\<close>: the application release manifest and its validation. The records have the
  fields of the source structs; a \<open>BTreeMap\<close> is the list of its entries in key order. RFC 3339
  parsing (\<open>time\<close>), canonical JSON (\<open>serde_jcs\<close>) and SHA-256 in lower-case hexadecimal (\<open>sha2\<close>)
  are the parameters \<open>rfc3339\<close>, \<open>jcs\<close> and \<open>sha256_hex\<close>.
\<close>

section \<open>The manifest\<close>

datatype subject_kind = ImageIndex | ImageManifest
datatype sbom_kind = Observed
datatype qualification_result = Passed
datatype change_class = ClassA | ClassB | ClassC
datatype runtime_compatibility = CompatNone | CompatReadOnly | CompatReadWrite
datatype postcondition =
  RegistryLoad | InstalledVersions | MigrationLedger | RequiredColumns | XmlidOwnership | Health

record platform =
  pf_os :: str
  pf_architecture :: str
  pf_variant :: "str option"

record evidence_object =
  ev_reference :: str
  ev_subject_digest :: str
  ev_sha256_digest :: str

record locked_dependency =
  ld_name :: str
  ld_version :: str

record runtime_evidence =
  re_sbom :: evidence_object
  re_vulnerability_report :: evidence_object
  re_scanner :: str
  re_advisory_snapshot_at :: str
  re_policy_digest :: str
  re_sbom_kind :: sbom_kind
  re_capability_checks_digest :: str

record odoo_runtime_platform =
  rp_platform :: platform
  rp_manifest_digest :: str
  rp_config_digest :: str
  rp_evidence :: runtime_evidence

record odoo_runtime_descriptor =
  rd_official_source_ref :: str
  rd_deployment_ref :: str
  rd_subject_digest :: str
  rd_subject_kind :: subject_kind
  rd_version :: str
  rd_platforms :: "odoo_runtime_platform list"

record qualified_odoo_runtime =
  qr_official_source_ref :: str
  qr_deployment_ref :: str
  qr_subject_digest :: str
  qr_subject_kind :: subject_kind
  qr_platform :: platform
  qr_manifest_digest :: str
  qr_config_digest :: str

record extension_platform =
  ep_platform :: platform
  ep_manifest_digest :: str
  ep_config_digest :: str
  ep_payload_digest :: str
  ep_python_implementation :: str
  ep_python_abi :: str
  ep_python_platform :: str
  ep_dependency_inventory_digest :: str
  ep_lock_file_digest :: str
  ep_qualified_odoo_runtime :: qualified_odoo_runtime
  ep_signature :: evidence_object
  ep_sbom :: evidence_object
  ep_vulnerability_report :: evidence_object

record extension_bundle_descriptor =
  eb_oci_ref :: str
  eb_subject_digest :: str
  eb_subject_kind :: subject_kind
  eb_platforms :: "extension_platform list"

record pair_qualification =
  pq_platform :: platform
  pq_odoo_manifest_digest :: str
  pq_extension_manifest_digest :: str
  pq_payload_digest :: str
  pq_qualification_result :: qualification_result
  pq_qualification_digest :: str

record application_release_manifest =
  m_schema_version :: "32 word"
  m_release_id :: str
  m_source_commit :: str
  m_built_at :: str
  m_odoo_runtime :: odoo_runtime_descriptor
  m_extension_bundle :: extension_bundle_descriptor
  m_pair_qualifications :: "pair_qualification list"
  m_addons :: "(str \<times> str) list"
  m_locked_dependencies :: "locked_dependency list"
  m_upgradeable_from :: "str list"
  m_database_runtime_compatibility :: "(str \<times> runtime_compatibility) list"
  m_bridge_contract :: str
  m_bridge_contract_digest :: str
  m_schema_epoch :: "64 word"
  m_change_class :: change_class
  m_required_postconditions :: "postcondition list"
  m_capability_registry_version :: "32 word"
  m_admission_signature :: evidence_object

text \<open>
  The variants of \<open>ManifestError\<close>; \<open>SerializationPanic\<close> is the panic of the \<open>expect\<close> on the
  canonical serialisation.
\<close>

datatype manifest_error =
    ESchemaVersion | EReleaseId | ESourceCommit | EDigest | EOciReference | ETimestamp
  | EBlankValue | EPlatforms | EQualifiedRuntime | EPairQualification | EVersion
  | ECompatibilitySource | EPostconditions | EClassBCompatibility | SerializationPanic


section \<open>Checks on strings\<close>

definition release_id :: "str \<Rightarrow> bool" where
  "release_id value =
     (case Option.bind (strip_prefix ''odoo-'' value) (rsplit_once (CHR ''-'')) of
        None \<Rightarrow> False
      | Some (date, commit) \<Rightarrow>
          (let parts = split_at (CHR ''.'') date in
             length parts = 3 \<and> length (parts ! 0) = 4 \<and> length (parts ! 1) = 2 \<and>
             length (parts ! 2) = 2 \<and> list_all (list_all is_ascii_digit) parts \<and>
             hex_digest commit 7 64))"

definition require_digest :: "str \<Rightarrow> manifest_error + unit" where
  "require_digest v = ensure (valid_sha256 v) EDigest"

definition require_oci_ref :: "str \<Rightarrow> str \<Rightarrow> manifest_error + unit" where
  "require_oci_ref value digest =
     (let suffix = ''@'' @ digest in
      if starts_with value ''http'' \<or> \<not> ends_with value suffix \<or>
         blank (take (length value - length suffix) value)
      then Inl EOciReference else Inr ())"

definition validate_evidence :: "evidence_object \<Rightarrow> manifest_error + unit" where
  "validate_evidence e =
     and_then (require_digest (ev_subject_digest e)) (\<lambda>_.
     and_then (require_digest (ev_sha256_digest e)) (\<lambda>_.
       require_oci_ref (ev_reference e) (ev_subject_digest e)))"

definition validate_platform :: "platform \<Rightarrow> manifest_error + unit" where
  "validate_platform p =
     (if pf_os p \<noteq> ''linux'' \<or> blank (pf_architecture p) \<or> case_option False blank (pf_variant p)
      then Inl EBlankValue else Inr ())"


section \<open>The qualification digest\<close>

fun subject_kind_json :: "subject_kind \<Rightarrow> json" where
  "subject_kind_json ImageIndex = JString ''image_index''"
| "subject_kind_json ImageManifest = JString ''image_manifest''"

fun qualification_result_json :: "qualification_result \<Rightarrow> json" where
  "qualification_result_json Passed = JString ''passed''"

definition platform_json :: "platform \<Rightarrow> json" where
  "platform_json p =
     JObject ([(''architecture'', JString (pf_architecture p)), (''os'', JString (pf_os p))] @
       (case pf_variant p of None \<Rightarrow> [] | Some v \<Rightarrow> [(''variant'', JString v)]))"

definition qualified_runtime_json :: "qualified_odoo_runtime \<Rightarrow> json" where
  "qualified_runtime_json q = JObject
     [(''config_digest'', JString (qr_config_digest q)),
      (''deployment_ref'', JString (qr_deployment_ref q)),
      (''manifest_digest'', JString (qr_manifest_digest q)),
      (''official_source_ref'', JString (qr_official_source_ref q)),
      (''platform'', platform_json (qr_platform q)),
      (''subject_digest'', JString (qr_subject_digest q)),
      (''subject_kind'', subject_kind_json (qr_subject_kind q))]"

definition qualification_json ::
  "application_release_manifest \<Rightarrow> extension_platform \<Rightarrow> pair_qualification \<Rightarrow> json" where
  "qualification_json m e p = JObject
     [(''addon_versions'', JObject (map (\<lambda>(k, v). (k, JString v)) (m_addons m))),
      (''bridge_contract_digest'', JString (m_bridge_contract_digest m)),
      (''extension'', JObject
         [(''config_digest'', JString (ep_config_digest e)),
          (''manifest_digest'', JString (ep_manifest_digest e)),
          (''subject_digest'', JString (eb_subject_digest (m_extension_bundle m)))]),
      (''payload_digest'', JString (ep_payload_digest e)),
      (''qualification_result'', qualification_result_json (pq_qualification_result p)),
      (''runtime'', qualified_runtime_json (ep_qualified_odoo_runtime e))]"

definition expected_pair_qualification_digest ::
  "(json \<Rightarrow> str option) \<Rightarrow> (str \<Rightarrow> str) \<Rightarrow> application_release_manifest \<Rightarrow> extension_platform
     \<Rightarrow> pair_qualification \<Rightarrow> manifest_error + str" where
  "expected_pair_qualification_digest jcs sha256_hex m e p =
     and_then (ok_or (jcs (qualification_json m e p)) SerializationPanic) (\<lambda>canonical.
       Inr (''sha256:'' @ sha256_hex canonical))"


section \<open>Validation\<close>

text \<open>The body of the loop over the runtime platforms, after the platform was inserted.\<close>

definition validate_runtime_platform ::
  "(str \<Rightarrow> bool) \<Rightarrow> odoo_runtime_platform \<Rightarrow> manifest_error + unit" where
  "validate_runtime_platform rfc3339 r =
     and_then (require_digest (rp_manifest_digest r)) (\<lambda>_.
     and_then (require_digest (rp_config_digest r)) (\<lambda>_.
     and_then (validate_evidence (re_sbom (rp_evidence r))) (\<lambda>_.
     and_then (validate_evidence (re_vulnerability_report (rp_evidence r))) (\<lambda>_.
     and_then (require_digest (re_policy_digest (rp_evidence r))) (\<lambda>_.
     and_then (require_digest (re_capability_checks_digest (rp_evidence r))) (\<lambda>_.
       ensure (\<not> (blank (re_scanner (rp_evidence r)) \<or>
                 \<not> rfc3339 (re_advisory_snapshot_at (rp_evidence r)))) ETimestamp))))))"

definition qualifies ::
  "application_release_manifest \<Rightarrow> odoo_runtime_platform \<Rightarrow> qualified_odoo_runtime \<Rightarrow> bool" where
  "qualifies m r q \<longleftrightarrow>
     qr_official_source_ref q = rd_official_source_ref (m_odoo_runtime m) \<and>
     qr_deployment_ref q = rd_deployment_ref (m_odoo_runtime m) \<and>
     qr_subject_digest q = rd_subject_digest (m_odoo_runtime m) \<and>
     qr_subject_kind q = rd_subject_kind (m_odoo_runtime m) \<and>
     qr_platform q = rp_platform r \<and>
     qr_manifest_digest q = rp_manifest_digest r \<and>
     qr_config_digest q = rp_config_digest r"

text \<open>The body of the loop over the extension platforms, after the platform was inserted.\<close>

definition validate_extension_platform ::
  "(json \<Rightarrow> str option) \<Rightarrow> (str \<Rightarrow> str) \<Rightarrow> application_release_manifest \<Rightarrow> extension_platform
     \<Rightarrow> manifest_error + unit" where
  "validate_extension_platform jcs sha256_hex m e =
     and_then (each require_digest
       [ep_manifest_digest e, ep_config_digest e, ep_payload_digest e,
        ep_dependency_inventory_digest e, ep_lock_file_digest e]) (\<lambda>_.
     and_then (each validate_evidence [ep_signature e, ep_sbom e, ep_vulnerability_report e]) (\<lambda>_.
     and_then (ensure (\<not> (ep_python_implementation e \<noteq> ''cpython'' \<or> blank (ep_python_abi e) \<or>
                         blank (ep_python_platform e))) EBlankValue) (\<lambda>_.
     and_then (ok_or (find (\<lambda>r. rp_platform r = ep_platform e) (rd_platforms (m_odoo_runtime m)))
       EPlatforms) (\<lambda>r.
     and_then (ensure (qualifies m r (ep_qualified_odoo_runtime e)) EQualifiedRuntime) (\<lambda>_.
     and_then (ok_or (find (\<lambda>p. pq_platform p = ep_platform e) (m_pair_qualifications m))
       EPairQualification) (\<lambda>p.
     and_then (ensure (pq_odoo_manifest_digest p = rp_manifest_digest r \<and>
                       pq_extension_manifest_digest p = ep_manifest_digest e \<and>
                       pq_payload_digest p = ep_payload_digest e) EPairQualification) (\<lambda>_.
     and_then (expected_pair_qualification_digest jcs sha256_hex m e p) (\<lambda>expected.
       ensure (pq_qualification_digest p = expected) EPairQualification))))))))"

definition validate ::
  "(str \<Rightarrow> bool) \<Rightarrow> (json \<Rightarrow> str option) \<Rightarrow> (str \<Rightarrow> str) \<Rightarrow> application_release_manifest
     \<Rightarrow> manifest_error + unit" where
  "validate rfc3339 jcs sha256_hex m =
     (let rt = m_odoo_runtime m; eb = m_extension_bundle m in
     and_then (ensure (m_schema_version m = 2) ESchemaVersion) (\<lambda>_.
     and_then (ensure (release_id (m_release_id m)) EReleaseId) (\<lambda>_.
     and_then (ensure (hex_digest (m_source_commit m) 40 64) ESourceCommit) (\<lambda>_.
     and_then (ensure (rfc3339 (m_built_at m)) ETimestamp) (\<lambda>_.
     and_then (ensure (\<not> (m_schema_epoch m = 0 \<or> m_capability_registry_version m = 0)) EVersion) (\<lambda>_.
     and_then (ensure (\<not> (blank (rd_version rt) \<or> blank (m_bridge_contract m) \<or>
         list_ex (\<lambda>(_, v). blank v) (m_addons m) \<or>
         list_ex (\<lambda>d. blank (ld_name d) \<or> blank (ld_version d)) (m_locked_dependencies m))) EBlankValue) (\<lambda>_.
     and_then (ensure (distinct (map ld_name (m_locked_dependencies m))) EBlankValue) (\<lambda>_.
     and_then (each require_digest [rd_subject_digest rt, eb_subject_digest eb, m_bridge_contract_digest m]) (\<lambda>_.
     and_then (require_oci_ref (rd_official_source_ref rt) (rd_subject_digest rt)) (\<lambda>_.
     and_then (require_oci_ref (rd_deployment_ref rt) (rd_subject_digest rt)) (\<lambda>_.
     and_then (require_oci_ref (eb_oci_ref eb) (eb_subject_digest eb)) (\<lambda>_.
     and_then (validate_evidence (m_admission_signature m)) (\<lambda>_.
     and_then (ensure (\<not> (rd_platforms rt = [] \<or> length (rd_platforms rt) \<noteq> length (eb_platforms eb) \<or>
         length (rd_platforms rt) \<noteq> length (m_pair_qualifications m))) EPlatforms) (\<lambda>_.
     and_then (each_fresh (\<lambda>r. validate_platform (rp_platform r)) rp_platform EPlatforms
         (validate_runtime_platform rfc3339) [] (rd_platforms rt)) (\<lambda>runtime_platforms.
     and_then (each_fresh (\<lambda>e. validate_platform (ep_platform e)) ep_platform EPlatforms
         (validate_extension_platform jcs sha256_hex m) [] (eb_platforms eb)) (\<lambda>extension_platforms.
     and_then (ensure (set runtime_platforms = set extension_platforms \<and>
         distinct (map pq_platform (m_pair_qualifications m))) EPlatforms) (\<lambda>_.
     and_then (ensure (distinct (m_upgradeable_from m) \<and> m_release_id m \<notin> set (m_upgradeable_from m) \<and>
         list_all (\<lambda>(r, _). r \<in> set (m_upgradeable_from m)) (m_database_runtime_compatibility m))
         ECompatibilitySource) (\<lambda>_.
     and_then (ensure (distinct (m_required_postconditions m) \<and>
         RegistryLoad \<in> set (m_required_postconditions m) \<and>
         Health \<in> set (m_required_postconditions m)) EPostconditions) (\<lambda>_.
       ensure (\<not> (m_change_class m = ClassB \<and>
           \<not> list_ex (\<lambda>(_, v). v = CompatReadWrite) (m_database_runtime_compatibility m)))
         EClassBCompatibility)))))))))))))))))))"

definition selected_platform ::
  "application_release_manifest
     \<Rightarrow> (odoo_runtime_platform \<times> extension_platform \<times> pair_qualification) option" where
  "selected_platform m =
     (if length (rd_platforms (m_odoo_runtime m)) \<noteq> 1 then None
      else let r = rd_platforms (m_odoo_runtime m) ! 0 in
        Option.bind (find (\<lambda>e. ep_platform e = rp_platform r) (eb_platforms (m_extension_bundle m))) (\<lambda>e.
        Option.bind (find (\<lambda>p. pq_platform p = rp_platform r) (m_pair_qualifications m)) (\<lambda>p.
          Some (r, e, p))))"


section \<open>What a valid manifest is\<close>

text \<open>A reference bound to a digest: a non-blank name, an at sign and the digest, no URL.\<close>

definition bound_reference :: "str \<Rightarrow> str \<Rightarrow> bool" where
  "bound_reference v d \<longleftrightarrow> (\<exists>name. v = name @ ''@'' @ d \<and> \<not> blank name) \<and> \<not> starts_with v ''http''"

definition evidence_ok :: "evidence_object \<Rightarrow> bool" where
  "evidence_ok e \<longleftrightarrow>
     valid_sha256 (ev_subject_digest e) \<and> valid_sha256 (ev_sha256_digest e) \<and>
     bound_reference (ev_reference e) (ev_subject_digest e)"

definition platform_ok :: "platform \<Rightarrow> bool" where
  "platform_ok p \<longleftrightarrow>
     pf_os p = ''linux'' \<and> \<not> blank (pf_architecture p) \<and> (\<forall>v. pf_variant p = Some v \<longrightarrow> \<not> blank v)"

definition runtime_ok :: "(str \<Rightarrow> bool) \<Rightarrow> odoo_runtime_platform \<Rightarrow> bool" where
  "runtime_ok rfc3339 r \<longleftrightarrow>
     platform_ok (rp_platform r) \<and> valid_sha256 (rp_manifest_digest r) \<and> valid_sha256 (rp_config_digest r) \<and>
     evidence_ok (re_sbom (rp_evidence r)) \<and> evidence_ok (re_vulnerability_report (rp_evidence r)) \<and>
     valid_sha256 (re_policy_digest (rp_evidence r)) \<and>
     valid_sha256 (re_capability_checks_digest (rp_evidence r)) \<and>
     \<not> blank (re_scanner (rp_evidence r)) \<and> rfc3339 (re_advisory_snapshot_at (rp_evidence r))"

definition extension_ok :: "extension_platform \<Rightarrow> bool" where
  "extension_ok e \<longleftrightarrow>
     platform_ok (ep_platform e) \<and>
     (\<forall>d \<in> {ep_manifest_digest e, ep_config_digest e, ep_payload_digest e,
            ep_dependency_inventory_digest e, ep_lock_file_digest e}. valid_sha256 d) \<and>
     (\<forall>v \<in> {ep_signature e, ep_sbom e, ep_vulnerability_report e}. evidence_ok v) \<and>
     ep_python_implementation e = ''cpython'' \<and> \<not> blank (ep_python_abi e) \<and> \<not> blank (ep_python_platform e)"

text \<open>A runtime, an extension and a qualification that vouch for one another.\<close>

definition pair_ok ::
  "(json \<Rightarrow> str option) \<Rightarrow> (str \<Rightarrow> str) \<Rightarrow> application_release_manifest \<Rightarrow> odoo_runtime_platform
     \<Rightarrow> extension_platform \<Rightarrow> pair_qualification \<Rightarrow> bool" where
  "pair_ok jcs sha256_hex m r e p \<longleftrightarrow>
     qualifies m r (ep_qualified_odoo_runtime e) \<and>
     pq_odoo_manifest_digest p = rp_manifest_digest r \<and>
     pq_extension_manifest_digest p = ep_manifest_digest e \<and>
     pq_payload_digest p = ep_payload_digest e \<and>
     expected_pair_qualification_digest jcs sha256_hex m e p = Inr (pq_qualification_digest p)"

text \<open>
  The platforms of the three lists are the same, each once in each list, and the entries of one
  platform vouch for one another.
\<close>

definition platforms_ok ::
  "(str \<Rightarrow> bool) \<Rightarrow> (json \<Rightarrow> str option) \<Rightarrow> (str \<Rightarrow> str) \<Rightarrow> application_release_manifest \<Rightarrow> bool" where
  "platforms_ok rfc3339 jcs sha256_hex m \<longleftrightarrow>
     (let rs = rd_platforms (m_odoo_runtime m); es = eb_platforms (m_extension_bundle m);
          ps = m_pair_qualifications m in
      rs \<noteq> [] \<and> distinct (map rp_platform rs) \<and> distinct (map ep_platform es) \<and> distinct (map pq_platform ps) \<and>
      ep_platform ` set es = rp_platform ` set rs \<and> pq_platform ` set ps = rp_platform ` set rs \<and>
      (\<forall>r \<in> set rs. runtime_ok rfc3339 r) \<and> (\<forall>e \<in> set es. extension_ok e) \<and>
      (\<forall>r \<in> set rs. \<forall>e \<in> set es. \<forall>p \<in> set ps.
         ep_platform e = rp_platform r \<longrightarrow> pq_platform p = rp_platform r \<longrightarrow> pair_ok jcs sha256_hex m r e p))"

definition manifest_ok ::
  "(str \<Rightarrow> bool) \<Rightarrow> (json \<Rightarrow> str option) \<Rightarrow> (str \<Rightarrow> str) \<Rightarrow> application_release_manifest \<Rightarrow> bool" where
  "manifest_ok rfc3339 jcs sha256_hex m \<longleftrightarrow>
     m_schema_version m = 2 \<and> release_id (m_release_id m) \<and> hex_digest (m_source_commit m) 40 64 \<and>
     rfc3339 (m_built_at m) \<and> m_schema_epoch m \<noteq> 0 \<and> m_capability_registry_version m \<noteq> 0 \<and>
     \<not> blank (rd_version (m_odoo_runtime m)) \<and> \<not> blank (m_bridge_contract m) \<and>
     (\<forall>(k, v) \<in> set (m_addons m). \<not> blank v) \<and>
     (\<forall>d \<in> set (m_locked_dependencies m). \<not> blank (ld_name d) \<and> \<not> blank (ld_version d)) \<and>
     distinct (map ld_name (m_locked_dependencies m)) \<and>
     valid_sha256 (rd_subject_digest (m_odoo_runtime m)) \<and>
     valid_sha256 (eb_subject_digest (m_extension_bundle m)) \<and>
     valid_sha256 (m_bridge_contract_digest m) \<and>
     bound_reference (rd_official_source_ref (m_odoo_runtime m)) (rd_subject_digest (m_odoo_runtime m)) \<and>
     bound_reference (rd_deployment_ref (m_odoo_runtime m)) (rd_subject_digest (m_odoo_runtime m)) \<and>
     bound_reference (eb_oci_ref (m_extension_bundle m)) (eb_subject_digest (m_extension_bundle m)) \<and>
     evidence_ok (m_admission_signature m) \<and>
     platforms_ok rfc3339 jcs sha256_hex m \<and>
     distinct (m_upgradeable_from m) \<and> m_release_id m \<notin> set (m_upgradeable_from m) \<and>
     fst ` set (m_database_runtime_compatibility m) \<subseteq> set (m_upgradeable_from m) \<and>
     distinct (m_required_postconditions m) \<and> {RegistryLoad, Health} \<subseteq> set (m_required_postconditions m) \<and>
     (m_change_class m = ClassB \<longrightarrow> CompatReadWrite \<in> snd ` set (m_database_runtime_compatibility m))"


section \<open>Lemmas\<close>

lemma require_digest_Inr [result_simps]: "require_digest v = Inr u \<longleftrightarrow> valid_sha256 v"
  by (simp add: require_digest_def ensure_Inr)

lemma require_oci_ref_Inr [result_simps]: "require_oci_ref v d = Inr u \<longleftrightarrow> bound_reference v d"
  by (auto simp: require_oci_ref_def bound_reference_def ends_with_append)

lemma validate_evidence_Inr [result_simps]: "validate_evidence e = Inr u \<longleftrightarrow> evidence_ok e"
  by (simp add: validate_evidence_def evidence_ok_def result_simps)

lemma validate_platform_Inr [result_simps]: "validate_platform p = Inr u \<longleftrightarrow> platform_ok p"
  by (auto simp: validate_platform_def platform_ok_def split: option.splits)

lemma validate_runtime_platform_Inr:
  "validate_platform (rp_platform r) = Inr () \<and> validate_runtime_platform rfc3339 r = Inr ()
     \<longleftrightarrow> runtime_ok rfc3339 r"
  by (auto simp: validate_runtime_platform_def runtime_ok_def result_simps)

lemma validate_extension_platform_Inr:
  "validate_platform (ep_platform e) = Inr () \<and> validate_extension_platform jcs sha256_hex m e = Inr ()
     \<longleftrightarrow> extension_ok e \<and>
        (\<exists>r p. find (\<lambda>r. rp_platform r = ep_platform e) (rd_platforms (m_odoo_runtime m)) = Some r \<and>
           find (\<lambda>p. pq_platform p = ep_platform e) (m_pair_qualifications m) = Some p \<and>
           pair_ok jcs sha256_hex m r e p)"
  by (auto simp: validate_extension_platform_def extension_ok_def pair_ok_def result_simps)

lemma find_key:
  assumes "distinct (map k xs)" and "x \<in> set xs"
  shows "find (\<lambda>y. k y = k x) xs = Some x"
  using assms by (induction xs) auto

lemma find_key_Some: "find (\<lambda>y. k y = a) xs = Some x \<Longrightarrow> x \<in> set xs \<and> k x = a"
  by (auto simp: find_Some_iff)

text \<open>The platform part of the validation, as the loops and set comparisons state it.\<close>

lemma platforms_checked_iff:
  fixes m :: application_release_manifest
  defines "rs \<equiv> rd_platforms (m_odoo_runtime m)" and "es \<equiv> eb_platforms (m_extension_bundle m)"
    and "ps \<equiv> m_pair_qualifications m"
  shows "rs \<noteq> [] \<and> length rs = length es \<and> length rs = length ps \<and>
      (\<forall>r \<in> set rs. runtime_ok rfc3339 r) \<and> distinct (map rp_platform rs) \<and>
      (\<forall>e \<in> set es. extension_ok e \<and>
        (\<exists>r p. find (\<lambda>r. rp_platform r = ep_platform e) rs = Some r \<and>
           find (\<lambda>p. pq_platform p = ep_platform e) ps = Some p \<and> pair_ok jcs sha256_hex m r e p)) \<and>
      distinct (map ep_platform es) \<and> rp_platform ` set rs = ep_platform ` set es \<and>
      distinct (map pq_platform ps)
    \<longleftrightarrow> platforms_ok rfc3339 jcs sha256_hex m" (is "?checked \<longleftrightarrow> _")
proof
  assume c: ?checked
  have "ep_platform ` set es \<subseteq> pq_platform ` set ps"
    using c by (auto dest!: find_key_Some bspec simp: image_iff) metis
  moreover have "card (ep_platform ` set es) = card (pq_platform ` set ps)"
    using c by (metis distinct_card length_map list.set_map)
  ultimately have "pq_platform ` set ps = rp_platform ` set rs"
    using c by (metis List.finite_set card_subset_eq finite_imageI)
  moreover have "pair_ok jcs sha256_hex m r e p"
    if "r \<in> set rs" "e \<in> set es" "p \<in> set ps" "ep_platform e = rp_platform r" "pq_platform p = rp_platform r"
    for r e p
    using c that find_key [of rp_platform rs r] find_key [of pq_platform ps p] by fastforce
  ultimately show "platforms_ok rfc3339 jcs sha256_hex m"
    using c unfolding platforms_ok_def Let_def rs_def [symmetric] es_def [symmetric] ps_def [symmetric]
    by blast
next
  assume "platforms_ok rfc3339 jcs sha256_hex m"
  then have ok: "rs \<noteq> []" "distinct (map rp_platform rs)" "distinct (map ep_platform es)"
      "distinct (map pq_platform ps)" "ep_platform ` set es = rp_platform ` set rs"
      "pq_platform ` set ps = rp_platform ` set rs" "\<forall>r \<in> set rs. runtime_ok rfc3339 r"
      "\<forall>e \<in> set es. extension_ok e"
      and pair: "\<And>r e p. r \<in> set rs \<Longrightarrow> e \<in> set es \<Longrightarrow> p \<in> set ps \<Longrightarrow> ep_platform e = rp_platform r \<Longrightarrow>
        pq_platform p = rp_platform r \<Longrightarrow> pair_ok jcs sha256_hex m r e p"
    unfolding platforms_ok_def Let_def rs_def es_def ps_def by blast+
  have "length rs = length es" and "length rs = length ps"
    using ok by (metis distinct_card length_map list.set_map)+
  moreover have "\<exists>r p. find (\<lambda>r. rp_platform r = ep_platform e) rs = Some r \<and>
      find (\<lambda>p. pq_platform p = ep_platform e) ps = Some p \<and> pair_ok jcs sha256_hex m r e p"
    if e: "e \<in> set es" for e
  proof -
    obtain r where r: "r \<in> set rs" "rp_platform r = ep_platform e" using ok(5) e by (metis imageE imageI)
    obtain p where p: "p \<in> set ps" "pq_platform p = ep_platform e" using ok(5,6) e by (metis imageE imageI)
    show ?thesis
      using find_key [OF ok(2) r(1)] find_key [OF ok(4) p(1)] pair [OF r(1) e p(1)] r p by auto
  qed
  ultimately show ?checked using ok by blast
qed

text \<open>The list and loop conditions of the code in the form the specification uses.\<close>

lemma list_conditions:
  "\<not> list_ex (\<lambda>(_, v). blank v) addons \<longleftrightarrow> (\<forall>(k, v) \<in> set addons. \<not> blank v)"
  "\<not> list_ex (\<lambda>d. blank (ld_name d) \<or> blank (ld_version d)) deps \<longleftrightarrow>
     (\<forall>d \<in> set deps. \<not> blank (ld_name d) \<and> \<not> blank (ld_version d))"
  "list_all (\<lambda>(r, _). r \<in> S) kvs \<longleftrightarrow> fst ` set kvs \<subseteq> S"
  "list_ex (\<lambda>(_, v). v = c) cs \<longleftrightarrow> c \<in> snd ` set cs"
  by (auto simp: list_ex_iff list_all_iff image_iff) force+


section \<open>Properties\<close>

lemma validate_Inr:
  "validate rfc3339 jcs sha256_hex m = Inr () \<longleftrightarrow> manifest_ok rfc3339 jcs sha256_hex m"
  unfolding validate_def manifest_ok_def platforms_checked_iff [symmetric] Let_def
  by (simp only: and_then_Inr ensure_Inr each_Inr each_fresh_Inr require_digest_Inr require_oci_ref_Inr
        validate_evidence_Inr validate_runtime_platform_Inr validate_extension_platform_Inr
        list_conditions de_Morgan_disj de_Morgan_conj not_not list.set ball_simps set_rev set_map set_append
        append_Nil2 Int_empty_right simp_thms ex_simps unit.exhaust)
     auto

text \<open>
  C25. Validation is exactly the declarative notion of a valid manifest: the sequence of early
  returns accepts a manifest if and only if all identities are well formed, every reference is
  bound to its digest, the runtime, extension and qualification lists name the same platforms once
  each, and the three entries of every platform vouch for one another.
\<close>

theorem validate_iff_manifest_ok:
  "validate rfc3339 jcs sha256_hex m = Inr () \<longleftrightarrow> manifest_ok rfc3339 jcs sha256_hex m"
  by (rule validate_Inr)

text \<open>
  C33. A validated single-platform release always has a selection, and it is unambiguous: the only
  runtime, the only extension and the only qualification, for the same platform, with the
  extension qualified against exactly this runtime and the recomputed qualification digest equal to
  the recorded one.
\<close>

theorem selected_platform_vouched:
  assumes valid: "validate rfc3339 jcs sha256_hex m = Inr ()"
    and single: "length (rd_platforms (m_odoo_runtime m)) = 1"
  shows "\<exists>r e p. selected_platform m = Some (r, e, p) \<and>
    rd_platforms (m_odoo_runtime m) = [r] \<and> eb_platforms (m_extension_bundle m) = [e] \<and>
    m_pair_qualifications m = [p] \<and> ep_platform e = rp_platform r \<and> pq_platform p = rp_platform r \<and>
    qualifies m r (ep_qualified_odoo_runtime e) \<and>
    pq_odoo_manifest_digest p = rp_manifest_digest r \<and>
    pq_extension_manifest_digest p = ep_manifest_digest e \<and> pq_payload_digest p = ep_payload_digest e \<and>
    expected_pair_qualification_digest jcs sha256_hex m e p = Inr (pq_qualification_digest p)"
proof -
  have ok: "platforms_ok rfc3339 jcs sha256_hex m"
    using valid unfolding validate_Inr manifest_ok_def by blast
  from ok single have "length (eb_platforms (m_extension_bundle m)) = 1"
      "length (m_pair_qualifications m) = 1"
    unfolding platforms_checked_iff [symmetric] by simp_all
  then obtain r e p where l: "rd_platforms (m_odoo_runtime m) = [r]" "eb_platforms (m_extension_bundle m) = [e]"
      "m_pair_qualifications m = [p]"
    using single by (auto simp: length_Suc_conv)
  with ok have "ep_platform e = rp_platform r" "pq_platform p = rp_platform r" "pair_ok jcs sha256_hex m r e p"
    by (auto simp: platforms_ok_def)
  with l show ?thesis by (auto simp: selected_platform_def pair_ok_def)
qed

definition sample_digest :: str where
  "sample_digest = ''sha256:'' @ replicate 64 (CHR ''a'')"

definition sample_evidence :: evidence_object where
  "sample_evidence = \<lparr>ev_reference = ''registry/e@'' @ sample_digest, ev_subject_digest = sample_digest,
     ev_sha256_digest = sample_digest\<rparr>"

definition sample_platform :: platform where
  "sample_platform = \<lparr>pf_os = ''linux'', pf_architecture = ''amd64'', pf_variant = None\<rparr>"

definition sample_runtime :: odoo_runtime_platform where
  "sample_runtime = \<lparr>rp_platform = sample_platform, rp_manifest_digest = sample_digest,
     rp_config_digest = sample_digest,
     rp_evidence = \<lparr>re_sbom = sample_evidence, re_vulnerability_report = sample_evidence, re_scanner = ''s'',
       re_advisory_snapshot_at = ''2026-01-01T00:00:00Z'', re_policy_digest = sample_digest,
       re_sbom_kind = Observed, re_capability_checks_digest = sample_digest\<rparr>\<rparr>"

definition sample_extension :: extension_platform where
  "sample_extension = \<lparr>ep_platform = sample_platform, ep_manifest_digest = sample_digest,
     ep_config_digest = sample_digest, ep_payload_digest = sample_digest,
     ep_python_implementation = ''cpython'', ep_python_abi = ''cp312'', ep_python_platform = ''linux'',
     ep_dependency_inventory_digest = sample_digest, ep_lock_file_digest = sample_digest,
     ep_qualified_odoo_runtime = \<lparr>qr_official_source_ref = ''odoo@'' @ sample_digest,
       qr_deployment_ref = ''registry/odoo@'' @ sample_digest, qr_subject_digest = sample_digest,
       qr_subject_kind = ImageIndex, qr_platform = sample_platform, qr_manifest_digest = sample_digest,
       qr_config_digest = sample_digest\<rparr>,
     ep_signature = sample_evidence, ep_sbom = sample_evidence,
     ep_vulnerability_report = sample_evidence\<rparr>"

definition sample_manifest :: application_release_manifest where
  "sample_manifest = \<lparr>m_schema_version = 2, m_release_id = ''odoo-2026.01.31-0123abc'',
     m_source_commit = replicate 40 (CHR ''0''), m_built_at = ''2026-01-31T00:00:00Z'',
     m_odoo_runtime = \<lparr>rd_official_source_ref = ''odoo@'' @ sample_digest,
       rd_deployment_ref = ''registry/odoo@'' @ sample_digest, rd_subject_digest = sample_digest,
       rd_subject_kind = ImageIndex, rd_version = ''19.0'', rd_platforms = [sample_runtime]\<rparr>,
     m_extension_bundle = \<lparr>eb_oci_ref = ''registry/x@'' @ sample_digest, eb_subject_digest = sample_digest,
       eb_subject_kind = ImageManifest, eb_platforms = [sample_extension]\<rparr>,
     m_pair_qualifications = [\<lparr>pq_platform = sample_platform, pq_odoo_manifest_digest = sample_digest,
       pq_extension_manifest_digest = sample_digest, pq_payload_digest = sample_digest,
       pq_qualification_result = Passed, pq_qualification_digest = sample_digest\<rparr>],
     m_addons = [(''base'', ''1.0'')], m_locked_dependencies = [\<lparr>ld_name = ''lxml'', ld_version = ''5''\<rparr>],
     m_upgradeable_from = [''odoo-2026.01.01-0123abc''],
     m_database_runtime_compatibility = [(''odoo-2026.01.01-0123abc'', CompatReadWrite)],
     m_bridge_contract = ''v1'', m_bridge_contract_digest = sample_digest, m_schema_epoch = 3,
     m_change_class = ClassB, m_required_postconditions = [RegistryLoad, Health],
     m_capability_registry_version = 1, m_admission_signature = sample_evidence\<rparr>"

theorem selected_platform_vouched_witness:
  "\<exists>r e p. selected_platform sample_manifest = Some (r, e, p) \<and> pq_platform p = rp_platform r"
proof -
  have "validate (\<lambda>_. True) (\<lambda>_. Some []) (\<lambda>_. replicate 64 (CHR ''a'')) sample_manifest = Inr ()"
    by code_simp
  moreover have "length (rd_platforms (m_odoo_runtime sample_manifest)) = 1" by code_simp
  ultimately show ?thesis using selected_platform_vouched by blast
qed

text \<open>
  Release identifiers. The accepted identifiers are exactly those of the form
  \<open>odoo-YYYY.MM.DD-c\<close> with a four, two and two digit date and a commit of 7 to 64 lower-case
  hexadecimal digits.
\<close>

theorem release_id_iff:
  "release_id v \<longleftrightarrow>
     (\<exists>y m d c. v = ''odoo-'' @ y @ ''.'' @ m @ ''.'' @ d @ ''-'' @ c \<and>
        length y = 4 \<and> length m = 2 \<and> length d = 2 \<and> list_all is_ascii_digit (y @ m @ d) \<and>
        hex_digest c 7 64)"
proof
  assume "release_id v"
  then obtain date c where v: "v = ''odoo-'' @ date @ ''-'' @ c"
      and parts: "length (split_at (CHR ''.'') date) = 3" "length (split_at (CHR ''.'') date ! 0) = 4"
        "length (split_at (CHR ''.'') date ! 1) = 2" "length (split_at (CHR ''.'') date ! 2) = 2"
        "list_all (list_all is_ascii_digit) (split_at (CHR ''.'') date)" "hex_digest c 7 64"
    by (auto simp: release_id_def Let_def bind_eq_Some_conv strip_prefix_Some rsplit_once_Some
          split: option.splits prod.splits)
  then obtain y m d where p: "split_at (CHR ''.'') date = [y, m, d]"
    by (auto simp: eval_nat_numeral length_Suc_conv)
  then have "date = y @ ''.'' @ m @ ''.'' @ d"
    using join_split_at [of "CHR ''.''" date] by simp
  with v parts p show "\<exists>y m d c. v = ''odoo-'' @ y @ ''.'' @ m @ ''.'' @ d @ ''-'' @ c \<and>
      length y = 4 \<and> length m = 2 \<and> length d = 2 \<and> list_all is_ascii_digit (y @ m @ d) \<and> hex_digest c 7 64"
    by (intro exI [of _ y] exI [of _ m] exI [of _ d] exI [of _ c]) simp
next
  assume "\<exists>y m d c. v = ''odoo-'' @ y @ ''.'' @ m @ ''.'' @ d @ ''-'' @ c \<and>
      length y = 4 \<and> length m = 2 \<and> length d = 2 \<and> list_all is_ascii_digit (y @ m @ d) \<and> hex_digest c 7 64"
  then obtain y m d c where v: "v = ''odoo-'' @ (y @ ''.'' @ m @ ''.'' @ d) @ CHR ''-'' # c"
      and l: "length y = 4" "length m = 2" "length d = 2" "list_all is_ascii_digit (y @ m @ d)" "hex_digest c 7 64"
    by auto
  have "CHR ''-'' \<notin> set c" using l(5) by (auto simp: hex_digest_def list_all_iff byte_class_defs)
  then have "rsplit_once (CHR ''-'') (drop 5 v) = Some (y @ ''.'' @ m @ ''.'' @ d, c)"
    unfolding rsplit_once_Some v by simp
  moreover have "\<not> is_ascii_digit (CHR ''.'')" by (simp add: byte_class_defs)
  then have "CHR ''.'' \<notin> set p" if "p \<in> set [y, m, d]" for p
    using l(4) that by (auto simp: list_all_iff)
  then have "split_at (CHR ''.'') (join ''.'' [y, m, d]) = [y, m, d]"
    by (intro split_at_join) auto
  ultimately show "release_id v"
    using l v by (simp add: release_id_def strip_prefix_def starts_with_def)
qed

end
