(* ===== verification/Route_Projection.thy ===== *)
theory Route_Projection
  imports Domain Json "HOL-Library.Multiset"
begin

text \<open>
  \<open>src/docker_driver/route_projection.rs\<close> with the renderer of
  \<open>src/docker_driver/gateway.rs\<close>: workshop route projections are parsed strictly from JSON and
  rendered to gateway configuration. Canonical JSON and SHA-256 are the parameters \<open>jcs\<close> and
  \<open>sha256_hex\<close>, \<open>Uuid::parse_str\<close> is \<open>parse_uuid\<close>.
\<close>

section \<open>Driver errors\<close>

text \<open>
  \<open>DriverError(status, message)\<close> of \<open>src/docker_driver.rs\<close>; \<open>internal\<close> drops its argument.
  \<open>DriverPanic\<close> is the panic of an \<open>expect\<close>.
\<close>

datatype driver_error = DriverError nat str | DriverPanic

definition bad :: "str \<Rightarrow> driver_error" where
  "bad message = DriverError 400 message"

definition internal :: "str \<Rightarrow> driver_error" where
  "internal _ = DriverError 503 ''deployment backend unavailable''"

definition validate_name :: "str \<Rightarrow> driver_error + unit" where
  "validate_name v =
     ensure (1 \<le> length v \<and> length v \<le> 128 \<and>
             list_all (\<lambda>c. is_ascii_lowercase c \<or> is_ascii_digit c \<or> c \<in> set ''-_'') v)
       (internal ''unsafe deterministic runtime name'')"


section \<open>Projections\<close>

datatype route_disposition = Present | Absent

fun disposition_as_str :: "route_disposition \<Rightarrow> str" where
  "disposition_as_str Present = ''present''"
| "disposition_as_str Absent = ''absent''"

definition disposition_parse :: "str \<Rightarrow> driver_error + route_disposition" where
  "disposition_parse s =
     (if s = ''present'' then Inr Present
      else if s = ''absent'' then Inr Absent
      else Inl (internal ''route projection disposition is invalid''))"

datatype paperless_route_mode = ModeAbsent | ModeReadWrite | ModeReadOnly

definition paperless_mode_parse :: "str \<Rightarrow> driver_error + paperless_route_mode" where
  "paperless_mode_parse s =
     (if s = ''absent'' then Inr ModeAbsent
      else if s = ''read_write'' then Inr ModeReadWrite
      else if s = ''read_only'' then Inr ModeReadOnly
      else Inl (internal ''route projection Paperless mode is invalid''))"

record custom_hostname_route =
  ch_hostname :: str
  ch_canonical :: bool

record route_projection =
  pr_disposition :: route_disposition
  pr_database_id :: "uuid option"
  pr_database_ref :: "str option"
  pr_public_hostname :: "str option"
  pr_paperless_mode :: paperless_route_mode
  pr_paperless_hostname :: "str option"
  pr_custom_hostnames :: "custom_hostname_route list"
  pr_projection_digest :: str

record route_runtime =
  rt_odoo_upstream :: str
  rt_paperless_upstream :: "str option"

record rendered_route =
  rr_contents :: "str option"
  rr_rendered_digest :: str

definition PROJECTION_FIELD_COUNT :: nat where "PROJECTION_FIELD_COUNT = 6"
definition MAX_CUSTOM_HOSTNAMES :: nat where "MAX_CUSTOM_HOSTNAMES = 64"


section \<open>Parsing\<close>

definition canonical_absent_projection :: json where
  "canonical_absent_projection = JObject
     [(''custom_hostnames'', JArray []), (''database_id'', JNull), (''database_ref'', JNull),
      (''paperless_hostname'', JNull), (''paperless_mode'', JString ''absent''),
      (''public_hostname'', JNull)]"

definition required_string :: "json \<Rightarrow> str \<Rightarrow> driver_error + str" where
  "required_string projection key =
     ok_or (json_get_str key projection) (internal (''route projection '' @ key @ '' is invalid''))"

definition hostname_is_valid :: "str \<Rightarrow> bool" where
  "hostname_is_valid v \<longleftrightarrow>
     3 \<le> length v \<and> length v \<le> 253 \<and>
     (v \<noteq> [] \<and> (is_ascii_lowercase (hd v) \<or> is_ascii_digit (hd v))) \<and>
     (v \<noteq> [] \<and> (is_ascii_lowercase (last v) \<or> is_ascii_digit (last v))) \<and>
     \<not> contains_str v ''..'' \<and>
     list_all (\<lambda>c. is_ascii_lowercase c \<or> is_ascii_digit c \<or> c \<in> set ''-.'') v"

definition projection_hostname :: "json \<Rightarrow> str \<Rightarrow> driver_error + str" where
  "projection_hostname projection key =
     and_then (required_string projection key) (\<lambda>v.
       if hostname_is_valid v then Inr v
       else Inl (internal (''route projection '' @ key @ '' is invalid'')))"

text \<open>The loop over the custom hostnames, with its local variables as arguments.\<close>

fun parse_custom_loop ::
  "str option \<Rightarrow> bool \<Rightarrow> custom_hostname_route list \<Rightarrow> json list
     \<Rightarrow> driver_error + custom_hostname_route list" where
  "parse_custom_loop previous canonical_seen result [] = Inr result"
| "parse_custom_loop previous canonical_seen result (v # vs) =
     and_then (ok_or
       (opt_filter (\<lambda>ms. length ms = 2 \<and> ''hostname'' \<in> fst ` set ms \<and> ''canonical'' \<in> fst ` set ms)
          (json_as_object v))
       (internal ''custom hostname projection is invalid'')) (\<lambda>ms.
     and_then (projection_hostname v ''hostname'') (\<lambda>hostname.
     and_then (ensure (\<not> (case previous of None \<Rightarrow> False | Some p \<Rightarrow> p \<ge> hostname))
       (internal ''custom hostname projection is not strictly ordered'')) (\<lambda>_.
     and_then (ok_or (Option.bind (map_of ms ''canonical'') json_as_bool)
       (internal ''custom hostname canonical flag is invalid'')) (\<lambda>canonical.
     and_then (ensure (\<not> (canonical \<and> canonical_seen))
       (internal ''custom hostname projection has multiple canonical names'')) (\<lambda>_.
       parse_custom_loop (Some hostname) (canonical_seen \<or> canonical)
         (result @ [\<lparr>ch_hostname = hostname, ch_canonical = canonical\<rparr>]) vs)))))"

definition parse_custom_hostnames :: "json \<Rightarrow> driver_error + custom_hostname_route list" where
  "parse_custom_hostnames projection =
     and_then (ok_or
       (opt_filter (\<lambda>vs. length vs \<le> MAX_CUSTOM_HOSTNAMES)
          (Option.bind (json_get ''custom_hostnames'' projection) json_as_array))
       (internal ''custom hostname projection is invalid''))
       (parse_custom_loop None False [])"

definition parse_paperless_hostname ::
  "json \<Rightarrow> paperless_route_mode \<Rightarrow> driver_error + str option" where
  "parse_paperless_hostname projection mode =
     (if mode = ModeAbsent \<and> json_get ''paperless_hostname'' projection = Some JNull then Inr None
      else if mode = ModeReadOnly \<or> mode = ModeReadWrite then
        and_then (projection_hostname projection ''paperless_hostname'') (\<lambda>h. Inr (Some h))
      else Inl (internal ''absent Paperless route has a hostname''))"

definition parse_present ::
  "(str \<Rightarrow> uuid option) \<Rightarrow> json \<Rightarrow> str \<Rightarrow> driver_error + route_projection" where
  "parse_present parse_uuid projection expected_digest =
     and_then (required_string projection ''database_id'') (\<lambda>text.
     and_then (ok_or
       (opt_filter (\<lambda>u. uuid_hyphenated u = text \<and> uuid_rfc4122 u \<and>
                        1 \<le> uuid_version_num u \<and> uuid_version_num u \<le> 5) (parse_uuid text))
       (internal ''route database UUID is invalid'')) (\<lambda>database_id.
     and_then (required_string projection ''database_ref'') (\<lambda>database_ref.
     and_then (ensure (database_ref = opaque_database_ref database_id)
       (internal ''route database reference does not match its UUID'')) (\<lambda>_.
     and_then (projection_hostname projection ''public_hostname'') (\<lambda>public_hostname.
     and_then (and_then (required_string projection ''paperless_mode'') paperless_mode_parse) (\<lambda>mode.
     and_then (parse_paperless_hostname projection mode) (\<lambda>paperless_hostname.
     and_then (parse_custom_hostnames projection) (\<lambda>custom_hostnames.
       Inr \<lparr>pr_disposition = Present, pr_database_id = Some database_id,
            pr_database_ref = Some database_ref, pr_public_hostname = Some public_hostname,
            pr_paperless_mode = mode, pr_paperless_hostname = paperless_hostname,
            pr_custom_hostnames = custom_hostnames, pr_projection_digest = expected_digest\<rparr>))))))))"

definition parse ::
  "(json \<Rightarrow> str option) \<Rightarrow> (str \<Rightarrow> str) \<Rightarrow> (str \<Rightarrow> uuid option) \<Rightarrow> json \<Rightarrow> str \<Rightarrow> route_disposition
     \<Rightarrow> driver_error + route_projection" where
  "parse jcs sha256_hex parse_uuid projection expected_digest disposition =
     and_then (ensure (valid_sha256 expected_digest \<and>
         map_option length (json_as_object projection) = Some PROJECTION_FIELD_COUNT)
       (internal ''route projection shape is invalid'')) (\<lambda>_.
     and_then (ok_or (jcs projection) (internal ''route projection is not canonical'')) (\<lambda>canonical.
     and_then (ensure (''sha256:'' @ sha256_hex canonical = expected_digest)
       (internal ''route projection digest does not match its payload'')) (\<lambda>_.
     and_then (ok_or (json_as_object projection) DriverPanic) (\<lambda>object.
     and_then (each (\<lambda>key. ensure (key \<in> fst ` set object) (internal ''route projection shape is invalid''))
       [''database_id'', ''database_ref'', ''public_hostname'', ''paperless_mode'',
        ''paperless_hostname'', ''custom_hostnames'']) (\<lambda>_.
       case disposition of
         Absent \<Rightarrow>
           and_then (ensure (projection = canonical_absent_projection)
             (internal ''absent route projection shape is invalid'')) (\<lambda>_.
             Inr \<lparr>pr_disposition = Absent, pr_database_id = None, pr_database_ref = None,
                  pr_public_hostname = None, pr_paperless_mode = ModeAbsent,
                  pr_paperless_hostname = None, pr_custom_hostnames = [],
                  pr_projection_digest = expected_digest\<rparr>)
       | Present \<Rightarrow> parse_present parse_uuid projection expected_digest)))))"

definition parse_optional ::
  "(json \<Rightarrow> str option) \<Rightarrow> (str \<Rightarrow> str) \<Rightarrow> (str \<Rightarrow> uuid option) \<Rightarrow> json option \<Rightarrow> str
     \<Rightarrow> route_disposition \<Rightarrow> driver_error + route_projection" where
  "parse_optional jcs sha256_hex parse_uuid projection expected_digest disposition =
     (case (projection, disposition) of
        (Some v, d) \<Rightarrow> parse jcs sha256_hex parse_uuid v expected_digest d
      | (None, Absent) \<Rightarrow>
          parse jcs sha256_hex parse_uuid canonical_absent_projection expected_digest Absent
      | (None, Present) \<Rightarrow> Inl (internal ''present route projection payload is absent''))"


section \<open>Rendering\<close>

definition lines_text :: "str list \<Rightarrow> str" where
  "lines_text ls = concat (map (\<lambda>l. l @ [CHR 0x0A]) ls)"

definition proxy_headers :: "str list" where
  "proxy_headers =
     [''    proxy_http_version 1.1;'',
      ''    proxy_set_header Host $host;'',
      ''    proxy_set_header X-Forwarded-Host $host;'',
      ''    proxy_set_header X-Forwarded-For $proxy_add_x_forwarded_for;'',
      ''    proxy_set_header X-Forwarded-Proto $forwarded_proto;'',
      ''    proxy_set_header Upgrade $http_upgrade;'',
      ''    proxy_set_header Connection $connection_upgrade;'']"

text \<open>The three \<open>format!\<close> templates of the renderer.\<close>

definition odoo_server :: "str list \<Rightarrow> str \<Rightarrow> str \<Rightarrow> str" where
  "odoo_server names database_ref container = lines_text
     ([''server {'', ''  listen 8080;'', ''  server_name '' @ join '' '' names @ '';'', ''  location / {''] @
      proxy_headers @
      [''    proxy_set_header X-Odoo-Dbfilter '' @ [CHR 0x27] @ ''^'' @ database_ref @
         [CHR 0x5C] @ ''Z'' @ [CHR 0x27] @ '';'',
       ''    set $tenant_upstream '' @ [CHR 0x22] @ container @ '':8069'' @ [CHR 0x22] @ '';'',
       ''    proxy_pass http://$tenant_upstream;'', ''  }'', ''}''])"

definition redirect_server :: "str list \<Rightarrow> str \<Rightarrow> str" where
  "redirect_server names canonical = lines_text
     [''server {'', ''  listen 8080;'', ''  server_name '' @ join '' '' names @ '';'',
      ''  return 308 https://'' @ canonical @ ''$request_uri;'', ''}'']"

definition paperless_server :: "str \<Rightarrow> str \<Rightarrow> bool \<Rightarrow> str" where
  "paperless_server hostname container read_only = lines_text
     ([''server {'', ''  listen 8080;'', ''  server_name '' @ hostname @ '';'', ''  location / {''] @
      (if read_only then [''    limit_except GET HEAD OPTIONS { deny all; }''] else []) @
      proxy_headers @
      [''    set $tenant_upstream '' @ [CHR 0x22] @ container @ '':8000'' @ [CHR 0x22] @ '';'',
       ''    proxy_pass http://$tenant_upstream;'', ''  }'', ''}''])"

definition route_config_for_upstream ::
  "str \<Rightarrow> str \<Rightarrow> str \<Rightarrow> (str \<times> str) option \<Rightarrow> bool \<Rightarrow> custom_hostname_route list \<Rightarrow> str" where
  "route_config_for_upstream database_ref odoo_hostname odoo_container paperless read_only custom =
     (let custom_canonical = map_option ch_hostname (find ch_canonical custom);
          canonical = (case custom_canonical of None \<Rightarrow> odoo_hostname | Some c \<Rightarrow> c);
          proxy_names = (if custom_canonical \<noteq> None then [canonical, odoo_hostname] else [canonical]);
          redirects = (if custom_canonical \<noteq> None
                       then map ch_hostname (filter (\<lambda>r. \<not> ch_canonical r) custom)
                       else map ch_hostname custom)
      in odoo_server proxy_names database_ref odoo_container @
         (if redirects \<noteq> [] then redirect_server redirects canonical else []) @
         (case paperless of None \<Rightarrow> [] | Some (h, c) \<Rightarrow> paperless_server h c read_only))"

definition render ::
  "(str \<Rightarrow> str) \<Rightarrow> route_projection \<Rightarrow> route_runtime option \<Rightarrow> driver_error + rendered_route" where
  "render sha256_hex p runtime =
     and_then
       (case pr_disposition p of
          Absent \<Rightarrow>
            (if runtime \<noteq> None then Inl (internal ''absent route projection received a runtime'')
             else Inr None)
        | Present \<Rightarrow>
            and_then (ok_or runtime (internal ''present route projection runtime is absent'')) (\<lambda>rt.
            and_then (validate_name (rt_odoo_upstream rt)) (\<lambda>_.
            and_then (case rt_paperless_upstream rt of None \<Rightarrow> Inr () | Some u \<Rightarrow> validate_name u) (\<lambda>_.
            and_then (ensure ((pr_paperless_mode p = ModeAbsent) = (rt_paperless_upstream rt = None))
              (internal ''Paperless route runtime does not match its projection'')) (\<lambda>_.
            and_then (ok_or (pr_database_ref p) DriverPanic) (\<lambda>database_ref.
            and_then (ok_or (pr_public_hostname p) DriverPanic) (\<lambda>public_hostname.
              Inr (Some (route_config_for_upstream database_ref public_hostname (rt_odoo_upstream rt)
                (case (pr_paperless_hostname p, rt_paperless_upstream rt) of
                   (Some h, Some u) \<Rightarrow> Some (h, u) | _ \<Rightarrow> None)
                (pr_paperless_mode p = ModeReadOnly) (pr_custom_hostnames p))))))))))
       (\<lambda>contents. Inr \<lparr>rr_contents = contents,
          rr_rendered_digest = ''sha256:'' @ sha256_hex (case contents of None \<Rightarrow> [] | Some c \<Rightarrow> c)\<rparr>)"

definition maintenance_server :: "str \<Rightarrow> str" where
  "maintenance_server name = lines_text
     [''server {'', ''  listen 8080;'', ''  server_name '' @ name @ '';'',
      ''  add_header Retry-After 120 always;'', ''  location / { return 503; }'', ''}'']"

text \<open>\<open>sort_unstable\<close> followed by \<open>dedup\<close>.\<close>

definition maintenance_hostnames :: "str \<Rightarrow> route_projection \<Rightarrow> str list" where
  "maintenance_hostnames public_hostname p =
     remdups_adj (sort ([public_hostname] @
       (case pr_paperless_hostname p of None \<Rightarrow> [] | Some h \<Rightarrow> [h]) @
       map ch_hostname (pr_custom_hostnames p)))"

definition render_maintenance ::
  "(str \<Rightarrow> str) \<Rightarrow> route_projection \<Rightarrow> driver_error + rendered_route" where
  "render_maintenance sha256_hex p =
     and_then
       (case pr_disposition p of
          Absent \<Rightarrow> Inr None
        | Present \<Rightarrow>
            and_then (ok_or (pr_public_hostname p) DriverPanic) (\<lambda>public_hostname.
              Inr (Some (concat (map maintenance_server (maintenance_hostnames public_hostname p))))))
       (\<lambda>contents. Inr \<lparr>rr_contents = contents,
          rr_rendered_digest = ''sha256:'' @ sha256_hex (case contents of None \<Rightarrow> [] | Some c \<Rightarrow> c)\<rparr>)"


section \<open>What an accepted projection is\<close>

fun mode_as_str :: "paperless_route_mode \<Rightarrow> str" where
  "mode_as_str ModeAbsent = ''absent''"
| "mode_as_str ModeReadWrite = ''read_write''"
| "mode_as_str ModeReadOnly = ''read_only''"

definition custom_json :: "custom_hostname_route \<Rightarrow> json" where
  "custom_json r = JObject [(''canonical'', JBool (ch_canonical r)), (''hostname'', JString (ch_hostname r))]"

definition opt_json :: "str option \<Rightarrow> json" where
  "opt_json v = (case v of None \<Rightarrow> JNull | Some s \<Rightarrow> JString s)"

text \<open>The JSON form of a projection.\<close>

definition projection_json :: "route_projection \<Rightarrow> json" where
  "projection_json p = JObject
     [(''custom_hostnames'', JArray (map custom_json (pr_custom_hostnames p))),
      (''database_id'', opt_json (map_option uuid_hyphenated (pr_database_id p))),
      (''database_ref'', opt_json (pr_database_ref p)),
      (''paperless_hostname'', opt_json (pr_paperless_hostname p)),
      (''paperless_mode'', JString (mode_as_str (pr_paperless_mode p))),
      (''public_hostname'', opt_json (pr_public_hostname p))]"

definition customs_ok :: "custom_hostname_route list \<Rightarrow> bool" where
  "customs_ok rs \<longleftrightarrow>
     length rs \<le> 64 \<and> sorted_wrt (<) (map ch_hostname rs) \<and>
     (\<forall>r \<in> set rs. hostname_is_valid (ch_hostname r)) \<and> length (filter ch_canonical rs) \<le> 1"

definition projection_ok :: "route_projection \<Rightarrow> bool" where
  "projection_ok p \<longleftrightarrow>
     (case pr_disposition p of
        Absent \<Rightarrow> pr_database_id p = None \<and> pr_database_ref p = None \<and> pr_public_hostname p = None \<and>
          pr_paperless_mode p = ModeAbsent \<and> pr_paperless_hostname p = None \<and> pr_custom_hostnames p = []
      | Present \<Rightarrow>
          (\<exists>u h. pr_database_id p = Some u \<and> uuid_rfc4122 u \<and> 1 \<le> uuid_version_num u \<and>
             uuid_version_num u \<le> 5 \<and> pr_database_ref p = Some (opaque_database_ref u) \<and>
             pr_public_hostname p = Some h \<and> hostname_is_valid h) \<and>
          (pr_paperless_mode p = ModeAbsent) = (pr_paperless_hostname p = None) \<and>
          (\<forall>h. pr_paperless_hostname p = Some h \<longrightarrow> hostname_is_valid h) \<and>
          customs_ok (pr_custom_hostnames p))"


section \<open>Lemmas on parsing\<close>

interpretation disposition_text: string_enum disposition_as_str disposition_parse
proof (unfold_locales, goal_cases)
  case (1 d)
  show ?case by (cases d) (simp_all add: disposition_parse_def)
next
  case (2 s d)
  then show ?case by (simp add: disposition_parse_def split: if_splits)
qed

interpretation mode_text: string_enum mode_as_str paperless_mode_parse
proof (unfold_locales, goal_cases)
  case (1 m)
  show ?case by (cases m) (simp_all add: paperless_mode_parse_def)
next
  case (2 s m)
  then show ?case by (simp add: paperless_mode_parse_def split: if_splits)
qed

lemma required_string_Inr [result_simps]:
  "required_string j k = Inr s \<longleftrightarrow> json_get k j = Some (JString s)"
  by (auto simp: required_string_def result_simps json_get_str_def bind_eq_Some_conv)

lemma projection_hostname_Inr [result_simps]:
  "projection_hostname j k = Inr h \<longleftrightarrow> json_get k j = Some (JString h) \<and> hostname_is_valid h"
  by (auto simp: projection_hostname_def result_simps)

lemma validate_name_Inr [result_simps]:
  "validate_name v = Inr u \<longleftrightarrow> 1 \<le> length v \<and> length v \<le> 128 \<and>
     list_all (\<lambda>c. is_ascii_lowercase c \<or> is_ascii_digit c \<or> c \<in> set ''-_'') v"
  by (simp add: validate_name_def result_simps)

text \<open>One custom hostname: the only accepted value is the JSON form of the route read from it.\<close>

lemma custom_member:
  assumes "json_wf v" and "json_as_object v = Some ms" and "length ms = 2"
    and "''hostname'' \<in> fst ` set ms" and "''canonical'' \<in> fst ` set ms"
  shows "json_get ''hostname'' v = Some (JString h) \<and> Option.bind (map_of ms ''canonical'') json_as_bool = Some c
    \<longleftrightarrow> v = custom_json \<lparr>ch_hostname = h, ch_canonical = c\<rparr>"
proof -
  have v: "v = JObject ms" using assms(2) by simp
  then have "map fst ms = [''canonical'', ''hostname'']"
    using assms by (intro object_keys_exact) auto
  then obtain x y where "ms = [(''canonical'', x), (''hostname'', y)]" by (auto simp: map_eq_Cons_conv)
  then show ?thesis by (auto simp: v custom_json_def)
qed

lemma custom_hostname_route_eta [simp]:
  "\<lparr>ch_hostname = ch_hostname r, ch_canonical = ch_canonical r\<rparr> = (r :: custom_hostname_route)"
  by (cases r) simp

lemma parse_custom_loop_Inr:
  assumes "\<forall>v \<in> set vs. json_wf v"
  shows "parse_custom_loop previous seen acc vs = Inr out \<longleftrightarrow>
    (\<exists>rs. out = acc @ rs \<and> vs = map custom_json rs \<and> ascending previous (map ch_hostname rs) \<and>
       (\<forall>r \<in> set rs. hostname_is_valid (ch_hostname r)) \<and>
       length (filter ch_canonical rs) + (if seen then 1 else 0) \<le> 1)"
  using assms
proof (induction vs arbitrary: previous seen acc)
  case Nil
  then show ?case by auto
next
  case (Cons v vs)
  have wf: "json_wf v" "\<forall>v \<in> set vs. json_wf v" using Cons.prems by auto
  have IH: "parse_custom_loop p s a vs = Inr out \<longleftrightarrow>
      (\<exists>rs. out = a @ rs \<and> vs = map custom_json rs \<and> ascending p (map ch_hostname rs) \<and>
         (\<forall>r \<in> set rs. hostname_is_valid (ch_hostname r)) \<and>
         length (filter ch_canonical rs) + (if s then 1 else 0) \<le> 1)" for p s a
    by (rule Cons.IH [OF wf(2)])
  let ?before = "\<lambda>h. \<not> (case previous of None \<Rightarrow> False | Some p \<Rightarrow> p \<ge> h)"
  have "parse_custom_loop previous seen acc (v # vs) = Inr out \<longleftrightarrow>
    (\<exists>h c. v = custom_json \<lparr>ch_hostname = h, ch_canonical = c\<rparr> \<and> hostname_is_valid h \<and>
       ?before h \<and> \<not> (c \<and> seen) \<and>
       parse_custom_loop (Some h) (seen \<or> c) (acc @ [\<lparr>ch_hostname = h, ch_canonical = c\<rparr>]) vs = Inr out)"
    (is "?loop \<longleftrightarrow> ?one")
  proof
    assume ?loop
    then obtain ms h c where ms: "json_as_object v = Some ms" "length ms = 2"
        "''hostname'' \<in> fst ` set ms" "''canonical'' \<in> fst ` set ms"
        and hc: "json_get ''hostname'' v = Some (JString h)"
          "Option.bind (map_of ms ''canonical'') json_as_bool = Some c"
        and rest: "hostname_is_valid h" "?before h" "\<not> (c \<and> seen)"
          "parse_custom_loop (Some h) (seen \<or> c) (acc @ [\<lparr>ch_hostname = h, ch_canonical = c\<rparr>]) vs = Inr out"
      unfolding parse_custom_loop.simps result_simps by (elim exE conjE) (rule that)
    have "v = custom_json \<lparr>ch_hostname = h, ch_canonical = c\<rparr>"
      using custom_member [OF wf(1) ms, of h c] hc by simp
    from this rest show ?one by (intro exI [of _ h] exI [of _ c] conjI)
  next
    assume ?one
    then obtain h c where "v = custom_json \<lparr>ch_hostname = h, ch_canonical = c\<rparr>" "hostname_is_valid h"
        "?before h" "\<not> (c \<and> seen)"
        "parse_custom_loop (Some h) (seen \<or> c) (acc @ [\<lparr>ch_hostname = h, ch_canonical = c\<rparr>]) vs = Inr out"
      by (elim exE conjE) (rule that)
    then show ?loop
      by (simp add: custom_json_def ensure_def projection_hostname_def required_string_def json_get_str_def)
  qed
  also have "\<dots> \<longleftrightarrow> (\<exists>rs. out = acc @ rs \<and> v # vs = map custom_json rs \<and> ascending previous (map ch_hostname rs) \<and>
       (\<forall>r \<in> set rs. hostname_is_valid (ch_hostname r)) \<and>
       length (filter ch_canonical rs) + (if seen then 1 else 0) \<le> 1)" (is "_ \<longleftrightarrow> ?all")
  proof
    assume ?one
    then obtain h c where hc: "v = custom_json \<lparr>ch_hostname = h, ch_canonical = c\<rparr>" "hostname_is_valid h"
        "?before h" "\<not> (c \<and> seen)"
        "parse_custom_loop (Some h) (seen \<or> c) (acc @ [\<lparr>ch_hostname = h, ch_canonical = c\<rparr>]) vs = Inr out"
      by (elim exE conjE) (rule that)
    from hc(5) [unfolded IH] obtain rs where rs: "out = (acc @ [\<lparr>ch_hostname = h, ch_canonical = c\<rparr>]) @ rs"
        "vs = map custom_json rs" "ascending (Some h) (map ch_hostname rs)"
        "\<forall>r \<in> set rs. hostname_is_valid (ch_hostname r)"
        "length (filter ch_canonical rs) + (if seen \<or> c then 1 else 0) \<le> 1"
      by (elim exE conjE) (rule that)
    have "ascending previous (h # map ch_hostname rs)"
      using hc(3) rs(3) by (cases previous) simp_all
    with hc rs show ?all
      by (intro exI [of _ "\<lparr>ch_hostname = h, ch_canonical = c\<rparr> # rs"]) (simp split: if_splits)
  next
    assume ?all
    then obtain rs where rs: "out = acc @ rs" "v # vs = map custom_json rs" "ascending previous (map ch_hostname rs)"
        "\<forall>r \<in> set rs. hostname_is_valid (ch_hostname r)"
        "length (filter ch_canonical rs) + (if seen then 1 else 0) \<le> 1"
      by (elim exE conjE) (rule that)
    then obtain r rs' where r: "rs = r # rs'" by (cases rs) simp_all
    have "?before (ch_hostname r)" and "ascending (Some (ch_hostname r)) (map ch_hostname rs')"
      using rs(3) r by (cases previous; simp)+
    moreover have "\<not> (ch_canonical r \<and> seen)"
        "length (filter ch_canonical rs') + (if seen \<or> ch_canonical r then 1 else 0) \<le> 1"
      using rs(5) r by (simp_all split: if_splits)
    moreover have "out = (acc @ [\<lparr>ch_hostname = ch_hostname r, ch_canonical = ch_canonical r\<rparr>]) @ rs'"
        "v = custom_json \<lparr>ch_hostname = ch_hostname r, ch_canonical = ch_canonical r\<rparr>" "vs = map custom_json rs'"
        "hostname_is_valid (ch_hostname r)" "\<forall>r \<in> set rs'. hostname_is_valid (ch_hostname r)"
      using rs r by simp_all
    ultimately show ?one
      unfolding IH by (intro exI [of _ "ch_hostname r"] exI [of _ "ch_canonical r"] exI [of _ rs'] conjI)
  qed
  finally show ?case .
qed


lemma projection_shape:
  assumes "json_wf j" and "json_as_object j = Some ms" and "length ms = 6"
    and "set [''custom_hostnames'', ''database_id'', ''database_ref'', ''paperless_hostname'',
      ''paperless_mode'', ''public_hostname''] \<subseteq> fst ` set ms"
  obtains c i r h m n where "j = JObject [(''custom_hostnames'', c), (''database_id'', i), (''database_ref'', r),
    (''paperless_hostname'', h), (''paperless_mode'', m), (''public_hostname'', n)]"
proof -
  have j: "j = JObject ms" using assms(2) by simp
  have "map fst ms = [''custom_hostnames'', ''database_id'', ''database_ref'', ''paperless_hostname'',
      ''paperless_mode'', ''public_hostname'']"
    by (rule object_keys_exact) (use assms j in simp_all)
  then show ?thesis
    using that j by (auto simp: map_eq_Cons_conv)
qed

lemma json_wf_projection_json: "json_wf (projection_json p)"
  by (auto simp: projection_json_def opt_json_def custom_json_def split: option.splits)

lemma parse_custom_hostnames_Inr:
  assumes "json_wf j"
  shows "parse_custom_hostnames j = Inr rs \<longleftrightarrow>
    json_get ''custom_hostnames'' j = Some (JArray (map custom_json rs)) \<and> customs_ok rs"
proof -
  have wf: "\<forall>v \<in> set vs. json_wf v" if "json_get ''custom_hostnames'' j = Some (JArray vs)" for vs
  proof (cases j)
    case (JObject ms)
    then show ?thesis using assms that by (force dest: map_of_SomeD)
  qed (use that in simp_all)
  have "parse_custom_hostnames j = Inr rs \<longleftrightarrow>
    (\<exists>vs. json_get ''custom_hostnames'' j = Some (JArray vs) \<and> length vs \<le> 64 \<and>
       parse_custom_loop None False [] vs = Inr rs)"
    by (simp only: parse_custom_hostnames_def result_simps MAX_CUSTOM_HOSTNAMES_def bind_eq_Some_conv
          json_as_array_Some) blast
  also have "\<dots> \<longleftrightarrow> (\<exists>vs. json_get ''custom_hostnames'' j = Some (JArray vs) \<and> length vs \<le> 64 \<and>
       vs = map custom_json rs \<and> ascending None (map ch_hostname rs) \<and>
       (\<forall>r \<in> set rs. hostname_is_valid (ch_hostname r)) \<and> length (filter ch_canonical rs) \<le> 1)"
    by (intro ex_cong1 conj_cong refl) (simp add: parse_custom_loop_Inr [OF wf])
  also have "\<dots> \<longleftrightarrow> json_get ''custom_hostnames'' j = Some (JArray (map custom_json rs)) \<and> customs_ok rs"
    unfolding customs_ok_def ascending_None by auto
  finally show ?thesis .
qed

lemma parse_paperless_hostname_Inr:
  "parse_paperless_hostname j m = Inr h \<longleftrightarrow>
     (m = ModeAbsent \<and> json_get ''paperless_hostname'' j = Some JNull \<and> h = None) \<or>
     (m \<noteq> ModeAbsent \<and> (\<exists>s. h = Some s \<and> json_get ''paperless_hostname'' j = Some (JString s) \<and>
        hostname_is_valid s))"
  by (cases m) (auto simp: parse_paperless_hostname_def result_simps)

lemma parse_present_Inr:
  assumes wf: "json_wf j" and uuid: "\<And>u. parse_uuid (uuid_hyphenated u) = Some u"
    and j: "j = JObject [(''custom_hostnames'', c), (''database_id'', i), (''database_ref'', r),
    (''paperless_hostname'', h), (''paperless_mode'', m), (''public_hostname'', n)]"
  shows "parse_present parse_uuid j d = Inr p \<longleftrightarrow>
    projection_ok p \<and> pr_disposition p = Present \<and> pr_projection_digest p = d \<and> j = projection_json p"
proof
  assume "parse_present parse_uuid j d = Inr p"
  then obtain u pub mode hn rs where *: "i = JString (uuid_hyphenated u)" "uuid_rfc4122 u"
      "1 \<le> uuid_version_num u" "uuid_version_num u \<le> 5" "r = JString (opaque_database_ref u)"
      "n = JString pub" "hostname_is_valid pub" "m = JString (mode_as_str mode)"
      "parse_paperless_hostname j mode = Inr hn" "c = JArray (map custom_json rs)" "customs_ok rs"
      "p = \<lparr>pr_disposition = Present, pr_database_id = Some u, pr_database_ref = Some (opaque_database_ref u),
        pr_public_hostname = Some pub, pr_paperless_mode = mode, pr_paperless_hostname = hn,
        pr_custom_hostnames = rs, pr_projection_digest = d\<rparr>"
    unfolding parse_present_def result_simps parse_custom_hostnames_Inr [OF wf]
    by (auto simp: j mode_text.parse_iff)
  moreover from *(9) have "h = opt_json hn \<and> (mode = ModeAbsent) = (hn = None) \<and>
      (\<forall>x. hn = Some x \<longrightarrow> hostname_is_valid x)"
    by (auto simp: parse_paperless_hostname_Inr j opt_json_def)
  ultimately show "projection_ok p \<and> pr_disposition p = Present \<and> pr_projection_digest p = d \<and> j = projection_json p"
    by (simp add: projection_ok_def projection_json_def opt_json_def j)
next
  assume ok: "projection_ok p \<and> pr_disposition p = Present \<and> pr_projection_digest p = d \<and> j = projection_json p"
  then obtain u pub where u: "pr_database_id p = Some u" "uuid_rfc4122 u" "1 \<le> uuid_version_num u"
      "uuid_version_num u \<le> 5" "pr_database_ref p = Some (opaque_database_ref u)"
      "pr_public_hostname p = Some pub" "hostname_is_valid pub"
    by (auto simp: projection_ok_def)
  have "parse_paperless_hostname j (pr_paperless_mode p) = Inr (pr_paperless_hostname p)"
    using ok by (cases "pr_paperless_hostname p")
      (auto simp: parse_paperless_hostname_Inr projection_ok_def projection_json_def opt_json_def)
  moreover have "parse_custom_hostnames j = Inr (pr_custom_hostnames p)"
    using ok unfolding parse_custom_hostnames_Inr [OF wf]
    by (auto simp: projection_ok_def projection_json_def)
  moreover have "\<lparr>pr_disposition = Present, pr_database_id = Some u, pr_database_ref = Some (opaque_database_ref u),
      pr_public_hostname = Some pub, pr_paperless_mode = pr_paperless_mode p,
      pr_paperless_hostname = pr_paperless_hostname p, pr_custom_hostnames = pr_custom_hostnames p,
      pr_projection_digest = d\<rparr> = p"
    using ok u by (cases p) auto
  ultimately show "parse_present parse_uuid j d = Inr p"
    using ok u uuid
    by (simp add: parse_present_def required_string_def json_get_str_def projection_hostname_def
          projection_json_def opt_json_def ensure_def mode_text.parse_print)
qed

text \<open>
  The whole parser, on the values the JSON library can build and under the documented behaviour of
  \<open>Uuid::parse_str\<close>: it reads back the hyphenated form.
\<close>

lemma parse_Inr:
  assumes wf: "json_wf j" and uuid: "\<And>u. parse_uuid (uuid_hyphenated u) = Some u"
  shows "parse jcs sha256_hex parse_uuid j d disposition = Inr p \<longleftrightarrow>
    projection_ok p \<and> pr_disposition p = disposition \<and> pr_projection_digest p = d \<and> j = projection_json p \<and>
    valid_sha256 d \<and> (\<exists>canonical. jcs j = Some canonical \<and> d = ''sha256:'' @ sha256_hex canonical)"
proof -
  let ?digest = "valid_sha256 d \<and> (\<exists>canonical. jcs j = Some canonical \<and> d = ''sha256:'' @ sha256_hex canonical)"
  let ?keys = "[''custom_hostnames'', ''database_id'', ''database_ref'', ''paperless_hostname'',
      ''paperless_mode'', ''public_hostname'']"
  let ?absent = "\<lparr>pr_disposition = Absent, pr_database_id = None, pr_database_ref = None,
      pr_public_hostname = None, pr_paperless_mode = ModeAbsent, pr_paperless_hostname = None,
      pr_custom_hostnames = [], pr_projection_digest = d\<rparr>"
  have step: "parse jcs sha256_hex parse_uuid j d disposition = Inr p \<longleftrightarrow>
    ?digest \<and> (\<exists>ms. json_as_object j = Some ms \<and> length ms = 6 \<and> set ?keys \<subseteq> fst ` set ms) \<and>
    (case disposition of Absent \<Rightarrow> j = canonical_absent_projection \<and> p = ?absent
     | Present \<Rightarrow> parse_present parse_uuid j d = Inr p)"
    unfolding parse_def PROJECTION_FIELD_COUNT_def
    by (cases disposition) (auto simp: result_simps)
  show ?thesis
  proof (cases "\<exists>ms. json_as_object j = Some ms \<and> length ms = 6 \<and> set ?keys \<subseteq> fst ` set ms")
    case True
    then obtain c i r h m n where j: "j = JObject [(''custom_hostnames'', c), (''database_id'', i),
        (''database_ref'', r), (''paperless_hostname'', h), (''paperless_mode'', m), (''public_hostname'', n)]"
      using projection_shape [OF wf] by metis
    have "j = canonical_absent_projection \<and> p = ?absent \<longleftrightarrow>
        projection_ok p \<and> pr_disposition p = Absent \<and> pr_projection_digest p = d \<and> j = projection_json p"
      by (cases p) (auto simp: projection_ok_def projection_json_def opt_json_def canonical_absent_projection_def)
    then show ?thesis
      unfolding step using True parse_present_Inr [OF wf uuid j, of d p] by (cases disposition) auto
  next
    case False
    then have "j \<noteq> projection_json p" by (auto simp: projection_json_def)
    with False show ?thesis unfolding step by blast
  qed
qed


section \<open>The servers of a rendered route\<close>

text \<open>An abstract gateway configuration: what each server block does, and its text.\<close>

datatype server_block =
    OdooServer "str list" str str
  | RedirectServer "str list" str
  | PaperlessServer str str bool

fun block_names :: "server_block \<Rightarrow> str list" where
  "block_names (OdooServer names database_ref container) = names"
| "block_names (RedirectServer names canonical) = names"
| "block_names (PaperlessServer hostname container read_only) = [hostname]"

fun block_text :: "server_block \<Rightarrow> str" where
  "block_text (OdooServer names database_ref container) = odoo_server names database_ref container"
| "block_text (RedirectServer names canonical) = redirect_server names canonical"
| "block_text (PaperlessServer hostname container read_only) = paperless_server hostname container read_only"

text \<open>The hostname storefront requests end up on: the canonical custom name, else the public one.\<close>

definition canonical_hostname :: "str \<Rightarrow> custom_hostname_route list \<Rightarrow> str" where
  "canonical_hostname pub rs =
     (case filter ch_canonical rs of [] \<Rightarrow> pub | r # _ \<Rightarrow> ch_hostname r)"

definition canonical_custom :: "custom_hostname_route list \<Rightarrow> bool" where
  "canonical_custom rs \<longleftrightarrow> filter ch_canonical rs \<noteq> []"

definition route_blocks :: "str \<Rightarrow> str \<Rightarrow> route_projection \<Rightarrow> route_runtime \<Rightarrow> server_block list" where
  "route_blocks database_ref pub p rt =
     (let rs = pr_custom_hostnames p;
          canonical = canonical_hostname pub rs;
          redirects = map ch_hostname (filter (\<lambda>r. \<not> ch_canonical r) rs)
      in [OdooServer (if canonical_custom rs then [canonical, pub] else [pub]) database_ref (rt_odoo_upstream rt)] @
         (if redirects = [] then [] else [RedirectServer redirects canonical]) @
         (case (pr_paperless_hostname p, rt_paperless_upstream rt) of
            (Some h, Some u) \<Rightarrow> [PaperlessServer h u (pr_paperless_mode p = ModeReadOnly)] | _ \<Rightarrow> []))"

definition served_hostnames :: "str \<Rightarrow> route_projection \<Rightarrow> str list" where
  "served_hostnames pub p =
     pub # (case pr_paperless_hostname p of None \<Rightarrow> [] | Some h \<Rightarrow> [h]) @ map ch_hostname (pr_custom_hostnames p)"

lemma find_filter: "find P xs = (case filter P xs of [] \<Rightarrow> None | x # _ \<Rightarrow> Some x)"
  by (induction xs) auto

lemma route_config_blocks:
  "route_config_for_upstream database_ref pub (rt_odoo_upstream rt)
      (case (pr_paperless_hostname p, rt_paperless_upstream rt) of (Some h, Some u) \<Rightarrow> Some (h, u) | _ \<Rightarrow> None)
      (pr_paperless_mode p = ModeReadOnly) (pr_custom_hostnames p)
    = concat (map block_text (route_blocks database_ref pub p rt))"
proof (cases "filter ch_canonical (pr_custom_hostnames p)")
  case Nil
  then have "filter (\<lambda>r. \<not> ch_canonical r) (pr_custom_hostnames p) = pr_custom_hostnames p"
    by (auto simp: filter_empty_conv filter_id_conv)
  with Nil show ?thesis
    by (auto simp: route_config_for_upstream_def route_blocks_def canonical_hostname_def canonical_custom_def
          find_filter Let_def split: option.splits)
next
  case (Cons r rs)
  then show ?thesis
    by (auto simp: route_config_for_upstream_def route_blocks_def canonical_hostname_def canonical_custom_def
          find_filter Let_def split: option.splits)
qed

lemma mset_partition_names:
  "mset (map f (filter P xs)) + mset (map f (filter (\<lambda>x. \<not> P x) xs)) = mset (map f xs)"
  by (induction xs) auto

lemma route_blocks_names:
  assumes "customs_ok (pr_custom_hostnames p)"
    and "(rt_paperless_upstream rt = None) = (pr_paperless_hostname p = None)"
  shows "mset (concat (map block_names (route_blocks database_ref pub p rt))) = mset (served_hostnames pub p)"
proof -
  let ?rs = "pr_custom_hostnames p"
  have "mset (if canonical_custom ?rs then [canonical_hostname pub ?rs, pub] else [pub]) =
      add_mset pub (mset (map ch_hostname (filter ch_canonical ?rs)))"
    using assms(1) by (cases "filter ch_canonical ?rs")
      (auto simp: canonical_custom_def canonical_hostname_def customs_ok_def)
  moreover have "concat (map block_names (route_blocks database_ref pub p rt)) =
      (if canonical_custom ?rs then [canonical_hostname pub ?rs, pub] else [pub]) @
      map ch_hostname (filter (\<lambda>r. \<not> ch_canonical r) ?rs) @
      (case pr_paperless_hostname p of None \<Rightarrow> [] | Some h \<Rightarrow> [h])"
    using assms(2) by (auto simp: route_blocks_def Let_def split: option.splits)
  moreover note mset_partition_names [of ch_hostname ch_canonical ?rs]
  ultimately show ?thesis
    by (simp add: served_hostnames_def union_ac split: option.splits)
qed

lemma set_maintenance_hostnames:
  "set (maintenance_hostnames pub p) = set (served_hostnames pub p)"
  unfolding maintenance_hostnames_def served_hostnames_def remdups_adj_set set_sort
  by (auto split: option.splits)

lemma sorted_remdups_adj_strict: "sorted xs \<Longrightarrow> sorted_wrt (<) (remdups_adj (xs :: 'a :: linorder list))"
proof (induction xs rule: remdups_adj.induct)
  case (3 x y xs)
  show ?case
  proof (cases "x = y")
    case True
    with 3 show ?thesis by simp
  next
    case False
    with 3 have "\<forall>z \<in> set (y # xs). x < z" by auto
    then have "\<forall>z \<in> set (remdups_adj (y # xs)). x < z" by (simp only: remdups_adj_set)
    with False 3 show ?thesis by simp
  qed
qed simp_all

lemma maintenance_hostnames_sorted: "sorted_wrt (<) (maintenance_hostnames pub p)"
  unfolding maintenance_hostnames_def by (rule sorted_remdups_adj_strict) (rule sorted_sort)


section \<open>Properties\<close>

definition sample_projection :: route_projection where
  "sample_projection = \<lparr>pr_disposition = Present,
     pr_database_id = Some 0x123e4567e89b42d3a456426614174000,
     pr_database_ref = Some (opaque_database_ref 0x123e4567e89b42d3a456426614174000),
     pr_public_hostname = Some ''shop.example.test'', pr_paperless_mode = ModeReadOnly,
     pr_paperless_hostname = Some ''docs.example.test'',
     pr_custom_hostnames = [\<lparr>ch_hostname = ''a.test'', ch_canonical = False\<rparr>,
       \<lparr>ch_hostname = ''b.test'', ch_canonical = True\<rparr>],
     pr_projection_digest = ''sha256:'' @ replicate 64 (CHR ''a'')\<rparr>"

definition sample_route_runtime :: route_runtime where
  "sample_route_runtime = \<lparr>rt_odoo_upstream = ''odoo-1'', rt_paperless_upstream = Some ''paperless-1''\<rparr>"

lemma sample_projection_ok: "projection_ok sample_projection"
proof -
  have "uuid_rfc4122 0x123e4567e89b42d3a456426614174000"
    and "uuid_version_num 0x123e4567e89b42d3a456426614174000 = 4"
    by (simp_all add: uuid_rfc4122_def uuid_version_num_def)
  moreover have "hostname_is_valid ''shop.example.test''" and "hostname_is_valid ''docs.example.test''"
    and "hostname_is_valid ''a.test''" and "hostname_is_valid ''b.test''"
    and "(''a.test'' :: str) < ''b.test''"
    by code_simp+
  ultimately show ?thesis
    by (simp add: projection_ok_def sample_projection_def customs_ok_def)
qed

text \<open>
  C18. Parsing is exact. A JSON value is accepted for a digest and a disposition if and only if it
  is the JSON form of a well-formed projection with that digest and disposition and the digest is
  the hash of its canonical form. So nothing in an accepted payload is ignored, every well-formed
  projection round-trips, and every accepted projection satisfies the invariant: the database
  reference belongs to the database id, custom hostnames are valid and strictly ascending with at
  most one canonical, a Paperless hostname exists exactly when the mode asks for one.
\<close>

theorem projection_parse_exact:
  assumes "json_wf j" and "\<And>u. parse_uuid (uuid_hyphenated u) = Some u"
  shows "parse jcs sha256_hex parse_uuid j d disposition = Inr p \<longleftrightarrow>
    projection_ok p \<and> pr_disposition p = disposition \<and> pr_projection_digest p = d \<and> j = projection_json p \<and>
    valid_sha256 d \<and> (\<exists>canonical. jcs j = Some canonical \<and> d = ''sha256:'' @ sha256_hex canonical)"
  by (rule parse_Inr [OF assms])

theorem projection_parse_exact_witness:
  "parse (\<lambda>_. Some []) (\<lambda>_. replicate 64 (CHR ''a'')) (\<lambda>s. Some (uuid_of_text s))
     (projection_json sample_projection) (''sha256:'' @ replicate 64 (CHR ''a'')) Present = Inr sample_projection"
proof -
  have "valid_sha256 (''sha256:'' @ replicate 64 (CHR ''a''))" by code_simp
  moreover have "pr_disposition sample_projection = Present"
      "pr_projection_digest sample_projection = ''sha256:'' @ replicate 64 (CHR ''a'')"
    by (simp_all add: sample_projection_def)
  moreover note sample_projection_ok
  ultimately show ?thesis
    by (subst projection_parse_exact [OF json_wf_projection_json])
       (simp_all only: uuid_of_text_hyphenated, auto)
qed

text \<open>
  C31. Rendering is total on accepted projections: it never panics, it refuses exactly a missing,
  superfluous, unsafely named or mode-mismatched runtime, and it otherwise produces the text of the
  route's servers together with the digest of that text.
\<close>

theorem render_exact:
  assumes "projection_ok p"
  shows "render sha256_hex p runtime =
    (case (pr_disposition p, runtime) of
       (Absent, None) \<Rightarrow> Inr \<lparr>rr_contents = None, rr_rendered_digest = ''sha256:'' @ sha256_hex []\<rparr>
     | (Present, Some rt) \<Rightarrow>
         if validate_name (rt_odoo_upstream rt) = Inr () \<and>
            (\<forall>u. rt_paperless_upstream rt = Some u \<longrightarrow> validate_name u = Inr ()) \<and>
            (pr_paperless_mode p = ModeAbsent) = (rt_paperless_upstream rt = None)
         then (let text = concat (map block_text (route_blocks (the (pr_database_ref p))
                                (the (pr_public_hostname p)) p rt))
               in Inr \<lparr>rr_contents = Some text, rr_rendered_digest = ''sha256:'' @ sha256_hex text\<rparr>)
         else Inl (internal [])
     | _ \<Rightarrow> Inl (internal []))"
proof (cases "pr_disposition p")
  case Absent
  then show ?thesis by (simp add: render_def internal_def split: option.splits)
next
  case Present
  then obtain d pub where "pr_database_ref p = Some d" "pr_public_hostname p = Some pub"
    using assms by (auto simp: projection_ok_def)
  define safe where "safe v \<longleftrightarrow> validate_name v = Inr ()" for v
  have name: "validate_name v = (if safe v then Inr () else Inl (internal []))" for v
    by (auto simp: safe_def validate_name_def ensure_def internal_def)
  have int: "internal m = internal []" for m by (simp add: internal_def)
  show ?thesis
  proof (cases runtime)
    case None
    then show ?thesis using Present by (simp add: render_def int [of "_ # _"])
  next
    case (Some rt)
    then show ?thesis
      using Present \<open>pr_database_ref p = Some d\<close> \<open>pr_public_hostname p = Some pub\<close>
        route_config_blocks [of d pub rt p]
      by (cases "rt_paperless_upstream rt"; cases "pr_paperless_hostname p";
          cases "pr_paperless_mode p = ModeAbsent")
         (simp_all add: render_def name ensure_def Let_def int [of "_ # _"])
  qed
qed

theorem render_exact_witness:
  "\<exists>text. render (\<lambda>_. []) sample_projection (Some sample_route_runtime) =
     Inr \<lparr>rr_contents = Some text, rr_rendered_digest = ''sha256:''\<rparr>"
proof -
  have "validate_name ''odoo-1'' = Inr ()" "validate_name ''paperless-1'' = Inr ()" by code_simp+
  with render_exact [OF sample_projection_ok, of "\<lambda>_. []" "Some sample_route_runtime"] show ?thesis
    by (simp add: sample_projection_def sample_route_runtime_def Let_def)
qed

text \<open>
  C32. Hostname coverage. The servers of a rendered route carry each hostname of the projection
  exactly as often as the projection names it, redirects lead to a name that is proxied, and the
  maintenance page of the same projection serves the same hostnames, each exactly once and in
  order. No hostname is lost or added when a workshop enters maintenance.
\<close>

theorem rendered_hostnames_covered:
  assumes ok: "projection_ok p" and rendered: "render sha256_hex p (Some rt) = Inr r"
    and pub: "pr_public_hostname p = Some pub" and database: "pr_database_ref p = Some d"
  shows "rr_contents r = Some (concat (map block_text (route_blocks d pub p rt))) \<and>
    mset (concat (map block_names (route_blocks d pub p rt))) = mset (served_hostnames pub p) \<and>
    (\<exists>names. OdooServer names d (rt_odoo_upstream rt) \<in> set (route_blocks d pub p rt) \<and> pub \<in> set names \<and>
       canonical_hostname pub (pr_custom_hostnames p) \<in> set names) \<and>
    (\<exists>r'. render_maintenance sha256_hex p = Inr r' \<and>
       rr_contents r' = Some (concat (map maintenance_server (maintenance_hostnames pub p)))) \<and>
    set (maintenance_hostnames pub p) = set (served_hostnames pub p) \<and>
    sorted_wrt (<) (maintenance_hostnames pub p)"
proof -
  have present: "pr_disposition p = Present"
    using ok pub by (cases "pr_disposition p") (auto simp: projection_ok_def)
  then have mode: "(rt_paperless_upstream rt = None) = (pr_paperless_hostname p = None)"
      and customs: "customs_ok (pr_custom_hostnames p)"
    using ok rendered by (auto simp: projection_ok_def render_def result_simps)
  have "rr_contents r = Some (concat (map block_text (route_blocks d pub p rt)))"
    using rendered present pub database
    by (auto simp: render_def result_simps route_config_blocks [symmetric])
  moreover have "\<exists>names. OdooServer names d (rt_odoo_upstream rt) \<in> set (route_blocks d pub p rt) \<and>
      pub \<in> set names \<and> canonical_hostname pub (pr_custom_hostnames p) \<in> set names"
    by (cases "filter ch_canonical (pr_custom_hostnames p)")
       (auto simp: route_blocks_def Let_def canonical_hostname_def canonical_custom_def)
  moreover have "\<exists>r'. render_maintenance sha256_hex p = Inr r' \<and>
      rr_contents r' = Some (concat (map maintenance_server (maintenance_hostnames pub p)))"
    using present pub by (simp add: render_maintenance_def)
  ultimately show ?thesis
    using route_blocks_names [OF customs mode] set_maintenance_hostnames maintenance_hostnames_sorted by blast
qed

theorem rendered_hostnames_covered_witness:
  "set (maintenance_hostnames ''shop.example.test'' sample_projection) =
     set (served_hostnames ''shop.example.test'' sample_projection)"
proof -
  have "validate_name ''odoo-1'' = Inr ()" "validate_name ''paperless-1'' = Inr ()" by code_simp+
  then obtain r where r: "render (\<lambda>_. []) sample_projection (Some sample_route_runtime) = Inr r"
    by (simp add: render_def sample_projection_def sample_route_runtime_def ensure_def)
  have "pr_public_hostname sample_projection = Some ''shop.example.test''"
      "pr_database_ref sample_projection = Some (opaque_database_ref 0x123e4567e89b42d3a456426614174000)"
    by (simp_all add: sample_projection_def)
  from rendered_hostnames_covered [OF sample_projection_ok r this] show ?thesis by blast
qed

end
