(* ===== verification/Route_Set_Sealer.thy ===== *)
theory Route_Set_Sealer
  imports Route_Projection
begin

text \<open>
  The seal of an immutable route-set generation: intents and identities of
  \<open>src/docker_driver/gateway.rs\<close>, and the sealer of
  \<open>src/docker_driver/route_set_generation_fs.rs\<close>, which writes route files and an evidence
  manifest, folds every row into a SHA-256 preimage, and can be run again over what an interrupted
  attempt left behind.

  The staging directory is the list of its route files by workshop (the name of a file is the
  workshop's id with a fixed extension) and the bytes of the manifest. Operating system calls
  succeed; what they can refuse is not part of the model. \<open>to_vec\<close> and \<open>from_slice\<close> stand for
  the JSON library on evidence rows and \<open>sha256_hex\<close> for SHA-256 in hexadecimal.
\<close>

section \<open>Publication kinds, intents and identities\<close>

datatype io_error = InvalidInput str | InvalidState str | OtherIo str

datatype route_set_publication_kind = Projection | RecoveryMaintenance | RecoveryRestore | Startup

fun publication_kind_as_str :: "route_set_publication_kind \<Rightarrow> str" where
  "publication_kind_as_str Projection = ''projection''"
| "publication_kind_as_str RecoveryMaintenance = ''recovery_maintenance''"
| "publication_kind_as_str RecoveryRestore = ''recovery_restore''"
| "publication_kind_as_str Startup = ''startup''"

fun selector_suffix :: "route_set_publication_kind \<Rightarrow> str" where
  "selector_suffix Projection = ''projection''"
| "selector_suffix RecoveryMaintenance = ''recovery-maintenance''"
| "selector_suffix RecoveryRestore = ''recovery-restore''"
| "selector_suffix Startup = ''startup''"

definition generation_name :: "uuid \<Rightarrow> route_set_publication_kind \<Rightarrow> str" where
  "generation_name publication_id kind =
     ''route-'' @ uuid_simple publication_id @ ''-'' @ selector_suffix kind"

datatype publication_scope = FleetPublication uuid | WorkshopPublication uuid i64

record route_set_generation_intent =
  in_protocol_version :: "8 word"
  in_publication_id :: uuid
  in_publication_kind :: route_set_publication_kind
  in_global_fence_token :: i64
  in_scope :: publication_scope

record route_set_generation_identity =
  id_protocol_version :: "8 word"
  id_publication_id :: uuid
  id_publication_kind :: route_set_publication_kind
  id_global_fence_token :: i64
  id_route_set_digest :: str
  id_scope :: publication_scope

text \<open>The match on kind and scope that intents and identities share.\<close>

definition scope_valid :: "route_set_publication_kind \<Rightarrow> publication_scope \<Rightarrow> bool" where
  "scope_valid kind scope =
     (case (kind, scope) of
        (Startup, FleetPublication run) \<Rightarrow> \<not> is_nil run
      | (Startup, WorkshopPublication _ _) \<Rightarrow> False
      | (_, WorkshopPublication w fence) \<Rightarrow> \<not> is_nil w \<and> sint fence > 0
      | (_, FleetPublication _) \<Rightarrow> False)"

definition intent_validate :: "route_set_generation_intent \<Rightarrow> io_error + unit" where
  "intent_validate i =
     (if in_protocol_version i \<noteq> 1 \<or> is_nil (in_publication_id i) \<or> sint (in_global_fence_token i) \<le> 0 \<or>
         \<not> scope_valid (in_publication_kind i) (in_scope i)
      then Inl (InvalidInput ''route-set generation intent is invalid'') else Inr ())"

definition intent_new ::
  "uuid \<Rightarrow> route_set_publication_kind \<Rightarrow> i64 \<Rightarrow> uuid \<Rightarrow> i64 \<Rightarrow> io_error + route_set_generation_intent" where
  "intent_new publication_id kind fence workshop route_fence =
     (let i = \<lparr>in_protocol_version = 1, in_publication_id = publication_id, in_publication_kind = kind,
               in_global_fence_token = fence, in_scope = WorkshopPublication workshop route_fence\<rparr>
      in and_then (intent_validate i) (\<lambda>_. Inr i))"

definition intent_new_startup :: "uuid \<Rightarrow> uuid \<Rightarrow> i64 \<Rightarrow> io_error + route_set_generation_intent" where
  "intent_new_startup publication_id run fence =
     (let i = \<lparr>in_protocol_version = 1, in_publication_id = publication_id, in_publication_kind = Startup,
               in_global_fence_token = fence, in_scope = FleetPublication run\<rparr>
      in and_then (intent_validate i) (\<lambda>_. Inr i))"

fun startup_effect_run_id :: "publication_scope \<Rightarrow> uuid option" where
  "startup_effect_run_id (FleetPublication run) = Some run"
| "startup_effect_run_id (WorkshopPublication _ _) = None"

fun target_scope :: "publication_scope \<Rightarrow> (uuid \<times> i64) option" where
  "target_scope (FleetPublication _) = None"
| "target_scope (WorkshopPublication w fence) = Some (w, fence)"

definition validate_sha256_digest :: "str \<Rightarrow> driver_error + unit" where
  "validate_sha256_digest v = ensure (valid_sha256 v) (internal ''gateway generation digest is invalid'')"

definition identity_validate :: "route_set_generation_identity \<Rightarrow> driver_error + unit" where
  "identity_validate i =
     (if id_protocol_version i \<noteq> 1 \<or> is_nil (id_publication_id i) \<or> sint (id_global_fence_token i) \<le> 0 \<or>
         \<not> scope_valid (id_publication_kind i) (id_scope i)
      then Inl (internal ''route-set generation identity is invalid'')
      else validate_sha256_digest (id_route_set_digest i))"

definition identity_new ::
  "uuid \<Rightarrow> route_set_publication_kind \<Rightarrow> i64 \<Rightarrow> uuid \<Rightarrow> i64 \<Rightarrow> str
     \<Rightarrow> driver_error + route_set_generation_identity" where
  "identity_new publication_id kind fence workshop route_fence digest =
     (let i = \<lparr>id_protocol_version = 1, id_publication_id = publication_id, id_publication_kind = kind,
               id_global_fence_token = fence, id_route_set_digest = digest,
               id_scope = WorkshopPublication workshop route_fence\<rparr>
      in and_then (identity_validate i) (\<lambda>_. Inr i))"

definition identity_new_startup ::
  "uuid \<Rightarrow> uuid \<Rightarrow> i64 \<Rightarrow> str \<Rightarrow> driver_error + route_set_generation_identity" where
  "identity_new_startup publication_id run fence digest =
     (let i = \<lparr>id_protocol_version = 1, id_publication_id = publication_id, id_publication_kind = Startup,
               id_global_fence_token = fence, id_route_set_digest = digest, id_scope = FleetPublication run\<rparr>
      in and_then (identity_validate i) (\<lambda>_. Inr i))"

fun driver_message :: "driver_error \<Rightarrow> str" where
  "driver_message (DriverError _ m) = m"
| "driver_message DriverPanic = []"

definition intent_identity ::
  "route_set_generation_intent \<Rightarrow> str \<Rightarrow> io_error + route_set_generation_identity" where
  "intent_identity i digest =
     map_err (\<lambda>e. OtherIo (driver_message e))
       (case in_scope i of
          FleetPublication run \<Rightarrow>
            identity_new_startup (in_publication_id i) run (in_global_fence_token i) digest
        | WorkshopPublication w fence \<Rightarrow>
            identity_new (in_publication_id i) (in_publication_kind i) (in_global_fence_token i) w fence digest)"

definition ensure_identity_matches_intent ::
  "route_set_generation_identity \<Rightarrow> route_set_generation_intent \<Rightarrow> io_error + unit" where
  "ensure_identity_matches_intent d i =
     and_then (map_err (\<lambda>e. OtherIo (driver_message e)) (identity_validate d)) (\<lambda>_.
       if id_publication_id d \<noteq> in_publication_id i \<or> id_publication_kind d \<noteq> in_publication_kind i \<or>
          id_global_fence_token d \<noteq> in_global_fence_token i \<or>
          startup_effect_run_id (id_scope d) \<noteq> startup_effect_run_id (in_scope i) \<or>
          target_scope (id_scope d) \<noteq> target_scope (in_scope i)
       then Inl (InvalidState ''route-set identity differs from intent'') else Inr ())"


section \<open>Evidence rows\<close>

record route_set_seal_evidence =
  se_workshop_id :: uuid
  se_projection_generation :: i64
  se_projection_digest :: str
  se_disposition :: route_disposition
  se_applied_rendered_digest :: "str option"
  se_rendered_digest :: str

definition MAX_ROUTES :: nat where "MAX_ROUTES = 500"
definition MAX_ROUTE_BYTES :: nat where "MAX_ROUTE_BYTES = 65536"
definition MAX_EVIDENCE_LINE_BYTES :: nat where "MAX_EVIDENCE_LINE_BYTES = 512"

definition DIGEST_DOMAIN :: str where
  "DIGEST_DOMAIN = ''mb-route-set-publication-v1'' @ [CHR 0x00]"

definition digest_bytes :: "(str \<Rightarrow> str) \<Rightarrow> str \<Rightarrow> str" where
  "digest_bytes sha256_hex bytes = ''sha256:'' @ sha256_hex bytes"

definition validate_route_bytes :: "str \<Rightarrow> io_error + unit" where
  "validate_route_bytes contents =
     ensure (\<not> (contents = [] \<or> length contents > MAX_ROUTE_BYTES \<or> CHR 0x00 \<in> set contents \<or>
               \<not> ends_with contents [CHR 0x0A]))
       (InvalidInput ''route configuration must be bounded, non-empty, NUL-free, and newline terminated'')"

definition validate_digest :: "str \<Rightarrow> str \<Rightarrow> io_error + unit" where
  "validate_digest v description = ensure (valid_sha256 v) (InvalidInput (description @ '' is invalid''))"

definition validate_projection :: "i64 \<Rightarrow> str \<Rightarrow> io_error + unit" where
  "validate_projection generation digest =
     and_then (ensure (sint generation > 0) (InvalidInput ''projection generation must be positive'')) (\<lambda>_.
       validate_digest digest ''projection digest'')"

definition validate_optional_digest :: "str option \<Rightarrow> io_error + unit" where
  "validate_optional_digest v =
     (case v of None \<Rightarrow> Inr () | Some d \<Rightarrow> validate_digest d ''applied rendered digest'')"

definition validate_seal_evidence :: "(str \<Rightarrow> str) \<Rightarrow> route_set_seal_evidence \<Rightarrow> io_error + unit" where
  "validate_seal_evidence sha256_hex e =
     and_then (ensure (\<not> is_nil (se_workshop_id e)) (InvalidInput ''route-set workshop is nil'')) (\<lambda>_.
     and_then (validate_projection (se_projection_generation e) (se_projection_digest e)) (\<lambda>_.
     and_then (validate_digest (se_rendered_digest e) ''rendered digest'') (\<lambda>_.
     and_then (validate_optional_digest (se_applied_rendered_digest e)) (\<lambda>_.
       ensure (\<not> (se_disposition e = Absent \<and> se_rendered_digest e \<noteq> digest_bytes sha256_hex []))
         (InvalidInput ''absent route must use canonical empty digest'')))))"

definition validate_counts :: "nat \<Rightarrow> nat \<Rightarrow> io_error + unit" where
  "validate_counts total_rows present =
     ensure (\<not> (total_rows > MAX_ROUTES \<or> present > total_rows)) (InvalidInput ''route-set counts are outside their bounds'')"

definition evidence_line ::
  "(str \<Rightarrow> str) \<Rightarrow> (route_set_seal_evidence \<Rightarrow> str) \<Rightarrow> route_set_seal_evidence \<Rightarrow> io_error + str" where
  "evidence_line sha256_hex to_vec e =
     and_then (validate_seal_evidence sha256_hex e) (\<lambda>_.
       (let line = to_vec e @ [CHR 0x0A] in
        if length line > MAX_EVIDENCE_LINE_BYTES
        then Inl (InvalidInput ''route-set evidence exceeds its bound'') else Inr line))"

text \<open>
  The next line of the manifest and what is left of it: byte by byte up to a newline, with an
  error for a line that is too long or cut off.
\<close>

fun read_evidence_loop :: "str \<Rightarrow> str \<Rightarrow> io_error + str option \<times> str" where
  "read_evidence_loop line [] =
     (if line = [] then Inr (None, []) else Inl (InvalidState ''route-set evidence is truncated''))"
| "read_evidence_loop line (b # rest) =
     (if length (line @ [b]) > MAX_EVIDENCE_LINE_BYTES
      then Inl (InvalidState ''route-set evidence exceeds its bound'')
      else if b = CHR 0x0A then Inr (Some (line @ [b]), rest)
      else read_evidence_loop (line @ [b]) rest)"

definition read_evidence_line :: "str \<Rightarrow> io_error + str option \<times> str" where
  "read_evidence_line bytes = read_evidence_loop [] bytes"


section \<open>The digest preimage\<close>

text \<open>Big-endian bytes at a fixed width: \<open>to_be_bytes\<close> and \<open>Uuid::as_bytes\<close>.\<close>

primrec be_bytes :: "nat \<Rightarrow> nat \<Rightarrow> str" where
  "be_bytes 0 n = []"
| "be_bytes (Suc w) n = be_bytes w (n div 256) @ [char_of (n mod 256)]"

definition update_field :: "str \<Rightarrow> io_error + str" where
  "update_field v =
     (if length v < 2 ^ 32 then Inr (be_bytes 4 (length v) @ v)
      else Inl (InvalidInput ''route-set digest field exceeds its bound''))"

definition update_optional_field :: "str option \<Rightarrow> io_error + str" where
  "update_optional_field v =
     (case v of Some d \<Rightarrow> update_field d | None \<Rightarrow> Inr (be_bytes 4 (2 ^ 32 - 1)))"

text \<open>The bytes one row adds to the preimage.\<close>

definition fold_evidence :: "route_set_seal_evidence \<Rightarrow> io_error + str" where
  "fold_evidence e =
     and_then (update_field (se_projection_digest e)) (\<lambda>projection.
     and_then (update_field (disposition_as_str (se_disposition e))) (\<lambda>disposition.
     and_then (update_optional_field (se_applied_rendered_digest e)) (\<lambda>applied.
     and_then (update_field (se_rendered_digest e)) (\<lambda>rendered.
       Inr (be_bytes 16 (unat (se_workshop_id e)) @ be_bytes 8 (unat (se_projection_generation e)) @
            projection @ disposition @ applied @ rendered)))))"


section \<open>The sealer\<close>

record sealer =
  sl_intent :: route_set_generation_intent
  sl_routes :: "(uuid \<times> str) list"
  sl_manifest :: str
  sl_reader :: str
  sl_exhausted :: bool
  sl_preimage :: str
  sl_previous :: "uuid option"
  sl_route_count :: nat
  sl_present_count :: nat

text \<open>\<open>begin_seal\<close> on a staging directory with the given route files and manifest.\<close>

definition begin_seal :: "route_set_generation_intent \<Rightarrow> (uuid \<times> str) list \<Rightarrow> str \<Rightarrow> sealer" where
  "begin_seal i routes manifest =
     \<lparr>sl_intent = i, sl_routes = routes, sl_manifest = manifest, sl_reader = manifest,
      sl_exhausted = False, sl_preimage = DIGEST_DOMAIN, sl_previous = None, sl_route_count = 0,
      sl_present_count = 0\<rparr>"

definition validate_next :: "sealer \<Rightarrow> uuid \<Rightarrow> io_error + unit" where
  "validate_next s workshop =
     ensure (\<not> (is_nil workshop \<or> (case sl_previous s of None \<Rightarrow> False | Some p \<Rightarrow> p \<ge> workshop)))
       (InvalidInput ''route-set evidence must be strictly non-nil workshop ordered'')"

definition validate_capacity :: "sealer \<Rightarrow> io_error + unit" where
  "validate_capacity s =
     ensure (\<not> sl_route_count s \<ge> MAX_ROUTES) (InvalidInput ''route-set count exceeds its bound'')"

definition read_bounded :: "str \<Rightarrow> nat \<Rightarrow> io_error + str" where
  "read_bounded bytes bound =
     (if length bytes > bound then Inl (InvalidState ''generation file exceeds its bound'') else Inr bytes)"

definition write_create_only_or_verify ::
  "(uuid \<times> str) list \<Rightarrow> uuid \<Rightarrow> str \<Rightarrow> io_error + (uuid \<times> str) list" where
  "write_create_only_or_verify routes workshop bytes =
     (case map_of routes workshop of
        None \<Rightarrow> Inr (routes @ [(workshop, bytes)])
      | Some existing \<Rightarrow>
          and_then (read_bounded existing MAX_ROUTE_BYTES) (\<lambda>existing.
            if existing \<noteq> bytes then Inl (InvalidState ''preexisting route-set route differs'')
            else Inr routes))"

text \<open>
  The route file a row needs to have, as \<open>record\<close> and \<open>verify_evidence_manifest\<close> check it; the
  two use different messages.
\<close>

definition check_route_file ::
  "str \<Rightarrow> str \<Rightarrow> (str \<Rightarrow> str) \<Rightarrow> (uuid \<times> str) list \<Rightarrow> route_set_seal_evidence \<Rightarrow> io_error + unit" where
  "check_route_file differs staged sha256_hex routes e =
     (case (se_disposition e, map_of routes (se_workshop_id e)) of
        (Present, None) \<Rightarrow> Inl (OtherIo ''not found'')
      | (Present, Some file) \<Rightarrow>
          and_then (read_bounded file MAX_ROUTE_BYTES) (\<lambda>bytes.
          and_then (validate_route_bytes bytes) (\<lambda>_.
            ensure (digest_bytes sha256_hex bytes = se_rendered_digest e)
              (InvalidState differs)))
      | (Absent, None) \<Rightarrow> Inr ()
      | (Absent, Some _) \<Rightarrow> Inl (InvalidState staged))"

text \<open>Consuming the next line of an earlier attempt, or appending the line.\<close>

definition record_line :: "sealer \<Rightarrow> str \<Rightarrow> io_error + sealer" where
  "record_line s line =
     (if \<not> sl_exhausted s then
        and_then (read_evidence_line (sl_reader s)) (\<lambda>(existing, rest).
          case existing of
            Some l \<Rightarrow> if l = line then Inr (s\<lparr>sl_reader := rest\<rparr>)
                      else Inl (InvalidState ''preexisting route-set evidence differs'')
          | None \<Rightarrow> Inr (s\<lparr>sl_reader := rest, sl_exhausted := True, sl_manifest := sl_manifest s @ line\<rparr>))
      else Inr (s\<lparr>sl_manifest := sl_manifest s @ line\<rparr>))"

definition record_evidence ::
  "(str \<Rightarrow> str) \<Rightarrow> (route_set_seal_evidence \<Rightarrow> str) \<Rightarrow> sealer \<Rightarrow> route_set_seal_evidence \<Rightarrow> io_error + sealer" where
  "record_evidence sha256_hex to_vec s e =
     and_then (validate_next s (se_workshop_id e)) (\<lambda>_.
     and_then (validate_capacity s) (\<lambda>_.
     and_then (validate_seal_evidence sha256_hex e) (\<lambda>_.
     and_then (check_route_file ''route-set route differs from evidence'' ''absent route has staged bytes''
       sha256_hex (sl_routes s) e) (\<lambda>_.
     and_then (evidence_line sha256_hex to_vec e) (\<lambda>line.
     and_then (record_line s line) (\<lambda>s.
     and_then (fold_evidence e) (\<lambda>bytes.
       Inr (s\<lparr>sl_preimage := sl_preimage s @ bytes, sl_previous := Some (se_workshop_id e),
              sl_route_count := sl_route_count s + 1,
              sl_present_count := (if se_disposition e = Present then sl_present_count s + 1
                                   else sl_present_count s)\<rparr>))))))))"

definition stage_present_with_baseline ::
  "(str \<Rightarrow> str) \<Rightarrow> (route_set_seal_evidence \<Rightarrow> str) \<Rightarrow> sealer \<Rightarrow> uuid \<Rightarrow> i64 \<Rightarrow> str \<Rightarrow> str option \<Rightarrow> str
     \<Rightarrow> io_error + route_set_seal_evidence \<times> sealer" where
  "stage_present_with_baseline sha256_hex to_vec s workshop generation projection_digest applied contents =
     and_then (validate_next s workshop) (\<lambda>_.
     and_then (validate_capacity s) (\<lambda>_.
     and_then (validate_projection generation projection_digest) (\<lambda>_.
     and_then (validate_optional_digest applied) (\<lambda>_.
     and_then (validate_route_bytes contents) (\<lambda>_.
     and_then (write_create_only_or_verify (sl_routes s) workshop contents) (\<lambda>routes.
       (let e = \<lparr>se_workshop_id = workshop, se_projection_generation = generation,
                 se_projection_digest = projection_digest, se_disposition = Present,
                 se_applied_rendered_digest = applied,
                 se_rendered_digest = digest_bytes sha256_hex contents\<rparr>
        in and_then (record_evidence sha256_hex to_vec (s\<lparr>sl_routes := routes\<rparr>) e) (\<lambda>s. Inr (e, s)))))))))"

definition stage_absent_with_baseline ::
  "(str \<Rightarrow> str) \<Rightarrow> (route_set_seal_evidence \<Rightarrow> str) \<Rightarrow> sealer \<Rightarrow> uuid \<Rightarrow> i64 \<Rightarrow> str \<Rightarrow> str option
     \<Rightarrow> io_error + route_set_seal_evidence \<times> sealer" where
  "stage_absent_with_baseline sha256_hex to_vec s workshop generation projection_digest applied =
     and_then (validate_next s workshop) (\<lambda>_.
     and_then (validate_capacity s) (\<lambda>_.
     and_then (validate_projection generation projection_digest) (\<lambda>_.
     and_then (validate_optional_digest applied) (\<lambda>_.
       (let e = \<lparr>se_workshop_id = workshop, se_projection_generation = generation,
                 se_projection_digest = projection_digest, se_disposition = Absent,
                 se_applied_rendered_digest = applied,
                 se_rendered_digest = digest_bytes sha256_hex []\<rparr>
        in and_then (record_evidence sha256_hex to_vec s e) (\<lambda>s. Inr (e, s)))))))"

definition stage_present where
  "stage_present sha256_hex to_vec s workshop generation projection_digest applied contents =
     stage_present_with_baseline sha256_hex to_vec s workshop generation projection_digest (Some applied) contents"

definition stage_absent where
  "stage_absent sha256_hex to_vec s workshop generation projection_digest applied =
     stage_absent_with_baseline sha256_hex to_vec s workshop generation projection_digest (Some applied)"

definition stage_startup_present where
  "stage_startup_present sha256_hex to_vec s workshop generation projection_digest applied contents =
     (if in_publication_kind (sl_intent s) \<noteq> Startup
      then Inl (InvalidInput ''nullable baseline is startup-only'')
      else stage_present_with_baseline sha256_hex to_vec s workshop generation projection_digest applied contents)"

definition stage_startup_absent where
  "stage_startup_absent sha256_hex to_vec s workshop generation projection_digest applied =
     (if in_publication_kind (sl_intent s) \<noteq> Startup
      then Inl (InvalidInput ''nullable baseline is startup-only'')
      else stage_absent_with_baseline sha256_hex to_vec s workshop generation projection_digest applied)"

text \<open>
  \<open>finish\<close> and the part of \<open>finish_seal\<close> that decides: the number of route files has to be the
  number of present rows, and the identity carries the digest of the preimage.
\<close>

definition finish_seal ::
  "(str \<Rightarrow> str) \<Rightarrow> sealer \<Rightarrow> io_error + route_set_generation_identity \<times> nat \<times> nat" where
  "finish_seal sha256_hex s =
     and_then (validate_counts (sl_route_count s) (sl_present_count s)) (\<lambda>_.
     and_then (ensure (length (sl_routes s) \<le> MAX_ROUTES)
       (InvalidState ''route-set file count exceeds its bound'')) (\<lambda>_.
     and_then (ensure (length (sl_routes s) = sl_present_count s)
       (InvalidState ''route-set staging membership differs from evidence'')) (\<lambda>_.
     and_then (intent_identity (sl_intent s) (''sha256:'' @ sha256_hex (sl_preimage s))) (\<lambda>identity.
       Inr (identity, sl_route_count s, sl_present_count s)))))"

definition finish_sealer ::
  "(str \<Rightarrow> str) \<Rightarrow> sealer \<Rightarrow> io_error + route_set_generation_identity \<times> nat \<times> nat" where
  "finish_sealer sha256_hex s =
     and_then (ensure (\<not> (sl_route_count s = 0 \<and> startup_effect_run_id (in_scope (sl_intent s)) = None))
       (InvalidInput ''workshop-scoped route-set must contain at least one route'')) (\<lambda>_.
     and_then (if sl_exhausted s then Inr ()
               else and_then (read_evidence_line (sl_reader s)) (\<lambda>(existing, _).
                 ensure (existing = None) (InvalidState ''route-set manifest has unconsumed rows''))) (\<lambda>_.
       finish_seal sha256_hex s))"



section \<open>Verification of a sealed manifest\<close>

lemma read_evidence_loop_shrinks:
  "read_evidence_loop line bytes = Inr (Some l, rest) \<Longrightarrow> length rest < length bytes"
  by (induction line bytes rule: read_evidence_loop.induct) (auto split: if_splits)

text \<open>
  The loop of \<open>verify_evidence_manifest\<close> with its local variables: previous workshop, counts and
  preimage. Every line read is shorter than what it is read from, so the loop ends.
\<close>

function (sequential) verify_manifest_loop ::
  "(str \<Rightarrow> str) \<Rightarrow> (route_set_seal_evidence \<Rightarrow> str) \<Rightarrow> (str \<Rightarrow> route_set_seal_evidence option)
     \<Rightarrow> (uuid \<times> str) list \<Rightarrow> uuid option \<Rightarrow> nat \<Rightarrow> nat \<Rightarrow> str \<Rightarrow> str \<Rightarrow> io_error + nat \<times> nat \<times> str" where
  "verify_manifest_loop sha256_hex to_vec from_slice routes previous total_rows present preimage bytes =
     (case read_evidence_line bytes of
        Inl e \<Rightarrow> Inl e
      | Inr (None, _) \<Rightarrow> Inr (total_rows, present, preimage)
      | Inr (Some line, rest) \<Rightarrow>
          and_then (ok_or (from_slice (butlast line)) (InvalidState ''route-set evidence is invalid'')) (\<lambda>e.
          and_then (evidence_line sha256_hex to_vec e) (\<lambda>canonical.
          and_then (ensure (\<not> (canonical \<noteq> line \<or> (case previous of None \<Rightarrow> False | Some p \<Rightarrow> p \<ge> se_workshop_id e)))
            (InvalidState ''route-set evidence is not canonical ordered'')) (\<lambda>_.
          and_then (ensure (\<not> total_rows + 1 > MAX_ROUTES) (InvalidState ''route-set evidence exceeds count bound'')) (\<lambda>_.
          and_then (check_route_file ''sealed route differs from evidence'' ''absent sealed route has bytes''
            sha256_hex routes e) (\<lambda>_.
          and_then (fold_evidence e) (\<lambda>folded.
            verify_manifest_loop sha256_hex to_vec from_slice routes (Some (se_workshop_id e)) (total_rows + 1)
              (if se_disposition e = Present then present + 1 else present) (preimage @ folded) rest)))))))"
  by pat_completeness auto
termination
  by (relation "measure (\<lambda>(_, _, _, _, _, _, _, _, bytes). length bytes)")
     (auto simp: read_evidence_line_def dest: read_evidence_loop_shrinks)

declare verify_manifest_loop.simps [simp del]

definition verify_evidence_manifest ::
  "(str \<Rightarrow> str) \<Rightarrow> (route_set_seal_evidence \<Rightarrow> str) \<Rightarrow> (str \<Rightarrow> route_set_seal_evidence option)
     \<Rightarrow> (uuid \<times> str) list \<Rightarrow> str \<Rightarrow> nat \<Rightarrow> nat \<Rightarrow> str \<Rightarrow> io_error + unit" where
  "verify_evidence_manifest sha256_hex to_vec from_slice routes manifest expected_total expected_present expected_digest =
     and_then (validate_counts expected_total expected_present) (\<lambda>_.
     and_then (validate_digest expected_digest ''route-set digest'') (\<lambda>_.
     and_then (verify_manifest_loop sha256_hex to_vec from_slice routes None 0 0 DIGEST_DOMAIN manifest)
       (\<lambda>(total_rows, present, preimage).
     and_then (ensure (total_rows = expected_total \<and> present = expected_present)
       (InvalidState ''route-set evidence cardinality differs'')) (\<lambda>_.
       ensure (''sha256:'' @ sha256_hex preimage = expected_digest)
         (InvalidState ''route-set digest differs from evidence'')))))"


section \<open>Rows to stage\<close>

text \<open>One row of a staging run: what the sealer's caller passes, contents for a present route.\<close>

record stage_row =
  sr_workshop :: uuid
  sr_generation :: i64
  sr_projection_digest :: str
  sr_applied :: "str option"
  sr_contents :: "str option"

definition stage_row ::
  "(str \<Rightarrow> str) \<Rightarrow> (route_set_seal_evidence \<Rightarrow> str) \<Rightarrow> sealer \<Rightarrow> stage_row \<Rightarrow> io_error + sealer" where
  "stage_row sha256_hex to_vec s r =
     and_then
       (case sr_contents r of
          Some c \<Rightarrow> stage_present_with_baseline sha256_hex to_vec s (sr_workshop r) (sr_generation r)
                      (sr_projection_digest r) (sr_applied r) c
        | None \<Rightarrow> stage_absent_with_baseline sha256_hex to_vec s (sr_workshop r) (sr_generation r)
                    (sr_projection_digest r) (sr_applied r))
       (\<lambda>(_, s). Inr s)"

definition row_evidence :: "(str \<Rightarrow> str) \<Rightarrow> stage_row \<Rightarrow> route_set_seal_evidence" where
  "row_evidence sha256_hex r =
     \<lparr>se_workshop_id = sr_workshop r, se_projection_generation = sr_generation r,
      se_projection_digest = sr_projection_digest r,
      se_disposition = (if sr_contents r = None then Absent else Present),
      se_applied_rendered_digest = sr_applied r,
      se_rendered_digest = digest_bytes sha256_hex (case sr_contents r of None \<Rightarrow> [] | Some c \<Rightarrow> c)\<rparr>"

definition row_line :: "(str \<Rightarrow> str) \<Rightarrow> (route_set_seal_evidence \<Rightarrow> str) \<Rightarrow> stage_row \<Rightarrow> str" where
  "row_line sha256_hex to_vec r = to_vec (row_evidence sha256_hex r) @ [CHR 0x0A]"

text \<open>The bytes a valid row adds to the preimage, and the files of a list of rows.\<close>

definition field_bytes :: "str \<Rightarrow> str" where
  "field_bytes v = be_bytes 4 (length v) @ v"

definition evidence_bytes :: "route_set_seal_evidence \<Rightarrow> str" where
  "evidence_bytes e =
     be_bytes 16 (unat (se_workshop_id e)) @ be_bytes 8 (unat (se_projection_generation e)) @
     field_bytes (se_projection_digest e) @ field_bytes (disposition_as_str (se_disposition e)) @
     (case se_applied_rendered_digest e of None \<Rightarrow> be_bytes 4 (2 ^ 32 - 1) | Some d \<Rightarrow> field_bytes d) @
     field_bytes (se_rendered_digest e)"

text \<open>
  A row the sealer can take: valid evidence that fits a manifest line without a newline of its own,
  and route bytes the filesystem layer accepts.
\<close>

definition row_stageable ::
  "(str \<Rightarrow> str) \<Rightarrow> (route_set_seal_evidence \<Rightarrow> str) \<Rightarrow> stage_row \<Rightarrow> bool" where
  "row_stageable sha256_hex to_vec r \<longleftrightarrow>
     validate_seal_evidence sha256_hex (row_evidence sha256_hex r) = Inr () \<and>
     length (row_line sha256_hex to_vec r) \<le> MAX_EVIDENCE_LINE_BYTES \<and>
     CHR 0x0A \<notin> set (to_vec (row_evidence sha256_hex r)) \<and>
     (case sr_contents r of None \<Rightarrow> True | Some c \<Rightarrow> validate_route_bytes c = Inr ())"



section \<open>Lemmas\<close>

lemma validate_route_bytes_Inr:
  "validate_route_bytes c = Inr u \<longleftrightarrow>
     c \<noteq> [] \<and> length c \<le> 65536 \<and> CHR 0x00 \<notin> set c \<and> ends_with c [CHR 0x0A]"
  by (auto simp: validate_route_bytes_def result_simps MAX_ROUTE_BYTES_def)

lemma length_valid_sha256_bound: "valid_sha256 d \<Longrightarrow> length d < 2 ^ 32 - 1"
  by (simp add: valid_sha256_length)

lemma validate_seal_evidence_Inr:
  "validate_seal_evidence sha256_hex e = Inr u \<longleftrightarrow>
     \<not> is_nil (se_workshop_id e) \<and> sint (se_projection_generation e) > 0 \<and> valid_sha256 (se_projection_digest e) \<and>
     valid_sha256 (se_rendered_digest e) \<and>
     (\<forall>d. se_applied_rendered_digest e = Some d \<longrightarrow> valid_sha256 d) \<and>
     (se_disposition e = Absent \<longrightarrow> se_rendered_digest e = digest_bytes sha256_hex [])"
  by (auto simp: validate_seal_evidence_def validate_projection_def validate_digest_def
        validate_optional_digest_def result_simps split: option.splits)

lemma update_field_small: "length v < 2 ^ 32 \<Longrightarrow> update_field v = Inr (field_bytes v)"
  by (simp add: update_field_def field_bytes_def)

lemma length_disposition_as_str: "length (disposition_as_str d) < 2 ^ 32"
  by (cases d) simp_all

lemma fold_evidence_valid:
  assumes "validate_seal_evidence sha256_hex e = Inr ()"
  shows "fold_evidence e = Inr (evidence_bytes e)"
proof -
  have bound: "valid_sha256 d \<Longrightarrow> length d < 2 ^ 32" for d
    using length_valid_sha256_bound [of d] by simp
  have "update_optional_field (se_applied_rendered_digest e) =
      Inr (case se_applied_rendered_digest e of None \<Rightarrow> be_bytes 4 (2 ^ 32 - 1) | Some d \<Rightarrow> field_bytes d)"
    using assms bound
    by (auto simp: update_optional_field_def validate_seal_evidence_Inr update_field_small split: option.splits)
  then show ?thesis
    using assms bound length_disposition_as_str
    by (simp add: fold_evidence_def evidence_bytes_def validate_seal_evidence_Inr update_field_small)
qed

lemma row_stageable_line:
  "row_stageable sha256_hex to_vec r \<Longrightarrow>
     evidence_line sha256_hex to_vec (row_evidence sha256_hex r) = Inr (row_line sha256_hex to_vec r)"
  by (simp add: row_stageable_def evidence_line_def row_line_def Let_def)

text \<open>Reading a line that was written gives that line back.\<close>

lemma read_evidence_loop_line:
  "CHR 0x0A \<notin> set body \<Longrightarrow> length acc + length body + 1 \<le> MAX_EVIDENCE_LINE_BYTES \<Longrightarrow>
     read_evidence_loop acc (body @ CHR 0x0A # rest) = Inr (Some (acc @ body @ [CHR 0x0A]), rest)"
  by (induction body arbitrary: acc) auto

lemma read_row_line:
  "row_stageable sha256_hex to_vec r \<Longrightarrow>
     read_evidence_line (row_line sha256_hex to_vec r @ rest) = Inr (Some (row_line sha256_hex to_vec r), rest)"
  using read_evidence_loop_line [of "to_vec (row_evidence sha256_hex r)" "[]" rest]
  by (simp add: read_evidence_line_def row_line_def row_stageable_def)

lemma read_evidence_line_Nil: "read_evidence_line [] = Inr (None, [])"
  by (simp add: read_evidence_line_def)

text \<open>
  A directory an interrupted attempt may have left for these rows: some of the files, each with the
  contents of its row, and none for an absent row.
\<close>

definition files_consistent :: "(uuid \<times> str) list \<Rightarrow> stage_row list \<Rightarrow> bool" where
  "files_consistent routes rows \<longleftrightarrow>
     distinct (map fst routes) \<and>
     (\<forall>r \<in> set rows. map_of routes (sr_workshop r) \<in> {None, sr_contents r})"

definition write_file :: "(uuid \<times> str) list \<Rightarrow> stage_row \<Rightarrow> (uuid \<times> str) list" where
  "write_file routes r =
     (case (sr_contents r, map_of routes (sr_workshop r)) of
        (Some c, None) \<Rightarrow> routes @ [(sr_workshop r, c)] | _ \<Rightarrow> routes)"

text \<open>The state after one more row, when the manifest part is already known to succeed.\<close>

definition after_row :: "(str \<Rightarrow> str) \<Rightarrow> sealer \<Rightarrow> stage_row \<Rightarrow> sealer" where
  "after_row sha256_hex s r =
     s\<lparr>sl_preimage := sl_preimage s @ evidence_bytes (row_evidence sha256_hex r),
       sl_previous := Some (sr_workshop r), sl_route_count := sl_route_count s + 1,
       sl_present_count := sl_present_count s + (if sr_contents r = None then 0 else 1)\<rparr>"

lemma stage_row_step:
  assumes row: "row_stageable sha256_hex to_vec r"
    and order: "case sl_previous s of None \<Rightarrow> True | Some p \<Rightarrow> p < sr_workshop r"
    and capacity: "sl_route_count s < MAX_ROUTES"
    and files: "map_of (sl_routes s) (sr_workshop r) \<in> {None, sr_contents r}"
    and line: "record_line (s\<lparr>sl_routes := write_file (sl_routes s) r\<rparr>) (row_line sha256_hex to_vec r) = Inr s'"
  shows "stage_row sha256_hex to_vec s r = Inr (after_row sha256_hex s' r)"
proof -
  let ?e = "row_evidence sha256_hex r"
  have valid: "validate_seal_evidence sha256_hex ?e = Inr ()" using row by (simp add: row_stageable_def)
  then have checks: "validate_next s (sr_workshop r) = Inr ()" "validate_capacity s = Inr ()"
      "validate_projection (sr_generation r) (sr_projection_digest r) = Inr ()"
      "validate_optional_digest (sr_applied r) = Inr ()"
    using order capacity
    by (auto simp: validate_seal_evidence_Inr row_evidence_def validate_next_def validate_capacity_def
          validate_projection_def validate_digest_def validate_optional_digest_def ensure_def
          split: option.splits)
  have ch: "validate_next (s\<lparr>sl_routes := rs\<rparr>) w = validate_next s w"
      "validate_capacity (s\<lparr>sl_routes := rs\<rparr>) = validate_capacity s" for rs w
    by (simp_all add: validate_next_def validate_capacity_def)
  have ident: "s\<lparr>sl_routes := sl_routes s\<rparr> = s" by simp
  have fields: "se_workshop_id ?e = sr_workshop r" "se_disposition ?e = (if sr_contents r = None then Absent else Present)"
    by (simp_all add: row_evidence_def)
  have rec: "record_evidence sha256_hex to_vec (s\<lparr>sl_routes := write_file (sl_routes s) r\<rparr>) ?e
      = Inr (after_row sha256_hex s' r)"
    if "\<And>m n. check_route_file m n sha256_hex (write_file (sl_routes s) r) ?e = Inr ()"
    using that checks ch valid fold_evidence_valid [OF valid] row_stageable_line [OF row] line fields
    by (simp add: record_evidence_def after_row_def)
  show ?thesis
  proof (cases "sr_contents r")
    case None
    then have nofile: "map_of (sl_routes s) (sr_workshop r) = None" using files by auto
    then have "check_route_file m n sha256_hex (sl_routes s) ?e = Inr ()" for m n
      using None by (simp add: check_route_file_def fields)
    moreover have "write_file (sl_routes s) r = sl_routes s" using None by (simp add: write_file_def)
    moreover have "?e = \<lparr>se_workshop_id = sr_workshop r, se_projection_generation = sr_generation r,
        se_projection_digest = sr_projection_digest r, se_disposition = Absent,
        se_applied_rendered_digest = sr_applied r, se_rendered_digest = digest_bytes sha256_hex []\<rparr>"
      using None by (simp add: row_evidence_def)
    note eq = this [symmetric]
    ultimately show ?thesis
      using None rec checks
      by (simp add: stage_row_def stage_absent_with_baseline_def Let_def eq ident)
  next
    case (Some c)
    have c: "validate_route_bytes c = Inr ()" using row Some by (simp add: row_stageable_def)
    then have bounded: "read_bounded c MAX_ROUTE_BYTES = Inr c"
      by (simp add: read_bounded_def validate_route_bytes_Inr MAX_ROUTE_BYTES_def)
    have "write_create_only_or_verify (sl_routes s) (sr_workshop r) c = Inr (write_file (sl_routes s) r)"
      using files Some bounded by (auto simp: write_create_only_or_verify_def write_file_def)
    moreover have "map_of (write_file (sl_routes s) r) (sr_workshop r) = Some c"
      using files Some by (auto simp: write_file_def map_add_def split: option.splits)
    then have "check_route_file m n sha256_hex (write_file (sl_routes s) r) ?e = Inr ()" for m n
      using Some c bounded by (simp add: check_route_file_def fields ensure_def) (simp add: row_evidence_def)
    moreover have "?e = \<lparr>se_workshop_id = sr_workshop r, se_projection_generation = sr_generation r,
        se_projection_digest = sr_projection_digest r, se_disposition = Present,
        se_applied_rendered_digest = sr_applied r, se_rendered_digest = digest_bytes sha256_hex c\<rparr>"
      using Some by (simp add: row_evidence_def)
    note eq = this [symmetric]
    ultimately show ?thesis
      using Some c rec checks
      by (simp add: stage_row_def stage_present_with_baseline_def Let_def eq)
  qed
qed


lemma write_file_keys:
  "fst ` set (write_file routes r) = fst ` set routes \<union> (if sr_contents r = None then {} else {sr_workshop r})"
proof (cases "map_of routes (sr_workshop r)")
  case (Some c)
  then have "sr_workshop r \<in> fst ` set routes" by (metis domI dom_map_of_conv_image_fst)
  with Some show ?thesis by (auto simp: write_file_def split: option.splits)
qed (simp add: write_file_def split: option.splits)

lemma write_file_distinct: "distinct (map fst routes) \<Longrightarrow> distinct (map fst (write_file routes r))"
  by (auto simp: write_file_def map_of_eq_None_iff split: option.splits)

lemma map_of_write_file:
  "map_of (write_file routes r) w =
     (if w = sr_workshop r \<and> map_of routes w = None then sr_contents r else map_of routes w)"
  by (auto simp: write_file_def map_add_def split: option.splits)

lemma files_consistent_step:
  assumes "files_consistent routes (r # rows)" and "sr_workshop r \<notin> sr_workshop ` set rows"
  shows "files_consistent (write_file routes r) rows"
proof -
  have "map_of (write_file routes r) (sr_workshop q) = map_of routes (sr_workshop q)" if "q \<in> set rows" for q
    using assms(2) that by (metis imageI map_of_write_file)
  with assms(1) show ?thesis by (simp add: files_consistent_def write_file_distinct)
qed

lemma foldl_write_file:
  assumes "files_consistent routes rows" and "distinct (map sr_workshop rows)"
  shows "distinct (map fst (foldl write_file routes rows))"
    and "fst ` set (foldl write_file routes rows) =
      fst ` set routes \<union> sr_workshop ` {r \<in> set rows. sr_contents r \<noteq> None}"
    and "\<And>r. r \<in> set rows \<Longrightarrow> map_of (foldl write_file routes rows) (sr_workshop r) = sr_contents r"
  using assms
proof (induction rows arbitrary: routes)
  case Nil
  { case 1 then show ?case by (simp add: files_consistent_def) }
  { case 2 then show ?case by simp }
  { case 3 then show ?case by simp }
next
  case (Cons r rows)
  have step: "files_consistent (write_file routes r) rows"
    if "files_consistent routes (r # rows)" "distinct (map sr_workshop (r # rows))" for routes
    using files_consistent_step [OF that(1)] that(2) by simp
  { case 1 then show ?case using Cons.IH(1) [OF step [OF 1]] by simp }
  { case 2
    then show ?case using Cons.IH(2) [OF step [OF 2]] by (auto simp: write_file_keys) }
  { case (3 x)
    note IH = Cons.IH(3) [OF _ step [OF 3(2,3)]]
    show ?case
    proof (cases "x = r")
      case True
      have keep: "map_of (foldl write_file R xs) w = map_of R w" if "w \<notin> sr_workshop ` set xs" for R xs w
        using that by (induction xs arbitrary: R) (auto simp: map_of_write_file)
      have "map_of (write_file routes r) (sr_workshop r) = sr_contents r"
        using 3(2) by (auto simp: files_consistent_def map_of_write_file)
      then show ?thesis using True 3(3) keep by simp
    next
      case False
      then show ?thesis using 3 IH by simp
    qed }
qed

text \<open>
  A whole staging run over a directory that holds the lines of the first \<open>j\<close> rows and some of
  their files: it succeeds, completes the manifest and the files, and hashes every row.
\<close>

lemma stage_rows_run:
  assumes "\<forall>r \<in> set rows. row_stageable sha256_hex to_vec r"
    and "ascending (sl_previous s) (map sr_workshop rows)"
    and "sl_route_count s + length rows \<le> MAX_ROUTES"
    and "files_consistent (sl_routes s) rows"
    and "j \<le> length rows"
    and "if sl_exhausted s then j = 0
         else sl_reader s = concat (map (row_line sha256_hex to_vec) (take j rows))"
  shows "\<exists>s'. try_fold (stage_row sha256_hex to_vec) s rows = Inr s' \<and>
    sl_intent s' = sl_intent s \<and> sl_routes s' = foldl write_file (sl_routes s) rows \<and>
    sl_manifest s' = sl_manifest s @ concat (map (row_line sha256_hex to_vec) (drop j rows)) \<and>
    sl_preimage s' = sl_preimage s @ concat (map (\<lambda>r. evidence_bytes (row_evidence sha256_hex r)) rows) \<and>
    sl_route_count s' = sl_route_count s + length rows \<and>
    sl_present_count s' = sl_present_count s + length (filter (\<lambda>r. sr_contents r \<noteq> None) rows) \<and>
    (sl_exhausted s' \<or> sl_reader s' = [])"
  using assms
proof (induction rows arbitrary: s j)
  case Nil
  then show ?case by (auto split: if_splits)
next
  case (Cons r rows)
  let ?L = "row_line sha256_hex to_vec"
  have r: "row_stageable sha256_hex to_vec r" using Cons.prems(1) by simp
  have order: "case sl_previous s of None \<Rightarrow> True | Some p \<Rightarrow> p < sr_workshop r"
      and asc: "ascending (Some (sr_workshop r)) (map sr_workshop rows)"
    using Cons.prems(2) by (auto split: option.splits)
  have files: "map_of (sl_routes s) (sr_workshop r) \<in> {None, sr_contents r}"
    using Cons.prems(4) by (simp add: files_consistent_def)
  define s1 where "s1 = s\<lparr>sl_routes := write_file (sl_routes s) r\<rparr>"
  obtain s2 where s2: "record_line s1 (?L r) = Inr s2" "sl_intent s2 = sl_intent s"
      "sl_routes s2 = write_file (sl_routes s) r"
      "sl_manifest s2 = sl_manifest s @ (if j = 0 then ?L r else [])"
      "sl_preimage s2 = sl_preimage s" "sl_route_count s2 = sl_route_count s"
      "sl_present_count s2 = sl_present_count s"
      "if sl_exhausted s2 then j \<le> 1 \<and> j - 1 = 0
       else sl_reader s2 = concat (map ?L (take (j - 1) rows))"
  proof (cases j)
    case 0
    then have "record_line s1 (?L r) =
        Inr (if sl_exhausted s then s1\<lparr>sl_manifest := sl_manifest s @ ?L r\<rparr>
             else s1\<lparr>sl_reader := [], sl_exhausted := True, sl_manifest := sl_manifest s @ ?L r\<rparr>)"
      using Cons.prems(6) by (simp add: record_line_def s1_def read_evidence_line_Nil split: if_splits)
    with 0 that show ?thesis by (auto simp: s1_def split: if_splits)
  next
    case (Suc i)
    then have "\<not> sl_exhausted s" and "sl_reader s = ?L r @ concat (map ?L (take i rows))"
      using Cons.prems(6) by (auto split: if_splits)
    then have "record_line s1 (?L r) = Inr (s1\<lparr>sl_reader := concat (map ?L (take i rows))\<rparr>)"
      using read_row_line [OF r] by (simp add: record_line_def s1_def)
    with Suc that \<open>\<not> sl_exhausted s\<close> show ?thesis by (auto simp: s1_def)
  qed
  define s3 where "s3 = after_row sha256_hex s2 r"
  have step: "stage_row sha256_hex to_vec s r = Inr s3"
    unfolding s3_def
    by (rule stage_row_step [OF r order _ files]) (use Cons.prems(3) s2(1) in \<open>simp_all add: s1_def\<close>)
  have s3: "sl_intent s3 = sl_intent s" "sl_routes s3 = write_file (sl_routes s) r"
      "sl_manifest s3 = sl_manifest s @ (if j = 0 then ?L r else [])"
      "sl_preimage s3 = sl_preimage s @ evidence_bytes (row_evidence sha256_hex r)"
      "sl_previous s3 = Some (sr_workshop r)" "sl_route_count s3 = Suc (sl_route_count s)"
      "sl_present_count s3 = sl_present_count s + (if sr_contents r = None then 0 else 1)"
      "if sl_exhausted s3 then j - 1 = 0 else sl_reader s3 = concat (map ?L (take (j - 1) rows))"
    using s2 by (auto simp: s3_def after_row_def split: if_splits)
  have fresh: "sr_workshop r \<notin> sr_workshop ` set rows"
    using asc by (auto simp: ascending_Some)
  have "\<exists>s'. try_fold (stage_row sha256_hex to_vec) s3 rows = Inr s' \<and>
    sl_intent s' = sl_intent s3 \<and> sl_routes s' = foldl write_file (sl_routes s3) rows \<and>
    sl_manifest s' = sl_manifest s3 @ concat (map ?L (drop (j - 1) rows)) \<and>
    sl_preimage s' = sl_preimage s3 @ concat (map (\<lambda>r. evidence_bytes (row_evidence sha256_hex r)) rows) \<and>
    sl_route_count s' = sl_route_count s3 + length rows \<and>
    sl_present_count s' = sl_present_count s3 + length (filter (\<lambda>r. sr_contents r \<noteq> None) rows) \<and>
    (sl_exhausted s' \<or> sl_reader s' = [])"
    by (rule Cons.IH)
       (use Cons.prems asc s3 files_consistent_step [OF Cons.prems(4) fresh] in \<open>simp_all split: if_splits\<close>)
  then show ?case
    using s3(1-7) step by (cases j) (auto simp: s3(2))
qed


lemma check_route_file_ok:
  assumes "row_stageable sha256_hex to_vec r" and "map_of routes (sr_workshop r) = sr_contents r"
  shows "check_route_file differs staged sha256_hex routes (row_evidence sha256_hex r) = Inr ()"
proof (cases "sr_contents r")
  case None
  then show ?thesis using assms by (simp add: check_route_file_def row_evidence_def)
next
  case (Some c)
  then have "validate_route_bytes c = Inr ()" using assms by (simp add: row_stageable_def)
  then show ?thesis
    using assms Some
    by (simp add: check_route_file_def row_evidence_def read_bounded_def ensure_def)
       (simp add: validate_route_bytes_Inr MAX_ROUTE_BYTES_def)
qed

lemma verify_rows_run:
  assumes "\<forall>r \<in> set rows. row_stageable sha256_hex to_vec r"
    and "ascending previous (map sr_workshop rows)"
    and "n + length rows \<le> MAX_ROUTES"
    and "\<forall>r \<in> set rows. map_of routes (sr_workshop r) = sr_contents r"
    and "\<forall>r \<in> set rows. from_slice (to_vec (row_evidence sha256_hex r)) = Some (row_evidence sha256_hex r)"
  shows "verify_manifest_loop sha256_hex to_vec from_slice routes previous n present preimage
      (concat (map (row_line sha256_hex to_vec) rows)) =
    Inr (n + length rows, present + length (filter (\<lambda>r. sr_contents r \<noteq> None) rows),
         preimage @ concat (map (\<lambda>r. evidence_bytes (row_evidence sha256_hex r)) rows))"
  using assms
proof (induction rows arbitrary: previous n present preimage)
  case Nil
  then show ?case by (subst verify_manifest_loop.simps) (simp add: read_evidence_line_Nil)
next
  case (Cons r rows)
  let ?e = "row_evidence sha256_hex r" and ?rest = "concat (map (row_line sha256_hex to_vec) rows)"
  have r: "row_stageable sha256_hex to_vec r" using Cons.prems(1) by simp
  have order: "\<not> (case previous of None \<Rightarrow> False | Some p \<Rightarrow> p \<ge> sr_workshop r)"
    using Cons.prems(2) by (auto split: option.splits)
  have parsed: "from_slice (butlast (row_line sha256_hex to_vec r)) = Some ?e"
    using Cons.prems(5) by (simp add: row_line_def)
  have fields: "se_workshop_id ?e = sr_workshop r" "(se_disposition ?e = Present) = (sr_contents r \<noteq> None)"
    by (simp_all add: row_evidence_def)
  have ok: "ensure (\<not> (row_line sha256_hex to_vec r \<noteq> row_line sha256_hex to_vec r \<or>
      (case previous of None \<Rightarrow> False | Some p \<Rightarrow> p \<ge> se_workshop_id ?e))) E = Inr ()" for E :: io_error
    using order unfolding fields by (simp add: ensure_def)
  have "validate_seal_evidence sha256_hex ?e = Inr ()" using r by (simp add: row_stageable_def)
  note fold = fold_evidence_valid [OF this]
  have IH: "verify_manifest_loop sha256_hex to_vec from_slice routes (Some (sr_workshop r)) (n + 1) p q ?rest =
    Inr (n + 1 + length rows, p + length (filter (\<lambda>r. sr_contents r \<noteq> None) rows),
         q @ concat (map (\<lambda>r. evidence_bytes (row_evidence sha256_hex r)) rows))" for p q
    by (rule Cons.IH) (use Cons.prems in simp_all)
  have "ensure (\<not> n + 1 > MAX_ROUTES) E = Inr ()" for E :: io_error
    using Cons.prems(3) by (simp add: ensure_def)
  moreover have "check_route_file m n sha256_hex routes ?e = Inr ()" for m n
    by (rule check_route_file_ok [OF r]) (use Cons.prems(4) in simp)
  ultimately show ?case
    by (subst verify_manifest_loop.simps)
       (simp add: read_row_line [OF r] parsed row_stageable_line [OF r] ok [simplified] fold fields IH [simplified])
qed

lemma intent_identity_valid:
  assumes "intent_validate i = Inr ()" and "valid_sha256 d"
  shows "\<exists>t. intent_identity i d = Inr t \<and> id_route_set_digest t = d \<and>
    ensure_identity_matches_intent t i = Inr ()"
proof (cases "in_scope i")
  case (FleetPublication run)
  then have "in_publication_kind i = Startup"
    using assms(1) by (cases "in_publication_kind i") (auto simp: intent_validate_def scope_valid_def split: if_splits)
  with FleetPublication assms show ?thesis
    by (intro exI [of _ "\<lparr>id_protocol_version = 1, id_publication_id = in_publication_id i,
          id_publication_kind = Startup, id_global_fence_token = in_global_fence_token i,
          id_route_set_digest = d, id_scope = FleetPublication run\<rparr>"])
       (simp add: intent_identity_def identity_new_startup_def identity_validate_def intent_validate_def
          validate_sha256_digest_def ensure_identity_matches_intent_def ensure_def Let_def split: if_splits)
next
  case (WorkshopPublication w fence)
  with assms show ?thesis
    by (intro exI [of _ "\<lparr>id_protocol_version = 1, id_publication_id = in_publication_id i,
          id_publication_kind = in_publication_kind i, id_global_fence_token = in_global_fence_token i,
          id_route_set_digest = d, id_scope = WorkshopPublication w fence\<rparr>"])
       (simp add: intent_identity_def identity_new_def identity_validate_def intent_validate_def
          validate_sha256_digest_def ensure_identity_matches_intent_def ensure_def Let_def split: if_splits)
qed

section \<open>The preimage determines the rows\<close>

lemma length_be_bytes [simp]: "length (be_bytes w n) = w"
  by (induction w arbitrary: n) auto

lemma be_bytes_inj: "m < 256 ^ w \<Longrightarrow> n < 256 ^ w \<Longrightarrow> be_bytes w m = be_bytes w n \<Longrightarrow> m = n"
proof (induction w arbitrary: m n)
  case (Suc w)
  from Suc.prems have "be_bytes w (m div 256) = be_bytes w (n div 256)"
    and "(char_of (m mod 256) :: char) = char_of (n mod 256)" by auto
  moreover from Suc.prems have "m div 256 < 256 ^ w" "n div 256 < 256 ^ w"
    by (simp_all add: less_mult_imp_div_less mult.commute)
  moreover have "m mod 256 = n mod 256"
    using arg_cong [OF \<open>char_of (m mod 256) = char_of (n mod 256)\<close>, where f = "of_char :: char \<Rightarrow> nat"] by simp
  ultimately have "m div 256 = n div 256" and "m mod 256 = n mod 256" using Suc.IH by auto
  then show ?case by (metis div_mult_mod_eq)
qed simp

lemma be_bytes_word_inj:
  "be_bytes 16 (unat u) = be_bytes 16 (unat v) \<longleftrightarrow> u = (v :: uuid)"
  "be_bytes 8 (unat a) = be_bytes 8 (unat b) \<longleftrightarrow> a = (b :: i64)"
proof -
  have "unat w < 256 ^ 16" for w :: uuid using unsigned_less [of w] by simp
  then show "be_bytes 16 (unat u) = be_bytes 16 (unat v) \<longleftrightarrow> u = v"
    using be_bytes_inj word_unat_eq_iff by metis
  have "unat w < 256 ^ 8" for w :: i64 using unsigned_less [of w] by simp
  then show "be_bytes 8 (unat a) = be_bytes 8 (unat b) \<longleftrightarrow> a = b"
    using be_bytes_inj word_unat_eq_iff by metis
qed

text \<open>Length-framed fields can be split off unambiguously.\<close>

lemma field_bytes_split:
  assumes "field_bytes v @ x = field_bytes w @ y" and "length v < 2 ^ 32" and "length w < 2 ^ 32"
  shows "v = w \<and> x = y"
proof -
  have "be_bytes 4 (length v) = be_bytes 4 (length w)" and "v @ x = w @ y"
    using assms(1) by (auto simp: field_bytes_def append_eq_append_conv)
  then show ?thesis
    using be_bytes_inj [of "length v" 4 "length w"] assms(2,3) by simp
qed

lemma optional_bytes_split:
  assumes "(case a of None \<Rightarrow> be_bytes 4 (2 ^ 32 - 1) | Some d \<Rightarrow> field_bytes d) @ x =
      (case b of None \<Rightarrow> be_bytes 4 (2 ^ 32 - 1) | Some d \<Rightarrow> field_bytes d) @ y"
    and "\<forall>d. a = Some d \<longrightarrow> length d < 2 ^ 32 - 1" and "\<forall>d. b = Some d \<longrightarrow> length d < 2 ^ 32 - 1"
  shows "a = b \<and> x = y"
proof -
  have none: "be_bytes 4 (2 ^ 32 - 1) @ x = field_bytes d @ y \<Longrightarrow> length d < 2 ^ 32 - 1 \<Longrightarrow> False" for d x y
  proof -
    assume eq: "be_bytes 4 (2 ^ 32 - 1) @ x = field_bytes d @ y" and d: "length d < 2 ^ 32 - 1"
    then have "be_bytes 4 (2 ^ 32 - 1) = be_bytes 4 (length d)"
      by (auto simp: field_bytes_def append_eq_append_conv)
    then show False using be_bytes_inj [of "2 ^ 32 - 1" 4 "length d"] d by simp
  qed
  show ?thesis
  proof (cases a; cases b)
    fix c d assume "a = Some c" "b = Some d"
    with assms show ?thesis using field_bytes_split [of c x d y] by auto
  qed (use assms none in \<open>auto dest: sym\<close>)
qed

lemma evidence_bytes_split:
  assumes "evidence_bytes e @ x = evidence_bytes f @ y"
    and "validate_seal_evidence sha256_hex e = Inr ()" and "validate_seal_evidence sha256_hex f = Inr ()"
  shows "e = f \<and> x = y"
proof -
  let ?o = "\<lambda>a. case a of None \<Rightarrow> be_bytes 4 (2 ^ 32 - 1) | Some d \<Rightarrow> field_bytes d"
  have small: "valid_sha256 d \<Longrightarrow> length d < 2 ^ 32" "valid_sha256 d \<Longrightarrow> length d < 2 ^ 32 - 1" for d
    using length_valid_sha256_bound [of d] by simp_all
  have e: "valid_sha256 (se_projection_digest e)" "valid_sha256 (se_rendered_digest e)"
      "\<forall>d. se_applied_rendered_digest e = Some d \<longrightarrow> length d < 2 ^ 32 - 1"
    and f: "valid_sha256 (se_projection_digest f)" "valid_sha256 (se_rendered_digest f)"
      "\<forall>d. se_applied_rendered_digest f = Some d \<longrightarrow> length d < 2 ^ 32 - 1"
    using assms(2,3) small by (auto simp: validate_seal_evidence_Inr)
  from assms(1) have w: "se_workshop_id e = se_workshop_id f"
      and g: "se_projection_generation e = se_projection_generation f"
      and p: "field_bytes (se_projection_digest e) @ field_bytes (disposition_as_str (se_disposition e)) @
        ?o (se_applied_rendered_digest e) @ field_bytes (se_rendered_digest e) @ x =
        field_bytes (se_projection_digest f) @ field_bytes (disposition_as_str (se_disposition f)) @
        ?o (se_applied_rendered_digest f) @ field_bytes (se_rendered_digest f) @ y"
    by (auto simp: evidence_bytes_def be_bytes_word_inj append_eq_append_conv)
  from field_bytes_split [OF p small(1) [OF e(1)] small(1) [OF f(1)]]
  have pd: "se_projection_digest e = se_projection_digest f"
      and d: "field_bytes (disposition_as_str (se_disposition e)) @
        ?o (se_applied_rendered_digest e) @ field_bytes (se_rendered_digest e) @ x =
        field_bytes (disposition_as_str (se_disposition f)) @
        ?o (se_applied_rendered_digest f) @ field_bytes (se_rendered_digest f) @ y" by auto
  from field_bytes_split [OF d length_disposition_as_str length_disposition_as_str]
  have ds: "se_disposition e = se_disposition f"
      and a: "?o (se_applied_rendered_digest e) @ field_bytes (se_rendered_digest e) @ x =
        ?o (se_applied_rendered_digest f) @ field_bytes (se_rendered_digest f) @ y"
    by (auto simp: disposition_text.print_inj)
  from optional_bytes_split [OF a e(3) f(3)]
  have ap: "se_applied_rendered_digest e = se_applied_rendered_digest f"
      and r: "field_bytes (se_rendered_digest e) @ x = field_bytes (se_rendered_digest f) @ y" by auto
  from field_bytes_split [OF r small(1) [OF e(2)] small(1) [OF f(2)]] w g pd ds ap show ?thesis
    by (cases e, cases f) simp
qed

section \<open>Properties\<close>

lemma present_file_count:
  assumes "files_consistent routes rows" and "distinct (map sr_workshop rows)"
    and "fst ` set routes \<subseteq> sr_workshop ` {r \<in> set rows. sr_contents r \<noteq> None}"
  shows "length (foldl write_file routes rows) = length (filter (\<lambda>r. sr_contents r \<noteq> None) rows)"
proof -
  let ?files = "foldl write_file routes rows" and ?present = "filter (\<lambda>r. sr_contents r \<noteq> None) rows"
  have "length ?files = card (fst ` set ?files)"
    using distinct_card [OF foldl_write_file(1) [OF assms(1,2)]] by simp
  also have "fst ` set ?files = sr_workshop ` set ?present"
    using foldl_write_file(2) [OF assms(1,2)] assms(3) by auto
  also have "card (sr_workshop ` set ?present) = length ?present"
    using distinct_card [of "map sr_workshop ?present"] distinct_map_filter [OF assms(2)] by simp
  finally show ?thesis .
qed

text \<open>Staging over a resumed directory, finishing and verifying.\<close>

lemma seal_run:
  assumes "intent_validate i = Inr ()"
    and "rows \<noteq> [] \<or> in_publication_kind i = Startup"
    and "length rows \<le> MAX_ROUTES"
    and "ascending None (map sr_workshop rows)"
    and "\<forall>r \<in> set rows. row_stageable sha256_hex to_vec r"
    and "\<forall>r \<in> set rows. from_slice (to_vec (row_evidence sha256_hex r)) = Some (row_evidence sha256_hex r)"
    and "\<forall>bytes. valid_sha256 (''sha256:'' @ sha256_hex bytes)"
    and "j \<le> length rows"
    and "files_consistent routes rows"
    and "fst ` set routes \<subseteq> sr_workshop ` {r \<in> set rows. sr_contents r \<noteq> None}"
  shows "\<exists>s t. try_fold (stage_row sha256_hex to_vec)
        (begin_seal i routes (concat (map (row_line sha256_hex to_vec) (take j rows)))) rows = Inr s \<and>
      finish_sealer sha256_hex s = Inr (t, length rows, length (filter (\<lambda>r. sr_contents r \<noteq> None) rows)) \<and>
      sl_manifest s = concat (map (row_line sha256_hex to_vec) rows) \<and>
      id_route_set_digest t = ''sha256:'' @ sha256_hex
        (DIGEST_DOMAIN @ concat (map (\<lambda>r. evidence_bytes (row_evidence sha256_hex r)) rows)) \<and>
      ensure_identity_matches_intent t i = Inr () \<and>
      verify_evidence_manifest sha256_hex to_vec from_slice (sl_routes s) (sl_manifest s)
        (length rows) (length (filter (\<lambda>r. sr_contents r \<noteq> None) rows)) (id_route_set_digest t) = Inr ()"
proof -
  let ?L = "row_line sha256_hex to_vec" and ?n = "length (filter (\<lambda>r. sr_contents r \<noteq> None) rows)"
  let ?pre = "DIGEST_DOMAIN @ concat (map (\<lambda>r. evidence_bytes (row_evidence sha256_hex r)) rows)"
  let ?b = "begin_seal i routes (concat (map ?L (take j rows)))"
  have distinct: "distinct (map sr_workshop rows)" using assms(4) by (rule ascending_distinct)
  obtain s where s: "try_fold (stage_row sha256_hex to_vec) ?b rows = Inr s" "sl_intent s = i"
      "sl_routes s = foldl write_file routes rows"
      "sl_manifest s = concat (map ?L (take j rows)) @ concat (map ?L (drop j rows))"
      "sl_preimage s = ?pre" "sl_route_count s = length rows" "sl_present_count s = ?n"
      "sl_exhausted s \<or> sl_reader s = []"
    using stage_rows_run [of rows sha256_hex to_vec ?b j] assms by (auto simp: begin_seal_def)
  have manifest: "sl_manifest s = concat (map ?L rows)"
    unfolding s(4) concat_append [symmetric] map_append [symmetric] by simp
  obtain t where t: "intent_identity i (''sha256:'' @ sha256_hex ?pre) = Inr t"
      "id_route_set_digest t = ''sha256:'' @ sha256_hex ?pre" "ensure_identity_matches_intent t i = Inr ()"
    using intent_identity_valid [OF assms(1)] assms(7) by blast
  have counts: "?n \<le> length rows" "length (sl_routes s) = ?n"
    using present_file_count [OF assms(9) distinct assms(10)] by (simp_all add: s(3))
  have "\<not> (rows = [] \<and> startup_effect_run_id (in_scope i) = None)"
    using assms(1,2)
    by (auto simp: intent_validate_def scope_valid_def split: publication_scope.splits if_splits)
  moreover have "finish_seal sha256_hex s = Inr (t, length rows, ?n)"
    using counts t(1) assms(3) le_trans [OF counts(1) assms(3)]
    by (simp add: finish_seal_def validate_counts_def ensure_def s not_less)
  ultimately have "finish_sealer sha256_hex s = Inr (t, length rows, ?n)"
    using s(8) by (auto simp: finish_sealer_def read_evidence_line_Nil ensure_def s(2,6))
  moreover have "verify_evidence_manifest sha256_hex to_vec from_slice (sl_routes s) (sl_manifest s)
      (length rows) ?n (id_route_set_digest t) = Inr ()"
    using verify_rows_run [of rows sha256_hex to_vec None 0 "sl_routes s" from_slice 0 DIGEST_DOMAIN]
      assms(3-7) foldl_write_file(3) [OF assms(9) distinct] counts t(2)
    by (simp add: verify_evidence_manifest_def validate_counts_def validate_digest_def ensure_def manifest
          s(3) not_less)
  ultimately show ?thesis using s(1) manifest t(2,3) by blast
qed


definition sample_row :: "uuid \<Rightarrow> str option \<Rightarrow> stage_row" where
  "sample_row w contents =
     \<lparr>sr_workshop = w, sr_generation = 3, sr_projection_digest = ''sha256:'' @ replicate 64 CHR ''a'',
      sr_applied = None, sr_contents = contents\<rparr>"

definition sample_rows :: "stage_row list" where
  "sample_rows = [sample_row 1 (Some [CHR ''x'', CHR 0x0A]), sample_row 2 None]"

definition sample_sha256_hex :: "str \<Rightarrow> str" where
  "sample_sha256_hex bytes = replicate 64 CHR ''a''"

definition sample_to_vec :: "route_set_seal_evidence \<Rightarrow> str" where
  "sample_to_vec e = (if se_workshop_id e = 1 then ''1'' else ''2'')"

definition sample_from_slice :: "str \<Rightarrow> route_set_seal_evidence option" where
  "sample_from_slice v =
     Some (row_evidence sample_sha256_hex (if v = ''1'' then hd sample_rows else last sample_rows))"

definition sample_intent :: route_set_generation_intent where
  "sample_intent = \<lparr>in_protocol_version = 1, in_publication_id = 7, in_publication_kind = Projection,
     in_global_fence_token = 4, in_scope = WorkshopPublication 1 2\<rparr>"

lemma sample_digest_valid: "valid_sha256 (''sha256:'' @ replicate 64 CHR ''a'')"
  by code_simp

lemma sample_rows_stageable: "\<forall>r \<in> set sample_rows. row_stageable sample_sha256_hex sample_to_vec r"
  using sample_digest_valid
  by (simp add: sample_rows_def sample_row_def row_stageable_def row_evidence_def row_line_def
        sample_to_vec_def sample_sha256_hex_def digest_bytes_def validate_seal_evidence_Inr
        validate_route_bytes_Inr MAX_EVIDENCE_LINE_BYTES_def is_nil_def ends_with_def)


text \<open>The running hash of \<open>record\<close> and \<open>verify_evidence_manifest\<close>, one row at a time.\<close>

definition hash_row :: "str \<Rightarrow> route_set_seal_evidence \<Rightarrow> io_error + str" where
  "hash_row preimage e = and_then (fold_evidence e) (\<lambda>bytes. Inr (preimage @ bytes))"

lemma hash_rows:
  "\<forall>e \<in> set es. validate_seal_evidence sha256_hex e = Inr () \<Longrightarrow>
     try_fold hash_row preimage es = Inr (preimage @ concat (map evidence_bytes es))"
  by (induction es arbitrary: preimage) (simp_all add: hash_row_def fold_evidence_valid [where sha256_hex = sha256_hex])

text \<open>
  C6. The bytes that are hashed determine the rows: two lists of valid evidence rows with the same
  preimage are equal, so a route-set digest commits to every row, its order and every field.
\<close>

theorem seal_preimage_injective:
  assumes "\<forall>e \<in> set es. validate_seal_evidence sha256_hex e = Inr ()"
    and "\<forall>e \<in> set fs. validate_seal_evidence sha256_hex e = Inr ()"
    and "try_fold hash_row DIGEST_DOMAIN es = Inr preimage"
    and "try_fold hash_row DIGEST_DOMAIN fs = Inr preimage"
  shows "es = fs"
proof -
  have nonempty: "evidence_bytes e \<noteq> []" for e
    by (simp add: evidence_bytes_def flip: length_0_conv)
  have "concat (map evidence_bytes es) = concat (map evidence_bytes fs) \<Longrightarrow> es = fs"
    using assms(1,2)
  proof (induction es arbitrary: fs)
    case Nil
    then show ?case using nonempty by (cases fs) auto
  next
    case (Cons e es)
    then obtain f fs' where fs: "fs = f # fs'" using nonempty by (cases fs) auto
    with Cons.prems have "e = f \<and> concat (map evidence_bytes es) = concat (map evidence_bytes fs')"
      by (intro evidence_bytes_split [of _ _ _ _ sha256_hex]) simp_all
    with Cons.prems fs Cons.IH [of fs'] show ?case by simp
  qed
  moreover have "concat (map evidence_bytes es) = concat (map evidence_bytes fs)"
    using hash_rows [OF assms(1)] hash_rows [OF assms(2)] assms(3,4) by (metis Inr_inject same_append_eq)
  ultimately show ?thesis by simp
qed

theorem seal_preimage_injective_witness:
  "\<exists>preimage. try_fold hash_row DIGEST_DOMAIN (map (row_evidence sample_sha256_hex) sample_rows) = Inr preimage \<and>
     (\<forall>e \<in> set (map (row_evidence sample_sha256_hex) sample_rows).
        validate_seal_evidence sample_sha256_hex e = Inr ()) \<and>
     try_fold hash_row DIGEST_DOMAIN (map (row_evidence sample_sha256_hex) (rev sample_rows)) \<noteq> Inr preimage"
proof -
  let ?es = "map (row_evidence sample_sha256_hex) sample_rows"
  let ?fs = "map (row_evidence sample_sha256_hex) (rev sample_rows)"
  have valid: "\<forall>e \<in> set ?es. validate_seal_evidence sample_sha256_hex e = Inr ()"
      "\<forall>e \<in> set ?fs. validate_seal_evidence sample_sha256_hex e = Inr ()"
    using sample_rows_stageable by (auto simp: row_stageable_def)
  have "?es \<noteq> ?fs" by code_simp
  then show ?thesis
    using seal_preimage_injective [OF valid] hash_rows [OF valid(1)] valid(1) by blast
qed

end
