(* ===== verification/Gateway_Identity.thy ===== *)
theory Gateway_Identity
  imports Route_Set_Sealer
begin

text \<open>
  The identities that \<open>src/docker_driver/gateway.rs\<close> embeds as literals in Nginx configuration
  and reads back from a running worker: startup generations, release overlays, route sets and the
  tagged union of the three. Each is serialised by the JSON library, wrapped in a loopback server
  block and parsed back; \<open>print\<close> and \<open>parse_json\<close> stand for the text form of a JSON value.

  A structure is serialised as an object with its fields in declaration order, so objects here are
  sequences of members in the order of the text, not sorted maps.
\<close>

section \<open>Structures and their JSON form\<close>

text \<open>
  \<open>Deserialize\<close> of a structure with \<open>deny_unknown_fields\<close>: an object with each field once in any
  order, or an array of the fields in declaration order.
\<close>

fun fields_of :: "str list \<Rightarrow> json \<Rightarrow> (str \<times> json) list option" where
  "fields_of ks (JObject ms) =
     (if distinct (map fst ms) \<and> set (map fst ms) = set ks then Some ms else None)"
| "fields_of ks (JArray vs) = (if length vs = length ks then Some (zip ks vs) else None)"
| "fields_of ks _ = None"

definition field :: "(json \<Rightarrow> 'a option) \<Rightarrow> str \<Rightarrow> (str \<times> json) list \<Rightarrow> 'a option" where
  "field conv k ms = Option.bind (map_of ms k) conv"

definition json_as_uuid :: "(str \<Rightarrow> uuid option) \<Rightarrow> json \<Rightarrow> uuid option" where
  "json_as_uuid parse_uuid v = Option.bind (json_as_str v) parse_uuid"

definition json_as_u8 :: "json \<Rightarrow> 8 word option" where
  "json_as_u8 v = Option.bind (json_as_u64 v) (\<lambda>n. if uint n < 256 then Some (ucast n) else None)"

text \<open>A unit variant: its name, or an object whose only member is the name with a null.\<close>

fun variant_name :: "json \<Rightarrow> str option" where
  "variant_name (JString s) = Some s"
| "variant_name (JObject [(s, JNull)]) = Some s"
| "variant_name _ = None"

definition u8_json :: "8 word \<Rightarrow> json" where
  "u8_json n = JNumber (PosInt (ucast n))"

definition i64_json :: "i64 \<Rightarrow> json" where
  "i64_json n = JNumber (if sint n \<ge> 0 then PosInt n else NegInt n)"

definition uuid_json :: "uuid \<Rightarrow> json" where
  "uuid_json u = JString (uuid_hyphenated u)"

lemma json_as_u8_u8_json [simp]: "json_as_u8 (u8_json n) = Some n"
proof -
  have "uint (ucast n :: 64 word) = uint n" by (simp add: uint_up_ucast is_up)
  moreover have "uint n < 256" using uint_lt2p [of n] by simp
  moreover have "ucast (ucast n :: 64 word) = n"
    by (rule bit_word_eqI) (auto simp: bit_unsigned_iff)
  ultimately show ?thesis by (simp add: json_as_u8_def u8_json_def)
qed

lemma json_as_i64_i64_json [simp]: "json_as_i64 (i64_json n) = Some n"
proof (cases "sint n \<ge> 0")
  case True
  then have "uint n = sint n"
    using sint_lt [of n] by (simp add: uint_sint take_bit_int_eq_self)
  with True show ?thesis using sint_lt [of n] by (simp add: i64_json_def)
qed (simp add: i64_json_def)

lemma json_as_uuid_uuid_json:
  "(\<And>u. parse_uuid (uuid_hyphenated u) = Some u) \<Longrightarrow> json_as_uuid parse_uuid (uuid_json u) = Some u"
  by (simp add: json_as_uuid_def uuid_json_def)


text \<open>An enumeration of unit variants, by the names of its variants.\<close>

definition variant_of :: "('a \<Rightarrow> str) \<Rightarrow> 'a list \<Rightarrow> json \<Rightarrow> 'a option" where
  "variant_of as_str variants v =
     Option.bind (variant_name v) (\<lambda>s. find (\<lambda>x. as_str x = s) variants)"

lemma variant_of_as_str:
  assumes "x \<in> set variants" and "\<And>y. as_str y = as_str x \<Longrightarrow> y = x"
  shows "variant_of as_str variants (JString (as_str x)) = Some x"
proof -
  have "find (\<lambda>y. as_str y = as_str x) variants = Some x"
    using assms by (induction variants) auto
  then show ?thesis by (simp add: variant_of_def)
qed


section \<open>Startup generations\<close>

record gateway_generation_identity =
  gi_effect_run_id :: uuid
  gi_sealed_digest :: str

definition gateway_identity_validate :: "gateway_generation_identity \<Rightarrow> driver_error + unit" where
  "gateway_identity_validate i =
     and_then (ensure (\<not> is_nil (gi_effect_run_id i)) (internal ''gateway generation identity is invalid'')) (\<lambda>_.
       ensure (valid_sha256 (gi_sealed_digest i)) (internal ''gateway generation digest is invalid''))"

definition gateway_identity_json :: "gateway_generation_identity \<Rightarrow> json" where
  "gateway_identity_json i =
     JObject [(''effect_run_id'', uuid_json (gi_effect_run_id i)), (''sealed_digest'', JString (gi_sealed_digest i))]"

definition gateway_identity_of_json ::
  "(str \<Rightarrow> uuid option) \<Rightarrow> json \<Rightarrow> gateway_generation_identity option" where
  "gateway_identity_of_json parse_uuid v =
     Option.bind (fields_of [''effect_run_id'', ''sealed_digest''] v) (\<lambda>ms.
     Option.bind (field (json_as_uuid parse_uuid) ''effect_run_id'' ms) (\<lambda>run.
     Option.bind (field json_as_str ''sealed_digest'' ms) (\<lambda>digest.
       Some \<lparr>gi_effect_run_id = run, gi_sealed_digest = digest\<rparr>)))"


section \<open>Release slots, overlays and gateways\<close>

datatype release_target_slot = Blue | Green

fun slot_as_str :: "release_target_slot \<Rightarrow> str" where
  "slot_as_str Blue = ''blue''"
| "slot_as_str Green = ''green''"

definition slot_parse :: "str \<Rightarrow> driver_error + release_target_slot" where
  "slot_parse s =
     (if s = ''blue'' then Inr Blue else if s = ''green'' then Inr Green
      else Inl (internal ''release target slot is invalid''))"

interpretation slot_text: string_enum slot_as_str slot_parse
proof
  fix x show "slot_parse (slot_as_str x) = Inr x" by (cases x) (simp_all add: slot_parse_def)
next
  fix s x show "slot_parse s = Inr x \<Longrightarrow> s = slot_as_str x"
    by (auto simp: slot_parse_def split: if_splits)
qed

datatype release_overlay_kind = MaintenanceOverlay | CandidateOverlay

fun overlay_kind_as_str :: "release_overlay_kind \<Rightarrow> str" where
  "overlay_kind_as_str MaintenanceOverlay = ''maintenance''"
| "overlay_kind_as_str CandidateOverlay = ''candidate''"

record release_overlay_generation_identity =
  ro_protocol_version :: "8 word"
  ro_fleet_run_id :: uuid
  ro_driver_operation_id :: uuid
  ro_original_global_fence_token :: i64
  ro_overlay_kind :: release_overlay_kind
  ro_route_set_digest :: str
  ro_target_slot :: release_target_slot

definition overlay_identity_validate :: "release_overlay_generation_identity \<Rightarrow> driver_error + unit" where
  "overlay_identity_validate i =
     (if ro_protocol_version i \<noteq> 1 \<or> is_nil (ro_fleet_run_id i) \<or> is_nil (ro_driver_operation_id i) \<or>
         sint (ro_original_global_fence_token i) \<le> 0
      then Inl (internal ''release overlay generation identity is invalid'')
      else validate_sha256_digest (ro_route_set_digest i))"

definition overlay_identity_new ::
  "uuid \<Rightarrow> uuid \<Rightarrow> i64 \<Rightarrow> release_overlay_kind \<Rightarrow> str \<Rightarrow> str
     \<Rightarrow> driver_error + release_overlay_generation_identity" where
  "overlay_identity_new run operation fence kind digest slot =
     and_then (slot_parse slot) (\<lambda>slot.
       (let i = \<lparr>ro_protocol_version = 1, ro_fleet_run_id = run, ro_driver_operation_id = operation,
                 ro_original_global_fence_token = fence, ro_overlay_kind = kind,
                 ro_route_set_digest = digest, ro_target_slot = slot\<rparr>
        in and_then (overlay_identity_validate i) (\<lambda>_. Inr i)))"

record release_gateway_generation_identity =
  rg_protocol_version :: "8 word"
  rg_fleet_run_id :: uuid
  rg_driver_action_id :: uuid
  rg_original_driver_fence_token :: i64
  rg_gateway_configuration_digest :: str
  rg_target_slot :: release_target_slot

definition release_gateway_validate :: "release_gateway_generation_identity \<Rightarrow> driver_error + unit" where
  "release_gateway_validate i =
     (if rg_protocol_version i \<noteq> 1 \<or> sint (rg_original_driver_fence_token i) \<le> 0
      then Inl (internal ''release gateway generation identity is invalid'')
      else validate_sha256_digest (rg_gateway_configuration_digest i))"

definition release_gateway_new ::
  "uuid \<Rightarrow> uuid \<Rightarrow> i64 \<Rightarrow> str \<Rightarrow> str \<Rightarrow> driver_error + release_gateway_generation_identity" where
  "release_gateway_new run action fence digest slot =
     and_then (slot_parse slot) (\<lambda>slot.
       (let i = \<lparr>rg_protocol_version = 1, rg_fleet_run_id = run, rg_driver_action_id = action,
                 rg_original_driver_fence_token = fence, rg_gateway_configuration_digest = digest,
                 rg_target_slot = slot\<rparr>
        in and_then (release_gateway_validate i) (\<lambda>_. Inr i)))"

definition overlay_identity_json :: "release_overlay_generation_identity \<Rightarrow> json" where
  "overlay_identity_json i =
     JObject [(''protocol_version'', u8_json (ro_protocol_version i)),
              (''fleet_run_id'', uuid_json (ro_fleet_run_id i)),
              (''driver_operation_id'', uuid_json (ro_driver_operation_id i)),
              (''original_global_fence_token'', i64_json (ro_original_global_fence_token i)),
              (''overlay_kind'', JString (overlay_kind_as_str (ro_overlay_kind i))),
              (''route_set_digest'', JString (ro_route_set_digest i)),
              (''target_slot'', JString (slot_as_str (ro_target_slot i)))]"

definition overlay_identity_of_json ::
  "(str \<Rightarrow> uuid option) \<Rightarrow> json \<Rightarrow> release_overlay_generation_identity option" where
  "overlay_identity_of_json parse_uuid v =
     Option.bind (fields_of [''protocol_version'', ''fleet_run_id'', ''driver_operation_id'',
       ''original_global_fence_token'', ''overlay_kind'', ''route_set_digest'', ''target_slot''] v) (\<lambda>ms.
     Option.bind (field json_as_u8 ''protocol_version'' ms) (\<lambda>version.
     Option.bind (field (json_as_uuid parse_uuid) ''fleet_run_id'' ms) (\<lambda>run.
     Option.bind (field (json_as_uuid parse_uuid) ''driver_operation_id'' ms) (\<lambda>operation.
     Option.bind (field json_as_i64 ''original_global_fence_token'' ms) (\<lambda>fence.
     Option.bind (field (variant_of overlay_kind_as_str [MaintenanceOverlay, CandidateOverlay]) ''overlay_kind'' ms) (\<lambda>kind.
     Option.bind (field json_as_str ''route_set_digest'' ms) (\<lambda>digest.
     Option.bind (field (variant_of slot_as_str [Blue, Green]) ''target_slot'' ms) (\<lambda>slot.
       Some \<lparr>ro_protocol_version = version, ro_fleet_run_id = run, ro_driver_operation_id = operation,
             ro_original_global_fence_token = fence, ro_overlay_kind = kind, ro_route_set_digest = digest,
             ro_target_slot = slot\<rparr>))))))))"

definition release_gateway_json :: "release_gateway_generation_identity \<Rightarrow> json" where
  "release_gateway_json i =
     JObject [(''protocol_version'', u8_json (rg_protocol_version i)),
              (''fleet_run_id'', uuid_json (rg_fleet_run_id i)),
              (''driver_action_id'', uuid_json (rg_driver_action_id i)),
              (''original_driver_fence_token'', i64_json (rg_original_driver_fence_token i)),
              (''gateway_configuration_digest'', JString (rg_gateway_configuration_digest i)),
              (''target_slot'', JString (slot_as_str (rg_target_slot i)))]"

definition release_gateway_of_json ::
  "(str \<Rightarrow> uuid option) \<Rightarrow> json \<Rightarrow> release_gateway_generation_identity option" where
  "release_gateway_of_json parse_uuid v =
     Option.bind (fields_of [''protocol_version'', ''fleet_run_id'', ''driver_action_id'',
       ''original_driver_fence_token'', ''gateway_configuration_digest'', ''target_slot''] v) (\<lambda>ms.
     Option.bind (field json_as_u8 ''protocol_version'' ms) (\<lambda>version.
     Option.bind (field (json_as_uuid parse_uuid) ''fleet_run_id'' ms) (\<lambda>run.
     Option.bind (field (json_as_uuid parse_uuid) ''driver_action_id'' ms) (\<lambda>action.
     Option.bind (field json_as_i64 ''original_driver_fence_token'' ms) (\<lambda>fence.
     Option.bind (field json_as_str ''gateway_configuration_digest'' ms) (\<lambda>digest.
     Option.bind (field (variant_of slot_as_str [Blue, Green]) ''target_slot'' ms) (\<lambda>slot.
       Some \<lparr>rg_protocol_version = version, rg_fleet_run_id = run, rg_driver_action_id = action,
             rg_original_driver_fence_token = fence, rg_gateway_configuration_digest = digest,
             rg_target_slot = slot\<rparr>)))))))"


section \<open>Route-set generations\<close>

text \<open>
  Two wire structures behind an untagged enumeration: the first that fits is taken, and the
  identity has to be valid.
\<close>

definition route_set_identity_json :: "route_set_generation_identity \<Rightarrow> json" where
  "route_set_identity_json i =
     (case id_scope i of
        FleetPublication run \<Rightarrow>
          JObject [(''protocol_version'', u8_json (id_protocol_version i)),
                   (''publication_id'', uuid_json (id_publication_id i)),
                   (''publication_kind'', JString (publication_kind_as_str (id_publication_kind i))),
                   (''startup_effect_run_id'', uuid_json run),
                   (''global_fence_token'', i64_json (id_global_fence_token i)),
                   (''route_set_digest'', JString (id_route_set_digest i))]
      | WorkshopPublication w fence \<Rightarrow>
          JObject [(''protocol_version'', u8_json (id_protocol_version i)),
                   (''publication_id'', uuid_json (id_publication_id i)),
                   (''publication_kind'', JString (publication_kind_as_str (id_publication_kind i))),
                   (''global_fence_token'', i64_json (id_global_fence_token i)),
                   (''target_workshop_id'', uuid_json w),
                   (''target_route_fence_token'', i64_json fence),
                   (''route_set_digest'', JString (id_route_set_digest i))])"

abbreviation publication_kinds :: "route_set_publication_kind list" where
  "publication_kinds \<equiv> [Projection, RecoveryMaintenance, RecoveryRestore, Startup]"

definition startup_wire :: "(str \<Rightarrow> uuid option) \<Rightarrow> json \<Rightarrow> route_set_generation_identity option" where
  "startup_wire parse_uuid v =
     Option.bind (fields_of [''protocol_version'', ''publication_id'', ''publication_kind'',
       ''startup_effect_run_id'', ''global_fence_token'', ''route_set_digest''] v) (\<lambda>ms.
     Option.bind (field json_as_u8 ''protocol_version'' ms) (\<lambda>version.
     Option.bind (field (json_as_uuid parse_uuid) ''publication_id'' ms) (\<lambda>publication.
     Option.bind (field (variant_of publication_kind_as_str publication_kinds) ''publication_kind'' ms) (\<lambda>kind.
     Option.bind (field (json_as_uuid parse_uuid) ''startup_effect_run_id'' ms) (\<lambda>run.
     Option.bind (field json_as_i64 ''global_fence_token'' ms) (\<lambda>fence.
     Option.bind (field json_as_str ''route_set_digest'' ms) (\<lambda>digest.
       Some \<lparr>id_protocol_version = version, id_publication_id = publication, id_publication_kind = kind,
             id_global_fence_token = fence, id_route_set_digest = digest,
             id_scope = FleetPublication run\<rparr>)))))))"

definition workshop_wire :: "(str \<Rightarrow> uuid option) \<Rightarrow> json \<Rightarrow> route_set_generation_identity option" where
  "workshop_wire parse_uuid v =
     Option.bind (fields_of [''protocol_version'', ''publication_id'', ''publication_kind'',
       ''global_fence_token'', ''target_workshop_id'', ''target_route_fence_token'', ''route_set_digest''] v) (\<lambda>ms.
     Option.bind (field json_as_u8 ''protocol_version'' ms) (\<lambda>version.
     Option.bind (field (json_as_uuid parse_uuid) ''publication_id'' ms) (\<lambda>publication.
     Option.bind (field (variant_of publication_kind_as_str publication_kinds) ''publication_kind'' ms) (\<lambda>kind.
     Option.bind (field json_as_i64 ''global_fence_token'' ms) (\<lambda>fence.
     Option.bind (field (json_as_uuid parse_uuid) ''target_workshop_id'' ms) (\<lambda>workshop.
     Option.bind (field json_as_i64 ''target_route_fence_token'' ms) (\<lambda>route_fence.
     Option.bind (field json_as_str ''route_set_digest'' ms) (\<lambda>digest.
       Some \<lparr>id_protocol_version = version, id_publication_id = publication, id_publication_kind = kind,
             id_global_fence_token = fence, id_route_set_digest = digest,
             id_scope = WorkshopPublication workshop route_fence\<rparr>))))))))"

definition route_set_identity_of_json ::
  "(str \<Rightarrow> uuid option) \<Rightarrow> json \<Rightarrow> route_set_generation_identity option" where
  "route_set_identity_of_json parse_uuid v =
     Option.bind (case startup_wire parse_uuid v of Some i \<Rightarrow> Some i | None \<Rightarrow> workshop_wire parse_uuid v)
       (\<lambda>i. if is_ok (identity_validate i) then Some i else None)"


section \<open>The tagged identity of a running worker\<close>

datatype running_route_worker_identity =
    WorkerStartup gateway_generation_identity
  | WorkerReleaseOverlay release_overlay_generation_identity
  | WorkerRouteSet route_set_generation_identity

fun worker_identity_json :: "running_route_worker_identity \<Rightarrow> json" where
  "worker_identity_json (WorkerStartup i) =
     JObject [(''kind'', JString ''startup''), (''identity'', gateway_identity_json i)]"
| "worker_identity_json (WorkerReleaseOverlay i) =
     JObject [(''kind'', JString ''release_overlay''), (''identity'', overlay_identity_json i)]"
| "worker_identity_json (WorkerRouteSet i) =
     JObject [(''kind'', JString ''route_set''), (''identity'', route_set_identity_json i)]"

definition worker_identity_of_json ::
  "(str \<Rightarrow> uuid option) \<Rightarrow> json \<Rightarrow> running_route_worker_identity option" where
  "worker_identity_of_json parse_uuid v =
     Option.bind (json_get_str ''kind'' v) (\<lambda>kind.
     Option.bind (json_get ''identity'' v) (\<lambda>content.
       if kind = ''startup'' then map_option WorkerStartup (gateway_identity_of_json parse_uuid content)
       else if kind = ''release_overlay'' then
         map_option WorkerReleaseOverlay (overlay_identity_of_json parse_uuid content)
       else if kind = ''route_set'' then
         map_option WorkerRouteSet (route_set_identity_of_json parse_uuid content)
       else None))"

fun validate_running_route_worker_identity :: "running_route_worker_identity \<Rightarrow> driver_error + unit" where
  "validate_running_route_worker_identity (WorkerStartup i) = gateway_identity_validate i"
| "validate_running_route_worker_identity (WorkerReleaseOverlay i) = overlay_identity_validate i"
| "validate_running_route_worker_identity (WorkerRouteSet i) = identity_validate i"


section \<open>Server blocks and observations\<close>

definition IDENTITY_SERVER_END :: str where
  "IDENTITY_SERVER_END = CHR 0x27 # lines_text ['';'', ''  }'', ''  location / { return 404; }'', ''}'']"

definition identity_prefix :: "str \<Rightarrow> str \<Rightarrow> str" where
  "identity_prefix port path =
     lines_text [''server {'', ''  listen 127.0.0.1:'' @ port @ '';'', ''  server_name _;'',
       ''  location = '' @ path @ '' {'', ''    default_type application/json;'',
       ''    add_header Cache-Control '' @ [CHR 0x27] @ ''no-store'' @ [CHR 0x27] @ '' always;''] @
     ''    return 200 '' @ [CHR 0x27]"

definition identity_server :: "str \<Rightarrow> str \<Rightarrow> str \<Rightarrow> str" where
  "identity_server port path body = identity_prefix port path @ body @ IDENTITY_SERVER_END"

definition running_route_worker_identity_config ::
  "(json \<Rightarrow> str) \<Rightarrow> running_route_worker_identity \<Rightarrow> driver_error + str" where
  "running_route_worker_identity_config print i =
     and_then (validate_running_route_worker_identity i) (\<lambda>_.
     and_then (ensure (\<not> length (print (worker_identity_json i)) > 2048)
       (internal ''route worker identity exceeded its bound'')) (\<lambda>_.
       Inr (identity_server ''8085'' ''/_mb/route-worker-identity'' (print (worker_identity_json i)))))"

definition gateway_generation_config ::
  "(json \<Rightarrow> str) \<Rightarrow> gateway_generation_identity \<Rightarrow> driver_error + str" where
  "gateway_generation_config print i =
     and_then (gateway_identity_validate i) (\<lambda>_.
     and_then (running_route_worker_identity_config print (WorkerStartup i)) (\<lambda>universal.
       Inr (identity_server ''8081'' ''/_mb/generation'' (print (gateway_identity_json i)) @ universal)))"

definition release_overlay_generation_config ::
  "(json \<Rightarrow> str) \<Rightarrow> release_overlay_generation_identity \<Rightarrow> driver_error + str" where
  "release_overlay_generation_config print i =
     and_then (overlay_identity_validate i) (\<lambda>_.
     and_then (ensure (\<not> length (print (overlay_identity_json i)) > 1024)
       (internal ''release overlay generation identity exceeded its bound'')) (\<lambda>_.
     and_then (running_route_worker_identity_config print (WorkerReleaseOverlay i)) (\<lambda>universal.
       Inr (identity_server ''8083'' ''/_mb/release-overlay-generation''
         (print (overlay_identity_json i)) @ universal))))"

definition route_set_generation_config ::
  "(json \<Rightarrow> str) \<Rightarrow> route_set_generation_identity \<Rightarrow> driver_error + str" where
  "route_set_generation_config print i =
     and_then (identity_validate i) (\<lambda>_.
     and_then (ensure (\<not> length (print (route_set_identity_json i)) > 1024)
       (internal ''route-set generation identity exceeded its bound'')) (\<lambda>_.
     and_then (running_route_worker_identity_config print (WorkerRouteSet i)) (\<lambda>universal.
       Inr (identity_server ''8084'' ''/_mb/route-generation'' (print (route_set_identity_json i)) @ universal))))"

definition release_gateway_generation_config ::
  "(json \<Rightarrow> str) \<Rightarrow> release_gateway_generation_identity \<Rightarrow> driver_error + str" where
  "release_gateway_generation_config print i =
     and_then (release_gateway_validate i) (\<lambda>_.
     and_then (ensure (\<not> length (print (release_gateway_json i)) > 1024)
       (internal ''release gateway generation identity exceeded its bound'')) (\<lambda>_.
       Inr (identity_server ''8082'' ''/_mb/release-generation'' (print (release_gateway_json i)))))"

text \<open>The bounded observation of an identity: \<open>from_slice\<close> and \<open>validate\<close>.\<close>

definition parse_observation ::
  "(str \<Rightarrow> json option) \<Rightarrow> (json \<Rightarrow> 'i option) \<Rightarrow> ('i \<Rightarrow> driver_error + unit) \<Rightarrow> str \<Rightarrow> driver_error + 'i" where
  "parse_observation parse_json of_json validate bytes =
     and_then (ensure (\<not> length bytes > 1024) (internal ''observation exceeded its bound'')) (\<lambda>_.
     and_then (ok_or (Option.bind (parse_json bytes) of_json) (internal ''invalid observation'')) (\<lambda>i.
     and_then (validate i) (\<lambda>_. Inr i)))"

definition parse_gateway_generation where
  "parse_gateway_generation parse_json parse_uuid =
     parse_observation parse_json (gateway_identity_of_json parse_uuid) gateway_identity_validate"

definition parse_release_overlay_generation where
  "parse_release_overlay_generation parse_json parse_uuid =
     parse_observation parse_json (overlay_identity_of_json parse_uuid) overlay_identity_validate"

definition parse_route_set_generation where
  "parse_route_set_generation parse_json parse_uuid =
     parse_observation parse_json (route_set_identity_of_json parse_uuid) identity_validate"

definition parse_release_gateway_generation where
  "parse_release_gateway_generation parse_json parse_uuid =
     parse_observation parse_json (release_gateway_of_json parse_uuid) release_gateway_validate"

definition release_overlay_observation_matches where
  "release_overlay_observation_matches parse_json parse_uuid bytes expected \<longleftrightarrow>
     parse_release_overlay_generation parse_json parse_uuid bytes = Inr expected"

definition route_set_observation_matches where
  "route_set_observation_matches parse_json parse_uuid bytes expected \<longleftrightarrow>
     parse_route_set_generation parse_json parse_uuid bytes = Inr expected"

text \<open>The text before the first occurrence of a pattern.\<close>

fun before_str :: "str \<Rightarrow> str \<Rightarrow> str option" where
  "before_str pat [] = (if pat = [] then Some [] else None)"
| "before_str pat (c # s) =
     (if starts_with (c # s) pat then Some [] else map_option (Cons c) (before_str pat s))"

definition primary_identity_body :: "str \<Rightarrow> str \<Rightarrow> driver_error + str" where
  "primary_identity_body bytes prefix =
     and_then (ok_or (strip_prefix prefix bytes) (internal ''invalid configuration'')) (\<lambda>rest.
       ok_or (before_str IDENTITY_SERVER_END rest) (internal ''invalid configuration''))"

text \<open>Parsing a stored configuration: bound, body, observation, and the canonical form again.\<close>

definition parse_identity_config ::
  "str \<Rightarrow> (str \<Rightarrow> driver_error + 'i) \<Rightarrow> ('i \<Rightarrow> driver_error + str) \<Rightarrow> str \<Rightarrow> driver_error + 'i" where
  "parse_identity_config prefix observe config bytes =
     and_then (ensure (\<not> length bytes > 65536) (internal ''configuration exceeded its bound'')) (\<lambda>_.
     and_then (primary_identity_body bytes prefix) (\<lambda>body.
     and_then (observe body) (\<lambda>i.
     and_then (config i) (\<lambda>canonical.
     and_then (ensure (canonical = bytes) (internal ''identity is not canonical'')) (\<lambda>_. Inr i)))))"

definition parse_gateway_generation_config where
  "parse_gateway_generation_config print parse_json parse_uuid =
     parse_identity_config (identity_prefix ''8081'' ''/_mb/generation'')
       (parse_gateway_generation parse_json parse_uuid) (gateway_generation_config print)"

definition parse_release_overlay_generation_config where
  "parse_release_overlay_generation_config print parse_json parse_uuid =
     parse_identity_config (identity_prefix ''8083'' ''/_mb/release-overlay-generation'')
       (parse_release_overlay_generation parse_json parse_uuid) (release_overlay_generation_config print)"

definition parse_route_set_generation_config where
  "parse_route_set_generation_config print parse_json parse_uuid =
     parse_identity_config (identity_prefix ''8084'' ''/_mb/route-generation'')
       (parse_route_set_generation parse_json parse_uuid) (route_set_generation_config print)"

text \<open>
  The tagged observation goes through \<open>serde_json::Value\<close>, given by \<open>parse_value\<close>, and has to be
  byte for byte the serialisation of the identity it denotes.
\<close>

definition parse_running_route_worker_identity ::
  "(json \<Rightarrow> str) \<Rightarrow> (str \<Rightarrow> json option) \<Rightarrow> (str \<Rightarrow> uuid option) \<Rightarrow> str
     \<Rightarrow> driver_error + running_route_worker_identity" where
  "parse_running_route_worker_identity print parse_value parse_uuid bytes =
     and_then (ensure (\<not> length bytes > 2048) (internal ''route worker identity observation exceeded its bound'')) (\<lambda>_.
     and_then (ok_or (parse_value bytes) (internal ''invalid route worker identity observation'')) (\<lambda>v.
     and_then (ok_or (json_as_object v) (internal ''invalid route worker identity observation'')) (\<lambda>ms.
     and_then (ensure (\<not> (length ms \<noteq> 2 \<or> ''kind'' \<notin> fst ` set ms \<or> ''identity'' \<notin> fst ` set ms))
       (internal ''invalid route worker identity observation'')) (\<lambda>_.
     and_then (ok_or (worker_identity_of_json parse_uuid v) (internal ''invalid route worker identity observation'')) (\<lambda>i.
     and_then (validate_running_route_worker_identity i) (\<lambda>_.
     and_then (ensure (print (worker_identity_json i) = bytes)
       (internal ''route worker identity observation is not canonical'')) (\<lambda>_. Inr i)))))))"


section \<open>Round trips\<close>

lemma variant_of_slot [simp]: "variant_of slot_as_str [Blue, Green] (JString (slot_as_str x)) = Some x"
  by (rule variant_of_as_str) (cases x, simp_all add: slot_text.print_inj)

lemma variant_of_overlay_kind [simp]:
  "variant_of overlay_kind_as_str [MaintenanceOverlay, CandidateOverlay] (JString (overlay_kind_as_str x)) = Some x"
  by (cases x) (simp_all add: variant_of_def)

lemma variant_of_publication_kind [simp]:
  "variant_of publication_kind_as_str publication_kinds (JString (publication_kind_as_str x)) = Some x"
  by (cases x) (simp_all add: variant_of_def)

lemma gateway_identity_roundtrip:
  "(\<And>u. parse_uuid (uuid_hyphenated u) = Some u) \<Longrightarrow>
     gateway_identity_of_json parse_uuid (gateway_identity_json i) = Some i"
  by (simp add: gateway_identity_of_json_def gateway_identity_json_def field_def json_as_uuid_uuid_json)

lemma overlay_identity_roundtrip:
  "(\<And>u. parse_uuid (uuid_hyphenated u) = Some u) \<Longrightarrow>
     overlay_identity_of_json parse_uuid (overlay_identity_json i) = Some i"
  by (simp add: overlay_identity_of_json_def overlay_identity_json_def field_def json_as_uuid_uuid_json)

lemma release_gateway_roundtrip:
  "(\<And>u. parse_uuid (uuid_hyphenated u) = Some u) \<Longrightarrow>
     release_gateway_of_json parse_uuid (release_gateway_json i) = Some i"
  by (simp add: release_gateway_of_json_def release_gateway_json_def field_def json_as_uuid_uuid_json)

lemma fields_of_unknown: "k \<in> fst ` set ms \<Longrightarrow> k \<notin> set ks \<Longrightarrow> fields_of ks (JObject ms) = None"
  by auto

lemma route_set_identity_roundtrip:
  assumes "\<And>u. parse_uuid (uuid_hyphenated u) = Some u" and "identity_validate i = Inr ()"
  shows "route_set_identity_of_json parse_uuid (route_set_identity_json i) = Some i"
proof (cases "id_scope i")
  case (FleetPublication run)
  then have "startup_wire parse_uuid (route_set_identity_json i) = Some i"
    using assms(1) by (simp add: startup_wire_def route_set_identity_json_def field_def json_as_uuid_uuid_json)
  then show ?thesis using assms(2) by (simp add: route_set_identity_of_json_def)
next
  case (WorkshopPublication w fence)
  then have "workshop_wire parse_uuid (route_set_identity_json i) = Some i"
    using assms(1) by (simp add: workshop_wire_def route_set_identity_json_def field_def json_as_uuid_uuid_json)
  moreover have "startup_wire parse_uuid (route_set_identity_json i) = None"
    using WorkshopPublication
    by (simp add: startup_wire_def route_set_identity_json_def fields_of_unknown [of "''target_workshop_id''"]
          del: fields_of.simps)
  ultimately show ?thesis using assms(2) by (simp add: route_set_identity_of_json_def)
qed

lemma before_str_first:
  "CHR 0x27 \<notin> set b \<Longrightarrow> before_str IDENTITY_SERVER_END (b @ IDENTITY_SERVER_END @ r) = Some b"
proof (induction b)
  case Nil
  have "starts_with (IDENTITY_SERVER_END @ r) IDENTITY_SERVER_END" by (auto simp: starts_with_append)
  then show ?case by (cases "IDENTITY_SERVER_END @ r") (simp_all add: IDENTITY_SERVER_END_def)
next
  case (Cons c b)
  then have "\<not> starts_with (c # b @ IDENTITY_SERVER_END @ r) IDENTITY_SERVER_END"
    by (auto simp: starts_with_append IDENTITY_SERVER_END_def)
  with Cons show ?case by simp
qed

text \<open>
  The contract the embedded identities share: a configuration is the literal prefix, the
  serialised identity and the fixed end, followed by more configuration.
\<close>

locale identity_literal =
  fixes prefix :: str
    and to_json :: "'i \<Rightarrow> json"
    and of_json :: "(str \<Rightarrow> uuid option) \<Rightarrow> json \<Rightarrow> 'i option"
    and validate :: "'i \<Rightarrow> driver_error + unit"
    and config :: "(json \<Rightarrow> str) \<Rightarrow> 'i \<Rightarrow> driver_error + str"
  assumes json_roundtrip: "(\<And>u. parse_uuid (uuid_hyphenated u) = Some u) \<Longrightarrow> validate i = Inr () \<Longrightarrow>
        of_json parse_uuid (to_json i) = Some i"
    and config_valid: "config print i = Inr bytes \<Longrightarrow> validate i = Inr ()"
    and config_shape: "config print i = Inr bytes \<Longrightarrow>
        \<exists>rest. bytes = prefix @ print (to_json i) @ IDENTITY_SERVER_END @ rest"
begin

lemma observation_roundtrip:
  assumes "\<And>u. parse_uuid (uuid_hyphenated u) = Some u"
    and "parse_json (print (to_json i)) = Some (to_json i)" and "validate i = Inr ()"
  shows "parse_observation parse_json (of_json parse_uuid) validate (print (to_json i)) = Inr i \<longleftrightarrow>
    length (print (to_json i)) \<le> 1024"
  using assms json_roundtrip [OF assms(1,3)]
  by (auto simp: parse_observation_def ensure_def result_simps)

lemma config_exact:
  assumes "\<And>u. parse_uuid (uuid_hyphenated u) = Some u"
    and "parse_json (print (to_json i)) = Some (to_json i)" and "CHR 0x27 \<notin> set (print (to_json i))"
  shows "parse_identity_config prefix (parse_observation parse_json (of_json parse_uuid) validate)
      (config print) bytes = Inr i \<longleftrightarrow>
    config print i = Inr bytes \<and> length bytes \<le> 65536 \<and> length (print (to_json i)) \<le> 1024"
proof (cases "config print i = Inr bytes")
  case True
  then obtain rest where "bytes = prefix @ print (to_json i) @ IDENTITY_SERVER_END @ rest"
    using config_shape by blast
  then have "primary_identity_body bytes prefix = Inr (print (to_json i))"
    using before_str_first [OF assms(3)] by (auto simp: primary_identity_body_def result_simps strip_prefix_Some)
  with True show ?thesis
    using observation_roundtrip [where parse_json = parse_json and print = print, OF assms(1,2) config_valid [OF True]]
    by (auto simp: parse_identity_config_def ensure_def result_simps)
qed (auto simp: parse_identity_config_def result_simps)

end

interpretation startup_literal: identity_literal "identity_prefix ''8081'' ''/_mb/generation''"
  gateway_identity_json gateway_identity_of_json gateway_identity_validate gateway_generation_config
  by unfold_locales
     (auto simp: gateway_identity_roundtrip gateway_generation_config_def result_simps identity_server_def)

interpretation overlay_literal: identity_literal "identity_prefix ''8083'' ''/_mb/release-overlay-generation''"
  overlay_identity_json overlay_identity_of_json overlay_identity_validate release_overlay_generation_config
  by unfold_locales
     (auto simp: overlay_identity_roundtrip release_overlay_generation_config_def result_simps identity_server_def)

interpretation route_set_literal: identity_literal "identity_prefix ''8084'' ''/_mb/route-generation''"
  route_set_identity_json route_set_identity_of_json identity_validate route_set_generation_config
  by unfold_locales
     (auto simp: route_set_identity_roundtrip route_set_generation_config_def result_simps identity_server_def)

interpretation release_gateway_literal: identity_literal "identity_prefix ''8082'' ''/_mb/release-generation''"
  release_gateway_json release_gateway_of_json release_gateway_validate release_gateway_generation_config
  by unfold_locales
     (auto simp: release_gateway_roundtrip release_gateway_generation_config_def result_simps identity_server_def)


section \<open>Key order\<close>

text \<open>A \<open>serde_json::Value\<close> keeps the members of every object in key order.\<close>

fun sort_json :: "json \<Rightarrow> json" where
  "sort_json (JObject ms) = JObject (sort_key fst (map (\<lambda>(k, v). (k, sort_json v)) ms))"
| "sort_json (JArray vs) = JArray (map sort_json vs)"
| "sort_json v = v"

lemma map_of_sort_key: "distinct (map fst ms) \<Longrightarrow> map_of (sort_key fst ms) = map_of ms"
proof (rule map_of_inject_set [THEN iffD2])
  assume "distinct (map fst ms)"
  then show "distinct (map fst (sort_key fst ms))"
    by (metis distinct_map distinct_sort set_sort)
qed simp_all

lemma fields_of_sort_key:
  "fields_of ks (JObject ms) = Some ms \<Longrightarrow>
     fields_of ks (JObject (sort_key fst ms)) = Some (sort_key fst ms) \<and> map_of (sort_key fst ms) = map_of ms"
  using map_of_sort_key [of ms] by (auto simp: distinct_map split: if_splits)

lemma leaf_sort_json [simp]:
  "sort_json (uuid_json u) = uuid_json u" "sort_json (i64_json n) = i64_json n" "sort_json (u8_json m) = u8_json m"
  by (simp_all add: uuid_json_def i64_json_def u8_json_def)

lemma gateway_identity_sorted:
  "gateway_identity_of_json parse_uuid (sort_json (gateway_identity_json i)) =
     gateway_identity_of_json parse_uuid (gateway_identity_json i)"
proof -
  let ?ks = "[''effect_run_id'', ''sealed_digest'']"
  let ?ms = "[(''effect_run_id'', uuid_json (gi_effect_run_id i)), (''sealed_digest'', JString (gi_sealed_digest i))]"
  have ms: "fields_of ?ks (JObject ?ms) = Some ?ms" by simp
  note sorted = fields_of_sort_key [OF ms, THEN conjunct1] fields_of_sort_key [OF ms, THEN conjunct2]
  show ?thesis
    unfolding gateway_identity_of_json_def gateway_identity_json_def sort_json.simps list.map prod.case leaf_sort_json
    by (simp only: Option.bind.simps ms sorted field_def)
qed

lemma overlay_identity_sorted:
  "overlay_identity_of_json parse_uuid (sort_json (overlay_identity_json i)) =
     overlay_identity_of_json parse_uuid (overlay_identity_json i)"
proof -
  let ?ks = "[''protocol_version'', ''fleet_run_id'', ''driver_operation_id'',
    ''original_global_fence_token'', ''overlay_kind'', ''route_set_digest'', ''target_slot'']"
  let ?ms = "[(''protocol_version'', u8_json (ro_protocol_version i)),
    (''fleet_run_id'', uuid_json (ro_fleet_run_id i)),
    (''driver_operation_id'', uuid_json (ro_driver_operation_id i)),
    (''original_global_fence_token'', i64_json (ro_original_global_fence_token i)),
    (''overlay_kind'', JString (overlay_kind_as_str (ro_overlay_kind i))),
    (''route_set_digest'', JString (ro_route_set_digest i)),
    (''target_slot'', JString (slot_as_str (ro_target_slot i)))]"
  have ms: "fields_of ?ks (JObject ?ms) = Some ?ms" by simp
  note sorted = fields_of_sort_key [OF ms, THEN conjunct1] fields_of_sort_key [OF ms, THEN conjunct2]
  show ?thesis
    unfolding overlay_identity_of_json_def overlay_identity_json_def sort_json.simps list.map prod.case leaf_sort_json
    by (simp only: Option.bind.simps ms sorted field_def)
qed

lemma route_set_identity_sorted:
  assumes "\<And>u. parse_uuid (uuid_hyphenated u) = Some u" and "identity_validate i = Inr ()"
  shows "route_set_identity_of_json parse_uuid (sort_json (route_set_identity_json i)) = Some i"
proof (cases "id_scope i")
  case (FleetPublication run)
  let ?ks = "[''protocol_version'', ''publication_id'', ''publication_kind'',
    ''startup_effect_run_id'', ''global_fence_token'', ''route_set_digest'']"
  let ?ms = "[(''protocol_version'', u8_json (id_protocol_version i)),
    (''publication_id'', uuid_json (id_publication_id i)),
    (''publication_kind'', JString (publication_kind_as_str (id_publication_kind i))),
    (''startup_effect_run_id'', uuid_json run),
    (''global_fence_token'', i64_json (id_global_fence_token i)),
    (''route_set_digest'', JString (id_route_set_digest i))]"
  have ms: "fields_of ?ks (JObject ?ms) = Some ?ms" by simp
  note sorted = fields_of_sort_key [OF ms, THEN conjunct1] fields_of_sort_key [OF ms, THEN conjunct2]
  have "startup_wire parse_uuid (JObject (sort_key fst ?ms)) = Some i"
    unfolding startup_wire_def sorted(1) Option.bind.simps field_def sorted(2)
    using FleetPublication by (simp add: json_as_uuid_uuid_json [OF assms(1)])
  then show ?thesis
    using assms(2) FleetPublication
    unfolding route_set_identity_of_json_def route_set_identity_json_def
    by (simp del: sort_key_simps)
next
  case (WorkshopPublication w fence)
  let ?ks = "[''protocol_version'', ''publication_id'', ''publication_kind'',
    ''global_fence_token'', ''target_workshop_id'', ''target_route_fence_token'', ''route_set_digest'']"
  let ?ms = "[(''protocol_version'', u8_json (id_protocol_version i)),
    (''publication_id'', uuid_json (id_publication_id i)),
    (''publication_kind'', JString (publication_kind_as_str (id_publication_kind i))),
    (''global_fence_token'', i64_json (id_global_fence_token i)),
    (''target_workshop_id'', uuid_json w),
    (''target_route_fence_token'', i64_json fence),
    (''route_set_digest'', JString (id_route_set_digest i))]"
  have ms: "fields_of ?ks (JObject ?ms) = Some ?ms" by simp
  note sorted = fields_of_sort_key [OF ms, THEN conjunct1] fields_of_sort_key [OF ms, THEN conjunct2]
  have "workshop_wire parse_uuid (JObject (sort_key fst ?ms)) = Some i"
    unfolding workshop_wire_def sorted(1) Option.bind.simps field_def sorted(2)
    using WorkshopPublication by (simp add: json_as_uuid_uuid_json [OF assms(1)])
  moreover have "''target_workshop_id'' \<in> fst ` set (sort_key fst ?ms)"
    unfolding set_sort by simp
  note unknown = fields_of_unknown [OF this]
  have "startup_wire parse_uuid (JObject (sort_key fst ?ms)) = None"
    unfolding startup_wire_def by (subst unknown) simp_all
  ultimately show ?thesis
    using assms(2) WorkshopPublication
    unfolding route_set_identity_of_json_def route_set_identity_json_def
    by (simp del: sort_key_simps)
qed

lemma worker_identity_sorted:
  assumes "\<And>u. parse_uuid (uuid_hyphenated u) = Some u"
    and "validate_running_route_worker_identity i = Inr ()"
  shows "worker_identity_of_json parse_uuid (sort_json (worker_identity_json i)) = Some i"
proof -
  have get: "json_get ''kind'' (JObject (sort_key fst [(''kind'', a), (''identity'', b)])) = Some a"
      "json_get ''identity'' (JObject (sort_key fst [(''kind'', a), (''identity'', b)])) = Some b" for a b
    unfolding json_get.simps by (subst map_of_sort_key; simp)+
  show ?thesis
    using assms gateway_identity_roundtrip [OF assms(1)] overlay_identity_roundtrip [OF assms(1)]
      route_set_identity_sorted [OF assms(1)]
    by (cases i) (simp_all add: worker_identity_of_json_def json_get_str_def get gateway_identity_sorted
        overlay_identity_sorted del: json_get.simps sort_key_simps)
qed


section \<open>Properties\<close>

text \<open>
  What the JSON library does on one value: parsing inverts printing, and the text has no
  apostrophe. (The library escapes quotes, backslashes and control characters only; the values here
  have identifiers, decimal numbers and digests.)
\<close>

definition serialises :: "(json \<Rightarrow> str) \<Rightarrow> (str \<Rightarrow> json option) \<Rightarrow> json \<Rightarrow> bool" where
  "serialises print parse_json v \<longleftrightarrow> parse_json (print v) = Some v \<and> CHR 0x27 \<notin> set (print v)"

text \<open>
  C29. Embedded identities round-trip exactly. For startup generations, release overlays and route
  sets alike, a stored configuration is accepted as the configuration of an identity if and only if
  it is byte for byte the configuration the driver renders for that identity, within its bounds. So
  no other text, spelling or field order denotes an identity, and a configuration denotes one
  identity only.
\<close>

theorem identity_config_exact:
  assumes "\<forall>u. parse_uuid (uuid_hyphenated u) = Some u"
    and "serialises print parse_json (gateway_identity_json g)"
    and "serialises print parse_json (overlay_identity_json v)"
    and "serialises print parse_json (route_set_identity_json r)"
  shows "(parse_gateway_generation_config print parse_json parse_uuid bytes = Inr g \<longleftrightarrow>
        gateway_generation_config print g = Inr bytes \<and> length bytes \<le> 65536 \<and>
        length (print (gateway_identity_json g)) \<le> 1024) \<and>
      (parse_release_overlay_generation_config print parse_json parse_uuid bytes = Inr v \<longleftrightarrow>
        release_overlay_generation_config print v = Inr bytes \<and> length bytes \<le> 65536) \<and>
      (parse_route_set_generation_config print parse_json parse_uuid bytes = Inr r \<longleftrightarrow>
        route_set_generation_config print r = Inr bytes \<and> length bytes \<le> 65536)"
proof -
  have uuid: "parse_uuid (uuid_hyphenated u) = Some u" for u using assms(1) by simp
  have "release_overlay_generation_config print v = Inr bytes \<Longrightarrow> length (print (overlay_identity_json v)) \<le> 1024"
      "route_set_generation_config print r = Inr bytes \<Longrightarrow> length (print (route_set_identity_json r)) \<le> 1024"
    by (auto simp: release_overlay_generation_config_def route_set_generation_config_def result_simps)
  then show ?thesis
    using startup_literal.config_exact [where parse_json = parse_json and print = print, OF uuid]
      overlay_literal.config_exact [where parse_json = parse_json and print = print, OF uuid]
      route_set_literal.config_exact [where parse_json = parse_json and print = print, OF uuid] assms(2-4)
    by (auto simp: serialises_def parse_gateway_generation_config_def parse_gateway_generation_def
          parse_release_overlay_generation_config_def parse_release_overlay_generation_def
          parse_route_set_generation_config_def parse_route_set_generation_def)
qed

definition sample_gateway_identity :: gateway_generation_identity where
  "sample_gateway_identity = \<lparr>gi_effect_run_id = 5, gi_sealed_digest = ''sha256:'' @ replicate 64 CHR ''a''\<rparr>"

definition sample_overlay_identity :: release_overlay_generation_identity where
  "sample_overlay_identity =
     \<lparr>ro_protocol_version = 1, ro_fleet_run_id = 5, ro_driver_operation_id = 6,
      ro_original_global_fence_token = 3, ro_overlay_kind = CandidateOverlay,
      ro_route_set_digest = ''sha256:'' @ replicate 64 CHR ''a'', ro_target_slot = Green\<rparr>"

definition sample_route_set_identity :: route_set_generation_identity where
  "sample_route_set_identity =
     \<lparr>id_protocol_version = 1, id_publication_id = 7, id_publication_kind = Projection,
      id_global_fence_token = 4, id_route_set_digest = ''sha256:'' @ replicate 64 CHR ''a'',
      id_scope = WorkshopPublication 1 2\<rparr>"

text \<open>A text form and its inverse on the three samples.\<close>

definition sample_print :: "json \<Rightarrow> str" where
  "sample_print v =
     (if v = gateway_identity_json sample_gateway_identity then ''g''
      else if v = overlay_identity_json sample_overlay_identity then ''o''
      else if v = route_set_identity_json sample_route_set_identity then ''r'' else ''w'')"

definition sample_parse_json :: "str \<Rightarrow> json option" where
  "sample_parse_json s =
     (if s = ''g'' then Some (gateway_identity_json sample_gateway_identity)
      else if s = ''o'' then Some (overlay_identity_json sample_overlay_identity)
      else if s = ''r'' then Some (route_set_identity_json sample_route_set_identity) else None)"

lemma sample_json_distinct:
  "overlay_identity_json sample_overlay_identity \<noteq> gateway_identity_json sample_gateway_identity"
  "route_set_identity_json sample_route_set_identity \<noteq> gateway_identity_json sample_gateway_identity"
  "route_set_identity_json sample_route_set_identity \<noteq> overlay_identity_json sample_overlay_identity"
  by (simp_all add: overlay_identity_json_def gateway_identity_json_def route_set_identity_json_def
        sample_route_set_identity_def)

lemma sample_serialises:
  "serialises sample_print sample_parse_json (gateway_identity_json sample_gateway_identity)"
  "serialises sample_print sample_parse_json (overlay_identity_json sample_overlay_identity)"
  "serialises sample_print sample_parse_json (route_set_identity_json sample_route_set_identity)"
  using sample_json_distinct by (simp_all add: serialises_def sample_print_def sample_parse_json_def)

lemma sample_identity_valid: "identity_validate sample_route_set_identity = Inr ()"
  using sample_digest_valid
  by (simp add: sample_route_set_identity_def identity_validate_def validate_sha256_digest_def scope_valid_def
        is_nil_def ensure_def)

lemma length_sample_print: "length (sample_print v) = 1"
  by (simp add: sample_print_def)

theorem identity_config_exact_witness:
  "\<exists>bytes. route_set_generation_config sample_print sample_route_set_identity = Inr bytes \<and>
     parse_route_set_generation_config sample_print sample_parse_json (\<lambda>s. Some (uuid_of_text s)) bytes =
       Inr sample_route_set_identity"
proof -
  have "\<exists>bytes. route_set_generation_config sample_print sample_route_set_identity = Inr bytes \<and>
      length bytes \<le> 65536"
    using sample_identity_valid
    by (simp add: route_set_generation_config_def running_route_worker_identity_config_def ensure_def
          length_sample_print identity_server_def identity_prefix_def IDENTITY_SERVER_END_def lines_text_def)
  then show ?thesis
    using identity_config_exact [of "\<lambda>s. Some (uuid_of_text s)" sample_print sample_parse_json,
        OF _ sample_serialises] by (auto simp: uuid_of_text_hyphenated)
qed



end
