(* ===== verification/Route_Set_Staging.thy ===== *)
theory Route_Set_Staging
  imports Route_Set_Sealer
begin

text \<open>
  \<open>src/docker_driver/route_set_staging.rs\<close>: from a frozen snapshot of the fleet's routes to the
  rows of a route set. The whole snapshot is validated and rendered before the first row is staged,
  every row except the target's has to reproduce the applied fleet, and the prepared rows are then
  staged one at a time through the sealer.

  \<open>BTreeMap\<close>s are association lists in key order; \<open>jcs\<close>, \<open>sha256_hex\<close>, \<open>parse_uuid\<close> and \<open>to_vec\<close>
  are the library functions of the projections and of the sealer.
\<close>

section \<open>Snapshots and prepared rows\<close>

record frozen_route_runtime_context =
  fr_odoo_upstream :: str
  fr_paperless_upstreams :: "(uuid \<times> str) list"

record frozen_snapshot_item =
  fi_workshop_id :: uuid
  fi_projection_generation :: i64
  fi_projection_digest :: str
  fi_disposition :: route_disposition
  fi_canonical_projection :: "json option"
  fi_applied_rendered_digest :: str

record prepared_row =
  pw_workshop_id :: uuid
  pw_projection_generation :: i64
  pw_projection_digest :: str
  pw_applied_rendered_digest :: str
  pw_contents :: "str option"

record prepared_route_set =
  ps_publication_kind :: route_set_publication_kind
  ps_target_workshop_id :: "uuid option"
  ps_rows :: "prepared_row list"
  ps_next_row :: nat

definition is_complete :: "prepared_route_set \<Rightarrow> bool" where
  "is_complete p \<longleftrightarrow> ps_next_row p = length (ps_rows p)"


section \<open>Validation and rendering of the snapshot\<close>

text \<open>The scan of \<open>validate_snapshot_shape\<close>, counting the target.\<close>

fun scan_snapshot ::
  "uuid option \<Rightarrow> uuid option \<Rightarrow> nat \<Rightarrow> frozen_snapshot_item list \<Rightarrow> driver_error + nat" where
  "scan_snapshot target previous target_count [] = Inr target_count"
| "scan_snapshot target previous target_count (item # items) =
     (if is_nil (fi_workshop_id item) \<or>
         (case previous of None \<Rightarrow> False | Some p \<Rightarrow> p \<ge> fi_workshop_id item)
      then Inl (internal ''frozen route-set snapshot is not strictly UUID ordered'')
      else scan_snapshot target (Some (fi_workshop_id item))
             (target_count + (if target = Some (fi_workshop_id item) then 1 else 0)) items)"

definition validate_snapshot_shape ::
  "uuid option \<Rightarrow> frozen_route_runtime_context \<Rightarrow> frozen_snapshot_item list \<Rightarrow> driver_error + unit" where
  "validate_snapshot_shape target runtime items =
     and_then (ensure (\<not> ((case target of None \<Rightarrow> False | Some t \<Rightarrow> is_nil t) \<or>
         (target \<noteq> None \<and> items = []) \<or> length items > MAX_ROUTES))
       (internal ''frozen route-set snapshot shape is invalid'')) (\<lambda>_.
     and_then (validate_name (fr_odoo_upstream runtime)) (\<lambda>_.
     and_then (ensure (\<not> (length (fr_paperless_upstreams runtime) > MAX_ROUTES \<or>
         list_ex (\<lambda>(w, name). is_nil w \<or> \<not> is_ok (validate_name name)) (fr_paperless_upstreams runtime)))
       (internal ''frozen route-set runtime context is invalid'')) (\<lambda>_.
     and_then (scan_snapshot target None 0 items) (\<lambda>target_count.
       ensure (target_count = (if target = None then 0 else 1))
         (internal ''frozen route-set snapshot does not contain its target exactly once'')))))"

text \<open>
  The runtime of one row, and the workshop it adds to the list of required Paperless runtimes.
\<close>

definition row_runtime ::
  "frozen_route_runtime_context \<Rightarrow> frozen_snapshot_item \<Rightarrow> route_projection
     \<Rightarrow> driver_error + route_runtime option \<times> uuid list" where
  "row_runtime runtime item projection =
     (case fi_disposition item of
        Absent \<Rightarrow> Inr (None, [])
      | Present \<Rightarrow>
          (if pr_paperless_mode projection = ModeAbsent
           then Inr (Some \<lparr>rt_odoo_upstream = fr_odoo_upstream runtime, rt_paperless_upstream = None\<rparr>, [])
           else and_then (ok_or (map_of (fr_paperless_upstreams runtime) (fi_workshop_id item))
             (internal ''frozen Paperless runtime is absent for route projection'')) (\<lambda>u.
             Inr (Some \<lparr>rt_odoo_upstream = fr_odoo_upstream runtime, rt_paperless_upstream = Some u\<rparr>,
                  [fi_workshop_id item]))))"

definition render_row ::
  "(str \<Rightarrow> str) \<Rightarrow> route_set_publication_kind \<Rightarrow> uuid option \<Rightarrow> frozen_route_runtime_context
     \<Rightarrow> frozen_snapshot_item \<Rightarrow> route_projection \<Rightarrow> driver_error + rendered_route \<times> uuid list" where
  "render_row sha256_hex kind target runtime item projection =
     (if target = Some (fi_workshop_id item) \<and> kind = RecoveryMaintenance
      then and_then (ensure (fi_disposition item = Present)
             (internal ''recovery maintenance target projection is absent'')) (\<lambda>_.
           and_then (render_maintenance sha256_hex projection) (\<lambda>rendered. Inr (rendered, [])))
      else and_then (row_runtime runtime item projection) (\<lambda>(route_runtime, required).
           and_then (render sha256_hex projection route_runtime) (\<lambda>rendered. Inr (rendered, required))))"

definition prepare_row ::
  "(json \<Rightarrow> str option) \<Rightarrow> (str \<Rightarrow> str) \<Rightarrow> (str \<Rightarrow> uuid option) \<Rightarrow> route_set_publication_kind \<Rightarrow> uuid option
     \<Rightarrow> frozen_route_runtime_context \<Rightarrow> frozen_snapshot_item \<Rightarrow> driver_error + prepared_row \<times> uuid list" where
  "prepare_row jcs sha256_hex parse_uuid kind target runtime item =
     and_then (ensure (\<not> sint (fi_projection_generation item) \<le> 0)
       (internal ''frozen route projection generation is not positive'')) (\<lambda>_.
     and_then (map_err (\<lambda>_. internal []) (validate_digest (fi_projection_digest item) ''projection digest'')) (\<lambda>_.
     and_then (map_err (\<lambda>_. internal [])
       (validate_digest (fi_applied_rendered_digest item) ''applied rendered digest'')) (\<lambda>_.
     and_then (parse_optional jcs sha256_hex parse_uuid (fi_canonical_projection item)
       (fi_projection_digest item) (fi_disposition item)) (\<lambda>projection.
     and_then (render_row sha256_hex kind target runtime item projection) (\<lambda>(rendered, required).
     and_then (ensure (\<not> (target \<noteq> Some (fi_workshop_id item) \<and> kind \<noteq> Startup \<and>
         rr_rendered_digest rendered \<noteq> fi_applied_rendered_digest item))
       (internal ''frozen applied route rendered digest drifted'')) (\<lambda>_.
     and_then (case rr_contents rendered of None \<Rightarrow> Inr ()
               | Some c \<Rightarrow> map_err (\<lambda>_. internal []) (validate_route_bytes c)) (\<lambda>_.
       Inr (\<lparr>pw_workshop_id = fi_workshop_id item, pw_projection_generation = fi_projection_generation item,
             pw_projection_digest = fi_projection_digest item,
             pw_applied_rendered_digest = fi_applied_rendered_digest item,
             pw_contents = rr_contents rendered\<rparr>, required))))))))"

text \<open>The loop over the snapshot with its two vectors.\<close>

fun prepare_rows ::
  "(frozen_snapshot_item \<Rightarrow> driver_error + prepared_row \<times> uuid list) \<Rightarrow> frozen_snapshot_item list
     \<Rightarrow> driver_error + prepared_row list \<times> uuid list" where
  "prepare_rows prepare [] = Inr ([], [])"
| "prepare_rows prepare (item # items) =
     and_then (prepare item) (\<lambda>(row, required).
     and_then (prepare_rows prepare items) (\<lambda>(rows, more). Inr (row # rows, required @ more)))"

definition prepare_frozen_route_set_scoped ::
  "(json \<Rightarrow> str option) \<Rightarrow> (str \<Rightarrow> str) \<Rightarrow> (str \<Rightarrow> uuid option) \<Rightarrow> route_set_publication_kind \<Rightarrow> uuid option
     \<Rightarrow> frozen_route_runtime_context \<Rightarrow> frozen_snapshot_item list \<Rightarrow> driver_error + prepared_route_set" where
  "prepare_frozen_route_set_scoped jcs sha256_hex parse_uuid kind target runtime items =
     and_then (validate_snapshot_shape target runtime items) (\<lambda>_.
     and_then (prepare_rows (prepare_row jcs sha256_hex parse_uuid kind target runtime) items)
       (\<lambda>(rows, required).
     and_then (ensure (map fst (fr_paperless_upstreams runtime) = required)
       (internal ''frozen Paperless runtime context is not exact for route projections'')) (\<lambda>_.
       Inr \<lparr>ps_publication_kind = kind, ps_target_workshop_id = target, ps_rows = rows, ps_next_row = 0\<rparr>)))"

definition prepare_frozen_route_set where
  "prepare_frozen_route_set jcs sha256_hex parse_uuid kind target runtime items =
     prepare_frozen_route_set_scoped jcs sha256_hex parse_uuid kind (Some target) runtime items"

definition prepare_startup_frozen_route_set where
  "prepare_startup_frozen_route_set jcs sha256_hex parse_uuid runtime items =
     prepare_frozen_route_set_scoped jcs sha256_hex parse_uuid Startup None runtime items"


section \<open>Staging\<close>

text \<open>\<open>sealer.target_workshop_id()\<close>.\<close>

definition sealer_target :: "sealer \<Rightarrow> uuid option" where
  "sealer_target s = map_option fst (target_scope (in_scope (sl_intent s)))"

definition stage_next ::
  "(str \<Rightarrow> str) \<Rightarrow> (route_set_seal_evidence \<Rightarrow> str) \<Rightarrow> prepared_route_set \<Rightarrow> sealer
     \<Rightarrow> driver_error + route_set_seal_evidence option \<times> prepared_route_set \<times> sealer" where
  "stage_next sha256_hex to_vec p s =
     (if ps_publication_kind p \<noteq> in_publication_kind (sl_intent s) \<or> ps_target_workshop_id p \<noteq> sealer_target s
      then Inl (internal ''prepared route-set differs from generation intent'')
      else if ps_next_row p \<ge> length (ps_rows p) then Inr (None, p, s)
      else (let row = ps_rows p ! ps_next_row p in
        and_then (map_err (\<lambda>_. internal [])
          (case pw_contents row of
             Some contents \<Rightarrow>
               stage_present sha256_hex to_vec s (pw_workshop_id row) (pw_projection_generation row)
                 (pw_projection_digest row) (pw_applied_rendered_digest row) contents
           | None \<Rightarrow>
               stage_absent sha256_hex to_vec s (pw_workshop_id row) (pw_projection_generation row)
                 (pw_projection_digest row) (pw_applied_rendered_digest row))) (\<lambda>(evidence, s).
          Inr (Some evidence, p\<lparr>ps_next_row := ps_next_row p + 1\<rparr>, s))))"

lemma stage_next_Some:
  assumes "stage_next sha256_hex to_vec p s = Inr (Some e, p', s')"
  shows "ps_next_row p < length (ps_rows p) \<and> p' = p\<lparr>ps_next_row := ps_next_row p + 1\<rparr>"
  using assms by (auto simp: stage_next_def Let_def result_simps split: if_splits)

text \<open>\<open>while let Some(row) = prepared.stage_next(sealer)?\<close>; every turn consumes a prepared row.\<close>

function stage_loop ::
  "(str \<Rightarrow> str) \<Rightarrow> (route_set_seal_evidence \<Rightarrow> str) \<Rightarrow> prepared_route_set \<Rightarrow> sealer
     \<Rightarrow> driver_error + route_set_seal_evidence list \<times> prepared_route_set \<times> sealer" where
  "stage_loop sha256_hex to_vec p s =
     (case stage_next sha256_hex to_vec p s of
        Inl e \<Rightarrow> Inl e
      | Inr (None, p', s') \<Rightarrow> Inr ([], p', s')
      | Inr (Some evidence, p', s') \<Rightarrow>
          and_then (stage_loop sha256_hex to_vec p' s') (\<lambda>(es, p'', s''). Inr (evidence # es, p'', s'')))"
  by pat_completeness auto
termination
  by (relation "measure (\<lambda>(_, _, p, _). length (ps_rows p) - ps_next_row p)") (auto dest!: stage_next_Some)

declare stage_loop.simps [simp del]

definition stage_frozen_route_set where
  "stage_frozen_route_set jcs sha256_hex parse_uuid to_vec s kind target runtime items =
     and_then (ensure (\<not> (kind \<noteq> in_publication_kind (sl_intent s) \<or> Some target \<noteq> sealer_target s))
       (internal ''route-set staging plan differs from generation intent'')) (\<lambda>_.
     and_then (prepare_frozen_route_set jcs sha256_hex parse_uuid kind target runtime items) (\<lambda>prepared.
     and_then (stage_loop sha256_hex to_vec prepared s) (\<lambda>(es, _, s). Inr (es, s))))"

definition stage_startup_frozen_route_set where
  "stage_startup_frozen_route_set jcs sha256_hex parse_uuid to_vec s runtime items =
     and_then (ensure (\<not> (in_publication_kind (sl_intent s) \<noteq> Startup \<or> sealer_target s \<noteq> None))
       (internal ''startup staging requires fleet-scoped generation intent'')) (\<lambda>_.
     and_then (prepare_startup_frozen_route_set jcs sha256_hex parse_uuid runtime items) (\<lambda>prepared.
     and_then (stage_loop sha256_hex to_vec prepared s) (\<lambda>(es, _, s). Inr (es, s))))"


section \<open>Lemmas on preparation\<close>

lemma scan_snapshot_Inr:
  "scan_snapshot target previous n items = Inr m \<longleftrightarrow>
     ascending previous (map fi_workshop_id items) \<and> (\<forall>item \<in> set items. \<not> is_nil (fi_workshop_id item)) \<and>
     m = n + length (filter (\<lambda>item. target = Some (fi_workshop_id item)) items)"
  by (induction items arbitrary: previous n) (auto split: option.splits)

lemma validate_snapshot_shape_Inr:
  assumes "validate_snapshot_shape target runtime items = Inr ()"
  shows "ascending None (map fi_workshop_id items)" and "\<forall>item \<in> set items. \<not> is_nil (fi_workshop_id item)"
    and "length items \<le> MAX_ROUTES" and "target \<noteq> None \<Longrightarrow> target \<in> Some ` fi_workshop_id ` set items"
proof -
  let ?hits = "filter (\<lambda>item. target = Some (fi_workshop_id item)) items"
  have *: "scan_snapshot target None 0 items = Inr (if target = None then 0 else 1)"
      "length items \<le> MAX_ROUTES"
    using assms by (auto simp: validate_snapshot_shape_def result_simps)
  then show "ascending None (map fi_workshop_id items)" "\<forall>item \<in> set items. \<not> is_nil (fi_workshop_id item)"
      "length items \<le> MAX_ROUTES"
    by (simp_all add: scan_snapshot_Inr)
  assume "target \<noteq> None"
  with * have "?hits \<noteq> []" by (auto simp: scan_snapshot_Inr)
  then show "target \<in> Some ` fi_workshop_id ` set items" by (auto simp: filter_empty_conv)
qed

lemma prepare_rows_Inr:
  "prepare_rows prepare items = Inr (rows, required) \<Longrightarrow>
     length rows = length items \<and>
     (\<forall>n < length items. \<exists>req. prepare (items ! n) = Inr (rows ! n, req))"
proof (induction items arbitrary: rows required)
  case (Cons item items)
  then obtain row req rows' more where "prepare item = Inr (row, req)"
      "prepare_rows prepare items = Inr (rows', more)" "rows = row # rows'"
    by (auto simp: result_simps)
  with Cons.IH [of rows' more] show ?case by (auto simp: nth_Cons split: nat.splits)
qed simp

lemma rendered_digest_exact:
  "render sha256_hex p rt = Inr r \<Longrightarrow>
     rr_rendered_digest r = digest_bytes sha256_hex (case rr_contents r of None \<Rightarrow> [] | Some c \<Rightarrow> c)"
  "render_maintenance sha256_hex p = Inr r \<Longrightarrow>
     rr_rendered_digest r = digest_bytes sha256_hex (case rr_contents r of None \<Rightarrow> [] | Some c \<Rightarrow> c)"
  by (auto simp: render_def render_maintenance_def digest_bytes_def result_simps)

text \<open>What one prepared row says about its snapshot item.\<close>

definition row_faithful ::
  "(json \<Rightarrow> str option) \<Rightarrow> (str \<Rightarrow> str) \<Rightarrow> (str \<Rightarrow> uuid option) \<Rightarrow> route_set_publication_kind \<Rightarrow> uuid option
     \<Rightarrow> frozen_snapshot_item \<Rightarrow> prepared_row \<Rightarrow> bool" where
  "row_faithful jcs sha256_hex parse_uuid kind target item row \<longleftrightarrow>
     pw_workshop_id row = fi_workshop_id item \<and> pw_projection_generation row = fi_projection_generation item \<and>
     pw_projection_digest row = fi_projection_digest item \<and>
     pw_applied_rendered_digest row = fi_applied_rendered_digest item \<and>
     (target \<noteq> Some (fi_workshop_id item) \<and> kind \<noteq> Startup \<longrightarrow>
        digest_bytes sha256_hex (case pw_contents row of None \<Rightarrow> [] | Some c \<Rightarrow> c) = fi_applied_rendered_digest item) \<and>
     (\<exists>projection rendered.
        parse_optional jcs sha256_hex parse_uuid (fi_canonical_projection item) (fi_projection_digest item)
          (fi_disposition item) = Inr projection \<and>
        pw_contents row = rr_contents rendered \<and>
        (if target = Some (fi_workshop_id item) \<and> kind = RecoveryMaintenance
         then render_maintenance sha256_hex projection = Inr rendered
         else \<exists>rt. render sha256_hex projection rt = Inr rendered))"

lemma prepare_row_Inr:
  assumes "prepare_row jcs sha256_hex parse_uuid kind target runtime item = Inr (row, req)"
  shows "row_faithful jcs sha256_hex parse_uuid kind target item row"
    and "sint (fi_projection_generation item) > 0" and "valid_sha256 (fi_projection_digest item)"
    and "valid_sha256 (fi_applied_rendered_digest item)"
    and "\<And>c. pw_contents row = Some c \<Longrightarrow> validate_route_bytes c = Inr ()"
proof -
  from assms obtain projection rendered where p:
      "parse_optional jcs sha256_hex parse_uuid (fi_canonical_projection item) (fi_projection_digest item)
        (fi_disposition item) = Inr projection"
      "render_row sha256_hex kind target runtime item projection = Inr (rendered, req)"
      "target = Some (fi_workshop_id item) \<or> kind = Startup \<or>
        rr_rendered_digest rendered = fi_applied_rendered_digest item"
      "(case rr_contents rendered of None \<Rightarrow> Inr ()
        | Some c \<Rightarrow> map_err (\<lambda>_. internal []) (validate_route_bytes c)) = Inr ()"
      "row = \<lparr>pw_workshop_id = fi_workshop_id item, pw_projection_generation = fi_projection_generation item,
         pw_projection_digest = fi_projection_digest item,
         pw_applied_rendered_digest = fi_applied_rendered_digest item, pw_contents = rr_contents rendered\<rparr>"
    by (auto simp: prepare_row_def result_simps)
  show "sint (fi_projection_generation item) > 0" "valid_sha256 (fi_projection_digest item)"
      "valid_sha256 (fi_applied_rendered_digest item)"
    using assms by (auto simp: prepare_row_def result_simps validate_digest_def)
  show "validate_route_bytes c = Inr ()" if "pw_contents row = Some c" for c
    using p(4,5) that by (auto simp: result_simps)
  have rendered: "if target = Some (fi_workshop_id item) \<and> kind = RecoveryMaintenance
      then render_maintenance sha256_hex projection = Inr rendered
      else \<exists>rt. render sha256_hex projection rt = Inr rendered"
    using p(2) by (auto simp: render_row_def result_simps split: if_splits)
  then have "rr_rendered_digest rendered =
      digest_bytes sha256_hex (case rr_contents rendered of None \<Rightarrow> [] | Some c \<Rightarrow> c)"
    by (auto dest: rendered_digest_exact split: if_splits)
  with p rendered show "row_faithful jcs sha256_hex parse_uuid kind target item row"
    by (auto simp: row_faithful_def)
qed


section \<open>Staging prepared rows is staging rows\<close>

definition to_stage_row :: "prepared_row \<Rightarrow> stage_row" where
  "to_stage_row row =
     \<lparr>sr_workshop = pw_workshop_id row, sr_generation = pw_projection_generation row,
      sr_projection_digest = pw_projection_digest row, sr_applied = Some (pw_applied_rendered_digest row),
      sr_contents = pw_contents row\<rparr>"

lemma stage_present_evidence:
  "stage_present_with_baseline sha256_hex to_vec s w g d a c = Inr (e, s') \<Longrightarrow>
     e = row_evidence sha256_hex \<lparr>sr_workshop = w, sr_generation = g, sr_projection_digest = d,
       sr_applied = a, sr_contents = Some c\<rparr>"
  by (auto simp: stage_present_with_baseline_def Let_def result_simps row_evidence_def)

lemma stage_absent_evidence:
  "stage_absent_with_baseline sha256_hex to_vec s w g d a = Inr (e, s') \<Longrightarrow>
     e = row_evidence sha256_hex \<lparr>sr_workshop = w, sr_generation = g, sr_projection_digest = d,
       sr_applied = a, sr_contents = None\<rparr>"
  by (auto simp: stage_absent_with_baseline_def Let_def result_simps row_evidence_def)

lemma record_line_intent: "record_line s l = Inr s' \<Longrightarrow> sl_intent s' = sl_intent s"
  by (cases "read_evidence_line (sl_reader s)") (auto simp: record_line_def split: if_splits option.splits)

lemma record_evidence_intent:
  assumes "record_evidence sha256_hex to_vec s e = Inr s'"
  shows "sl_intent s' = sl_intent s"
proof -
  obtain l t where "record_line s l = Inr t" and "sl_intent s' = sl_intent t"
    using assms unfolding record_evidence_def and_then_Inr by (elim exE conjE) (rule that, assumption, auto)
  then show ?thesis using record_line_intent by metis
qed

lemma stage_row_intent:
  assumes "stage_row sha256_hex to_vec s r = Inr s'"
  shows "sl_intent s' = sl_intent s"
proof -
  obtain routes e where "record_evidence sha256_hex to_vec (s\<lparr>sl_routes := routes\<rparr>) e = Inr s'"
  proof (cases "sr_contents r")
    case None
    with assms obtain e where "record_evidence sha256_hex to_vec s e = Inr s'"
      by (auto simp: stage_row_def stage_absent_with_baseline_def Let_def and_then_Inr)
    then show ?thesis by (intro that [of "sl_routes s" e]) simp
  next
    case (Some c)
    with assms that show ?thesis
      by (auto simp: stage_row_def stage_present_with_baseline_def Let_def and_then_Inr)
  qed
  then show ?thesis using record_evidence_intent by fastforce
qed

lemma stage_next_row:
  assumes "ps_publication_kind p = in_publication_kind (sl_intent s)" and "ps_target_workshop_id p = sealer_target s"
    and "ps_next_row p < length (ps_rows p)"
    and "stage_row sha256_hex to_vec s (to_stage_row (ps_rows p ! ps_next_row p)) = Inr s'"
  shows "stage_next sha256_hex to_vec p s =
    Inr (Some (row_evidence sha256_hex (to_stage_row (ps_rows p ! ps_next_row p))),
         p\<lparr>ps_next_row := ps_next_row p + 1\<rparr>, s')"
proof (cases "pw_contents (ps_rows p ! ps_next_row p)")
  case None
  with assms(4) stage_absent_evidence show ?thesis
    using assms(1-3) by (auto simp: stage_next_def Let_def stage_row_def to_stage_row_def stage_absent_def result_simps)
next
  case (Some c)
  with assms(4) stage_present_evidence show ?thesis
    using assms(1-3) by (auto simp: stage_next_def Let_def stage_row_def to_stage_row_def stage_present_def result_simps)
qed

lemma stage_loop_rows:
  assumes "ps_publication_kind p = in_publication_kind (sl_intent s)" and "ps_target_workshop_id p = sealer_target s"
    and "ps_next_row p \<le> length (ps_rows p)"
    and "try_fold (stage_row sha256_hex to_vec) s (map to_stage_row (drop (ps_next_row p) (ps_rows p))) = Inr s'"
  shows "stage_loop sha256_hex to_vec p s =
    Inr (map (row_evidence sha256_hex \<circ> to_stage_row) (drop (ps_next_row p) (ps_rows p)),
         p\<lparr>ps_next_row := length (ps_rows p)\<rparr>, s')"
  using assms
proof (induction "length (ps_rows p) - ps_next_row p" arbitrary: p s)
  case 0
  then have "ps_next_row p = length (ps_rows p)" by simp
  moreover from this have "p\<lparr>ps_next_row := length (ps_rows p)\<rparr> = p" by simp
  ultimately show ?case
    using "0.prems" by (subst stage_loop.simps) (simp add: stage_next_def)
next
  case (Suc n)
  let ?row = "to_stage_row (ps_rows p ! ps_next_row p)" and ?p = "p\<lparr>ps_next_row := ps_next_row p + 1\<rparr>"
  have less: "ps_next_row p < length (ps_rows p)" using Suc.hyps(2) by simp
  then have drop: "drop (ps_next_row p) (ps_rows p) =
      ps_rows p ! ps_next_row p # drop (Suc (ps_next_row p)) (ps_rows p)"
    by (simp add: Cons_nth_drop_Suc)
  with Suc.prems(4) obtain t where t: "stage_row sha256_hex to_vec s ?row = Inr t"
      "try_fold (stage_row sha256_hex to_vec) t (map to_stage_row (drop (ps_next_row ?p) (ps_rows ?p))) = Inr s'"
    by (auto simp: result_simps)
  note next_row = stage_next_row [OF Suc.prems(1,2) less t(1)]
  have "stage_loop sha256_hex to_vec ?p t =
    Inr (map (row_evidence sha256_hex \<circ> to_stage_row) (drop (ps_next_row ?p) (ps_rows ?p)),
         ?p\<lparr>ps_next_row := length (ps_rows ?p)\<rparr>, s')"
    by (rule Suc.hyps(1)) (use Suc.hyps(2) Suc.prems stage_row_intent [OF t(1)] t(2) less
        in \<open>simp_all add: sealer_target_def\<close>)
  then show ?case by (subst stage_loop.simps) (simp add: next_row drop)
qed


section \<open>Properties\<close>

lemma prepare_scoped_Inr:
  assumes "prepare_frozen_route_set_scoped jcs sha256_hex parse_uuid kind target runtime items = Inr p"
  obtains required where "validate_snapshot_shape target runtime items = Inr ()"
    and "prepare_rows (prepare_row jcs sha256_hex parse_uuid kind target runtime) items = Inr (ps_rows p, required)"
    and "map fst (fr_paperless_upstreams runtime) = required"
    and "ps_publication_kind p = kind" and "ps_target_workshop_id p = target" and "ps_next_row p = 0"
  using assms by (auto simp: prepare_frozen_route_set_scoped_def result_simps)

lemma prepared_workshops:
  assumes "prepare_frozen_route_set_scoped jcs sha256_hex parse_uuid kind target runtime items = Inr p"
  shows "map pw_workshop_id (ps_rows p) = map fi_workshop_id items"
proof -
  obtain required where
      "prepare_rows (prepare_row jcs sha256_hex parse_uuid kind target runtime) items = Inr (ps_rows p, required)"
    using prepare_scoped_Inr [OF assms] by blast
  from prepare_rows_Inr [OF this] show ?thesis
    by (auto intro!: nth_equalityI simp: row_faithful_def dest!: prepare_row_Inr(1))
qed


definition sample_runtime_context :: frozen_route_runtime_context where
  "sample_runtime_context = \<lparr>fr_odoo_upstream = ''odoo-1'', fr_paperless_upstreams = []\<rparr>"

definition sample_item :: "uuid \<Rightarrow> frozen_snapshot_item" where
  "sample_item w =
     \<lparr>fi_workshop_id = w, fi_projection_generation = 3,
      fi_projection_digest = ''sha256:'' @ replicate 64 CHR ''a'', fi_disposition = Absent,
      fi_canonical_projection = None, fi_applied_rendered_digest = ''sha256:'' @ replicate 64 CHR ''a''\<rparr>"

definition sample_prepared_row :: "uuid \<Rightarrow> prepared_row" where
  "sample_prepared_row w =
     \<lparr>pw_workshop_id = w, pw_projection_generation = 3,
      pw_projection_digest = ''sha256:'' @ replicate 64 CHR ''a'',
      pw_applied_rendered_digest = ''sha256:'' @ replicate 64 CHR ''a'', pw_contents = None\<rparr>"

definition sample_prepared :: prepared_route_set where
  "sample_prepared = \<lparr>ps_publication_kind = Projection, ps_target_workshop_id = Some 1,
     ps_rows = [sample_prepared_row 1, sample_prepared_row 2], ps_next_row = 0\<rparr>"

lemma sample_prepare:
  "prepare_frozen_route_set_scoped (\<lambda>_. Some []) sample_sha256_hex (\<lambda>_. None) Projection (Some 1)
     sample_runtime_context [sample_item 1, sample_item 2] = Inr sample_prepared"
proof -
  have name: "validate_name ''odoo-1'' = Inr ()" and order: "\<not> (2 :: uuid) \<le> 1" by code_simp+
  have "map_option length (json_as_object canonical_absent_projection) = Some PROJECTION_FIELD_COUNT"
    by code_simp
  moreover have "each (\<lambda>key. ensure (key \<in> fst ` set object) e)
      [''database_id'', ''database_ref'', ''public_hostname'', ''paperless_mode'',
        ''paperless_hostname'', ''custom_hostnames''] = Inr ()"
    if "json_as_object canonical_absent_projection = Some object" for object and e :: driver_error
    using that by (auto simp: canonical_absent_projection_def ensure_def)
  ultimately obtain projection where "parse (\<lambda>_. Some []) sample_sha256_hex (\<lambda>_. None)
      canonical_absent_projection (''sha256:'' @ replicate 64 CHR ''a'') Absent = Inr projection"
      and "pr_disposition projection = Absent"
    using sample_digest_valid
    by (auto simp: parse_def ensure_def sample_sha256_hex_def canonical_absent_projection_def)
  then have "prepare_row (\<lambda>_. Some []) sample_sha256_hex (\<lambda>_. None) Projection (Some 1)
      sample_runtime_context (sample_item w) = Inr (sample_prepared_row w, [])" for w
    using sample_digest_valid
    by (simp add: prepare_row_def sample_item_def sample_prepared_row_def ensure_def validate_digest_def
          parse_optional_def render_row_def row_runtime_def render_def sample_sha256_hex_def)
  moreover have "validate_snapshot_shape (Some 1) sample_runtime_context [sample_item 1, sample_item 2] = Inr ()"
    using name order by (simp add: validate_snapshot_shape_def ensure_def sample_runtime_context_def sample_item_def
        is_nil_def MAX_ROUTES_def)
  ultimately show ?thesis
    by (simp add: prepare_frozen_route_set_scoped_def ensure_def sample_runtime_context_def sample_prepared_def)
qed


lemma prepared_rows_stageable:
  assumes "prepare_frozen_route_set_scoped jcs sha256_hex parse_uuid kind target runtime items = Inr p"
    and "\<forall>bytes. valid_sha256 (''sha256:'' @ sha256_hex bytes)"
    and "\<forall>row \<in> set (ps_rows p). length (to_vec (row_evidence sha256_hex (to_stage_row row))) < 512 \<and>
      CHR 0x0A \<notin> set (to_vec (row_evidence sha256_hex (to_stage_row row)))"
  shows "\<forall>r \<in> set (map to_stage_row (ps_rows p)). row_stageable sha256_hex to_vec r"
proof -
  obtain required where p: "validate_snapshot_shape target runtime items = Inr ()"
      "prepare_rows (prepare_row jcs sha256_hex parse_uuid kind target runtime) items = Inr (ps_rows p, required)"
    using prepare_scoped_Inr [OF assms(1)] by blast
  have "row_stageable sha256_hex to_vec (to_stage_row row)" if row_in: "row \<in> set (ps_rows p)" for row
  proof -
    obtain n where "n < length (ps_rows p)" and nth: "row = ps_rows p ! n"
      using row_in by (auto simp: in_set_conv_nth)
    moreover from this prepare_rows_Inr [OF p(2)] obtain req where
        "prepare_row jcs sha256_hex parse_uuid kind target runtime (items ! n) = Inr (row, req)"
      by auto
    ultimately have n: "n < length items" "row = ps_rows p ! n"
        "prepare_row jcs sha256_hex parse_uuid kind target runtime (items ! n) = Inr (row, req)"
      using prepare_rows_Inr [OF p(2)] by simp_all
    note row = prepare_row_Inr [OF n(3)]
    have "\<not> is_nil (fi_workshop_id (items ! n))" using validate_snapshot_shape_Inr(2) [OF p(1)] n(1) by simp
    moreover have line: "length (row_line sha256_hex to_vec (to_stage_row row)) \<le> MAX_EVIDENCE_LINE_BYTES"
      using assms(3) row_in by (simp add: row_line_def MAX_EVIDENCE_LINE_BYTES_def Suc_le_eq)
    moreover have f: "pw_workshop_id row = fi_workshop_id (items ! n)"
        "pw_projection_generation row = fi_projection_generation (items ! n)"
        "pw_projection_digest row = fi_projection_digest (items ! n)"
        "pw_applied_rendered_digest row = fi_applied_rendered_digest (items ! n)"
      using row(1) by (simp_all add: row_faithful_def)
    ultimately have "validate_seal_evidence sha256_hex (row_evidence sha256_hex (to_stage_row row)) = Inr ()"
      using row(2-4) assms(2)
      by (simp add: validate_seal_evidence_Inr row_evidence_def to_stage_row_def digest_bytes_def)
    moreover have "case sr_contents (to_stage_row row) of None \<Rightarrow> True | Some c \<Rightarrow> validate_route_bytes c = Inr ()"
      using row(5) by (auto simp: to_stage_row_def split: option.splits)
    ultimately show ?thesis using line assms(3) row_in by (simp add: row_stageable_def)
  qed
  then show ?thesis by simp
qed

text \<open>
  C7. From snapshot to sealed generation. If the snapshot can be prepared for the workshop and kind
  of a valid intent, then staging it through the sealer - from scratch or over what an interrupted
  attempt left - returns one evidence row per workshop in order, the generation can be finished
  with an identity for this intent, and its manifest verifies against that identity.
\<close>

theorem frozen_route_set_sealed:
  assumes "intent_new publication kind fence target route_fence = Inr i"
    and "prepare_frozen_route_set jcs sha256_hex parse_uuid kind target runtime items = Inr p"
    and "\<forall>bytes. valid_sha256 (''sha256:'' @ sha256_hex bytes)"
    and "\<forall>row \<in> set (ps_rows p). length (to_vec (row_evidence sha256_hex (to_stage_row row))) < 512 \<and>
      CHR 0x0A \<notin> set (to_vec (row_evidence sha256_hex (to_stage_row row))) \<and>
      from_slice (to_vec (row_evidence sha256_hex (to_stage_row row))) = Some (row_evidence sha256_hex (to_stage_row row))"
    and "j \<le> length items"
    and "files_consistent routes (map to_stage_row (ps_rows p))"
    and "fst ` set routes \<subseteq> sr_workshop ` {r \<in> set (map to_stage_row (ps_rows p)). sr_contents r \<noteq> None}"
  shows "\<exists>s t. stage_frozen_route_set jcs sha256_hex parse_uuid to_vec
        (begin_seal i routes (concat (map (row_line sha256_hex to_vec) (take j (map to_stage_row (ps_rows p))))))
        kind target runtime items = Inr (map (row_evidence sha256_hex \<circ> to_stage_row) (ps_rows p), s) \<and>
      finish_sealer sha256_hex s =
        Inr (t, length items, length (filter (\<lambda>row. pw_contents row \<noteq> None) (ps_rows p))) \<and>
      ensure_identity_matches_intent t i = Inr () \<and>
      verify_evidence_manifest sha256_hex to_vec from_slice (sl_routes s) (sl_manifest s) (length items)
        (length (filter (\<lambda>row. pw_contents row \<noteq> None) (ps_rows p))) (id_route_set_digest t) = Inr ()"
proof -
  let ?rows = "map to_stage_row (ps_rows p)"
  let ?b = "begin_seal i routes (concat (map (row_line sha256_hex to_vec) (take j ?rows)))"
  note scoped = assms(2) [unfolded prepare_frozen_route_set_def]
  have p: "ps_publication_kind p = kind" "ps_target_workshop_id p = Some target" "ps_next_row p = 0"
    using prepare_scoped_Inr [OF scoped] by blast+
  have shape: "validate_snapshot_shape (Some target) runtime items = Inr ()"
    using prepare_scoped_Inr [OF scoped] by blast
  have workshops: "map sr_workshop ?rows = map fi_workshop_id items"
    using prepared_workshops [OF scoped] by (simp add: to_stage_row_def o_def)
  then have len: "length (ps_rows p) = length items" by (metis length_map)
  have i: "intent_validate i = Inr ()" "in_publication_kind i = kind" "sealer_target ?b = Some target"
    using assms(1) by (auto simp: intent_new_def Let_def result_simps sealer_target_def begin_seal_def)
  have present: "length (filter (\<lambda>r. sr_contents r \<noteq> None) ?rows) =
      length (filter (\<lambda>row. pw_contents row \<noteq> None) (ps_rows p))"
    by (simp add: filter_map o_def to_stage_row_def)
  have nonempty: "?rows \<noteq> [] \<or> in_publication_kind i = Startup"
    using validate_snapshot_shape_Inr(4) [OF shape] len by auto
  have bounded: "length ?rows \<le> MAX_ROUTES" and ordered: "ascending None (map sr_workshop ?rows)"
    using validate_snapshot_shape_Inr(1,3) [OF shape] len workshops by simp_all
  have stageable: "\<forall>r \<in> set ?rows. row_stageable sha256_hex to_vec r"
    by (rule prepared_rows_stageable [OF scoped assms(3)]) (use assms(4) in blast)
  have parsed: "\<forall>r \<in> set ?rows. from_slice (to_vec (row_evidence sha256_hex r)) = Some (row_evidence sha256_hex r)"
    using assms(4) by simp
  have "j \<le> length ?rows" using assms(5) len by simp
  from seal_run [OF i(1) nonempty bounded ordered stageable parsed assms(3) this assms(6,7)]
  obtain s t where run: "try_fold (stage_row sha256_hex to_vec) ?b ?rows = Inr s"
      "finish_sealer sha256_hex s = Inr (t, length ?rows, length (filter (\<lambda>r. sr_contents r \<noteq> None) ?rows))"
      "ensure_identity_matches_intent t i = Inr ()"
      "verify_evidence_manifest sha256_hex to_vec from_slice (sl_routes s) (sl_manifest s) (length ?rows)
        (length (filter (\<lambda>r. sr_contents r \<noteq> None) ?rows)) (id_route_set_digest t) = Inr ()"
    by blast
  have "stage_loop sha256_hex to_vec p ?b =
      Inr (map (row_evidence sha256_hex \<circ> to_stage_row) (ps_rows p), p\<lparr>ps_next_row := length (ps_rows p)\<rparr>, s)"
    using stage_loop_rows [of p ?b sha256_hex to_vec s] p i run(1) by (simp add: begin_seal_def)
  then have "stage_frozen_route_set jcs sha256_hex parse_uuid to_vec ?b kind target runtime items =
      Inr (map (row_evidence sha256_hex \<circ> to_stage_row) (ps_rows p), s)"
    using assms(2) i by (simp add: stage_frozen_route_set_def ensure_def begin_seal_def)
  with run show ?thesis unfolding present length_map len by blast
qed

theorem frozen_route_set_sealed_witness:
  "\<exists>s t. stage_frozen_route_set (\<lambda>_. Some []) sample_sha256_hex (\<lambda>_. None) sample_to_vec
      (begin_seal sample_intent [] []) Projection 1 sample_runtime_context [sample_item 1, sample_item 2] =
        Inr (map (row_evidence sample_sha256_hex \<circ> to_stage_row) (ps_rows sample_prepared), s) \<and>
      finish_sealer sample_sha256_hex s = Inr (t, 2, 0)"
proof -
  let ?from = "\<lambda>v. Some (row_evidence sample_sha256_hex
    (to_stage_row (sample_prepared_row (if v = ''1'' then 1 else 2))))"
  have "intent_new 7 Projection 4 1 2 = Inr sample_intent"
    by (simp add: intent_new_def intent_validate_def scope_valid_def is_nil_def sample_intent_def Let_def)
  moreover have "prepare_frozen_route_set (\<lambda>_. Some []) sample_sha256_hex (\<lambda>_. None) Projection 1
      sample_runtime_context [sample_item 1, sample_item 2] = Inr sample_prepared"
    using sample_prepare by (simp add: prepare_frozen_route_set_def)
  moreover have "\<forall>bytes. valid_sha256 (''sha256:'' @ sample_sha256_hex bytes)"
    using sample_digest_valid by (simp add: sample_sha256_hex_def)
  moreover have "\<forall>row \<in> set (ps_rows sample_prepared).
      length (sample_to_vec (row_evidence sample_sha256_hex (to_stage_row row))) < 512 \<and>
      CHR 0x0A \<notin> set (sample_to_vec (row_evidence sample_sha256_hex (to_stage_row row))) \<and>
      ?from (sample_to_vec (row_evidence sample_sha256_hex (to_stage_row row))) =
        Some (row_evidence sample_sha256_hex (to_stage_row row))"
    by (simp add: sample_prepared_def sample_to_vec_def row_evidence_def to_stage_row_def sample_prepared_row_def)
  moreover have "files_consistent [] (map to_stage_row (ps_rows sample_prepared))"
    by (simp add: files_consistent_def)
  ultimately show ?thesis
    using frozen_route_set_sealed [where j = 0 and routes = "[]" and from_slice = ?from and to_vec = sample_to_vec,
        of 7 Projection 4 1 2 sample_intent "\<lambda>_. Some []" sample_sha256_hex "\<lambda>_. None"
        sample_runtime_context "[sample_item 1, sample_item 2]" sample_prepared]
    by (auto simp: sample_prepared_def sample_prepared_row_def)
qed

end
