(* ===== verification/Route_Set_Publication_Db.thy ===== *)
theory Route_Set_Publication_Db
  imports Gateway_Identity Route_Set_Staging
begin

text \<open>
  \<open>src/docker_driver/route_set_publication_db.rs\<close>: the typed boundary between the publication
  coordinator and the database functions of the route-set ledger. Every operation checks its
  arguments, binds them to one SQL statement, and checks the row that comes back before it becomes
  an outcome. An operation is modelled as its two halves: the statement it issues (\<open>_sql\<close>) and what
  it makes of the reply (\<open>_reply\<close>); the database functions in between are not part of this file.

  \<open>json_to_vec\<close> is the compact text of a JSON value and \<open>parse_uuid\<close> the text form of a UUID.
\<close>

section \<open>Requests, leases and outcomes\<close>

type_synonym i32 = "32 word"

definition MIN_LEASE_SECONDS :: int where "MIN_LEASE_SECONDS = 60"
definition MAX_LEASE_SECONDS :: int where "MAX_LEASE_SECONDS = 1200"
definition MAX_CANONICAL_PROJECTION_BYTES :: nat where "MAX_CANONICAL_PROJECTION_BYTES = 65536"

definition EMPTY_RENDERED_DIGEST :: str where
  "EMPTY_RENDERED_DIGEST = ''sha256:e3b0c44298fc1c149afbf4c8996fb92427ae41e4649b934ca495991b7852b855''"

datatype applied_disposition = AppliedPresent | AppliedAbsent

fun applied_of :: "route_disposition \<Rightarrow> applied_disposition" where
  "applied_of Present = AppliedPresent"
| "applied_of Absent = AppliedAbsent"

record control_operation_lease =
  co_id :: uuid
  co_attempt :: i32
  co_owner :: str

record publication_admission_request =
  ar_control_operation :: control_operation_lease
  ar_workshop_id :: uuid
  ar_publication_kind :: route_set_publication_kind
  ar_idempotency_key :: str
  ar_request_digest :: str
  ar_projection_generation :: i64
  ar_projection_digest :: str
  ar_expected_disposition :: applied_disposition
  ar_instance_owner :: uuid
  ar_execution_token :: uuid
  ar_global_lease_token :: uuid
  ar_route_lease_token :: uuid
  ar_ttl_seconds :: i32

record publication_result_request =
  rq_control_operation_id :: uuid
  rq_workshop_id :: uuid
  rq_idempotency_key :: str
  rq_request_digest :: str
  rq_expected_generation :: i64
  rq_expected_projection_digest :: str
  rq_expected_disposition :: applied_disposition

record publication_lease =
  pl_publication_id :: uuid
  pl_driver_operation_id :: uuid
  pl_publication_kind :: route_set_publication_kind
  pl_control_operation :: control_operation_lease
  pl_target_workshop_id :: uuid
  pl_target_projection_generation :: i64
  pl_target_projection_digest :: str
  pl_expected_disposition :: applied_disposition
  pl_instance_owner :: uuid
  pl_execution_token :: uuid
  pl_global_lease_token :: uuid
  pl_route_lease_token :: uuid
  pl_global_fence_token :: i64
  pl_target_route_fence_token :: i64
  pl_selector :: str
  pl_snapshot_count :: nat
  pl_ttl_seconds :: i32

datatype publication_refusal_kind =
    RefusedInvalid | UpstreamLeaseLost | ProtocolInactive | LegacyReceipt | RefusedConflict
  | RefusedAuthorityLost | FleetQuarantined | FleetBusy | FleetNotReady

fun refusal_as_str :: "publication_refusal_kind \<Rightarrow> str" where
  "refusal_as_str RefusedInvalid = ''invalid''"
| "refusal_as_str UpstreamLeaseLost = ''upstream_lease_lost''"
| "refusal_as_str ProtocolInactive = ''protocol_inactive''"
| "refusal_as_str LegacyReceipt = ''legacy_receipt''"
| "refusal_as_str RefusedConflict = ''conflict''"
| "refusal_as_str RefusedAuthorityLost = ''authority_lost''"
| "refusal_as_str FleetQuarantined = ''fleet_quarantined''"
| "refusal_as_str FleetBusy = ''fleet_busy''"
| "refusal_as_str FleetNotReady = ''fleet_not_ready''"

definition refusal_parse :: "str \<Rightarrow> publication_refusal_kind option" where
  "refusal_parse s =
     (if s = ''invalid'' then Some RefusedInvalid
      else if s = ''upstream_lease_lost'' then Some UpstreamLeaseLost
      else if s = ''protocol_inactive'' then Some ProtocolInactive
      else if s = ''legacy_receipt'' then Some LegacyReceipt
      else if s = ''conflict'' then Some RefusedConflict
      else if s = ''authority_lost'' then Some RefusedAuthorityLost
      else if s = ''fleet_quarantined'' then Some FleetQuarantined
      else if s = ''fleet_busy'' then Some FleetBusy
      else if s = ''fleet_not_ready'' then Some FleetNotReady
      else None)"

record publication_refusal =
  rf_kind :: publication_refusal_kind
  rf_publication_id :: "uuid option"
  rf_driver_operation_id :: "uuid option"
  rf_global_fence_token :: "i64 option"
  rf_target_route_fence_token :: "i64 option"
  rf_selector :: "str option"
  rf_snapshot_count :: "nat option"

datatype publication_admission =
    AdmissionAcquired publication_lease
  | AdmissionReplay publication_lease
  | AdmissionRefused publication_refusal

record db_snapshot_item =
  ds_workshop_id :: uuid
  ds_projection_generation :: i64
  ds_projection_digest :: str
  ds_disposition :: route_disposition
  ds_canonical_projection :: json
  ds_applied_rendered_digest :: str
  ds_is_target :: bool

definition into_staging_item :: "db_snapshot_item \<Rightarrow> frozen_snapshot_item" where
  "into_staging_item i =
     \<lparr>fi_workshop_id = ds_workshop_id i, fi_projection_generation = ds_projection_generation i,
      fi_projection_digest = ds_projection_digest i, fi_disposition = ds_disposition i,
      fi_canonical_projection = Some (ds_canonical_projection i),
      fi_applied_rendered_digest = ds_applied_rendered_digest i\<rparr>"

datatype record_prior_outcome =
    PriorRecorded | PriorReplay | PriorAuthorityLost | PriorConflict | PriorWrongPhase | PriorInvalid

datatype record_entry_outcome =
    EntryRecorded | EntryReplay | EntryAuthorityLost | EntryInvalid | EntryConflict | EntryWrongPhase
  | EntryPriorAbsent | EntryOutOfOrder | EntrySnapshotDrift | EntryRenderInvariantMismatch

datatype seal_outcome =
    Sealed | SealReplay | SealAuthorityLost | SealWrongPhase | SealPriorAbsent | SealInvalid
  | SealPriorDirectoryReused | SealCountMismatch | SealPresentCountMismatch | SealDigestMismatch

datatype start_outcome = Started | StartReplay | StartAuthorityLost | StartWrongPhase

datatype observe_outcome =
    Observed | ObserveReplay | ObserveAuthorityLost | ObservationMismatch | ObserveWrongPhase

record route_set_applied_evidence =
  ae_driver_operation_id :: uuid
  ae_workshop_id :: uuid
  ae_route_generation :: i64
  ae_projection_digest :: str
  ae_disposition :: applied_disposition
  ae_rendered_digest :: str
  ae_route_fence_token :: i64

record completed_route_set_evidence =
  ce_protocol_version :: "8 word"
  ce_publication_id :: uuid
  ce_publication_kind :: route_set_publication_kind
  ce_selector :: str
  ce_route_set_digest :: str
  ce_snapshot_count :: nat
  ce_present_count :: nat
  ce_global_fence_token :: i64
  ce_directory_device :: "64 word"
  ce_directory_inode :: "64 word"

record publication_response =
  re_outcome :: str
  re_workshop_id :: uuid
  re_route_evidence :: route_set_applied_evidence
  re_route_set_evidence :: completed_route_set_evidence

datatype finish_outcome =
    FinishCompleted publication_response
  | FinishReplay publication_response
  | FinishAuthorityLost | FinishConflict | FinishWrongPhase | FinishInvalid

record publication_not_applied =
  na_outcome :: str
  na_publication_id :: uuid
  na_driver_operation_id :: uuid
  na_resolution_kind :: str
  na_safe_error :: str

datatype read_result =
    ResultAbsent | ResultConflict | ResultPending uuid uuid
  | ResultCompleted uuid uuid publication_response
  | ResultNotApplied publication_not_applied


record prior_selector =
  sel_target :: str
  sel_directory_dev :: "64 word"
  sel_directory_ino :: "64 word"

record sealed_route_set_generation =
  sg_name :: str
  sg_identity :: route_set_generation_identity
  sg_route_count :: nat
  sg_present_route_count :: nat
  sg_selector :: prior_selector

datatype prior_loaded_identity =
    BootLive
  | PriorStartup gateway_generation_identity
  | PriorReleaseOverlay release_overlay_generation_identity
  | PriorRouteSet route_set_generation_identity

datatype db_prior_identity =
    DbStartup gateway_generation_identity
  | DbRelease release_overlay_generation_identity
  | DbRouteSet route_set_generation_identity

text \<open>\<open>RouteSetGenerationName::selector_target\<close>.\<close>

definition selector_target :: "uuid \<Rightarrow> route_set_publication_kind \<Rightarrow> str" where
  "selector_target publication_id kind = ''generations/'' @ generation_name publication_id kind"


section \<open>Validation\<close>

definition valid_bare_sha256 :: "str \<Rightarrow> bool" where
  "valid_bare_sha256 v = hex_digest v 64 64"

text \<open>\<open>pg_file_identity\<close>: a positive \<open>i64\<close>; \<open>pg_count\<close>: a count that fits an \<open>i32\<close>.\<close>

definition pg_file_identity :: "64 word \<Rightarrow> driver_error + i64" where
  "pg_file_identity v =
     (if uint v < 2 ^ 63 \<and> uint v > 0 then Inr v
      else Inl (internal ''route-set directory identity is invalid''))"

definition pg_count :: "nat \<Rightarrow> driver_error + i32" where
  "pg_count v = (if v < 2 ^ 31 then Inr (word_of_nat v) else Inl (internal ''route-set count is invalid''))"

definition required_uuid :: "uuid option \<Rightarrow> driver_error + uuid" where
  "required_uuid v = ok_or (opt_filter (\<lambda>v. \<not> is_nil v) v) (internal ''route-set uuid is invalid'')"

definition required_fence :: "i64 option \<Rightarrow> driver_error + i64" where
  "required_fence v = ok_or (opt_filter (\<lambda>v. sint v > 0) v) (internal ''route-set fence is invalid'')"

definition valid_optional_uuid :: "uuid option \<Rightarrow> driver_error + uuid option" where
  "valid_optional_uuid v =
     (case v of Some u \<Rightarrow> if is_nil u then Inl (internal ''route-set optional UUID is invalid'') else Inr v
      | None \<Rightarrow> Inr v)"

definition valid_optional_fence :: "i64 option \<Rightarrow> driver_error + i64 option" where
  "valid_optional_fence v =
     (case v of Some f \<Rightarrow> if sint f \<le> 0 then Inl (internal ''route-set optional fence is invalid'') else Inr v
      | None \<Rightarrow> Inr v)"

definition valid_optional_count :: "i32 option \<Rightarrow> driver_error + nat option" where
  "valid_optional_count v =
     (case v of
        Some n \<Rightarrow> if sint n \<ge> 0 then Inr (Some (nat (sint n)))
                  else Inl (internal ''route-set diagnostic count is invalid'')
      | None \<Rightarrow> Inr None)"

definition validate_optional_selector ::
  "uuid option \<Rightarrow> route_set_publication_kind \<Rightarrow> str option \<Rightarrow> driver_error + str option" where
  "validate_optional_selector publication_id kind selector =
     (case (publication_id, selector) of
        (_, None) \<Rightarrow> Inr None
      | (Some p, Some s) \<Rightarrow>
          if \<not> is_nil p \<and> s = selector_target p kind then Inr (Some s)
          else Inl (internal ''route-set optional selector identity is invalid'')
      | (None, Some _) \<Rightarrow> Inl (internal ''route-set optional selector identity is invalid''))"

definition admission_request_validate :: "publication_admission_request \<Rightarrow> driver_error + unit" where
  "admission_request_validate r =
     ensure (\<not> (ar_publication_kind r \<noteq> Projection \<or> is_nil (co_id (ar_control_operation r)) \<or>
       sint (co_attempt (ar_control_operation r)) \<le> 0 \<or> blank (co_owner (ar_control_operation r)) \<or>
       ar_idempotency_key r = [] \<or> length (ar_idempotency_key r) > 180 \<or>
       \<not> valid_bare_sha256 (ar_request_digest r) \<or> sint (ar_projection_generation r) \<le> 0 \<or>
       \<not> valid_sha256 (ar_projection_digest r) \<or> is_nil (ar_workshop_id r) \<or> is_nil (ar_instance_owner r) \<or>
       is_nil (ar_execution_token r) \<or> is_nil (ar_global_lease_token r) \<or> is_nil (ar_route_lease_token r) \<or>
       \<not> (MIN_LEASE_SECONDS \<le> sint (ar_ttl_seconds r) \<and> sint (ar_ttl_seconds r) \<le> MAX_LEASE_SECONDS)))
       (internal ''route-set publication admission request is invalid'')"

definition from_admission :: "publication_admission_request \<Rightarrow> publication_result_request" where
  "from_admission r =
     \<lparr>rq_control_operation_id = co_id (ar_control_operation r), rq_workshop_id = ar_workshop_id r,
      rq_idempotency_key = ar_idempotency_key r, rq_request_digest = ar_request_digest r,
      rq_expected_generation = ar_projection_generation r,
      rq_expected_projection_digest = ar_projection_digest r,
      rq_expected_disposition = ar_expected_disposition r\<rparr>"

definition result_request_validate :: "publication_result_request \<Rightarrow> driver_error + unit" where
  "result_request_validate r =
     ensure (\<not> (is_nil (rq_control_operation_id r) \<or> is_nil (rq_workshop_id r) \<or>
       rq_idempotency_key r = [] \<or> length (rq_idempotency_key r) > 180 \<or>
       \<not> valid_bare_sha256 (rq_request_digest r) \<or> sint (rq_expected_generation r) \<le> 0 \<or>
       \<not> valid_sha256 (rq_expected_projection_digest r)))
       (internal ''route-set publication result request is invalid'')"

definition lease_validate :: "publication_lease \<Rightarrow> driver_error + unit" where
  "lease_validate l =
     ensure (\<not> (is_nil (pl_publication_id l) \<or> is_nil (pl_driver_operation_id l) \<or>
       pl_publication_kind l \<notin> {Projection, RecoveryMaintenance, RecoveryRestore} \<or>
       is_nil (co_id (pl_control_operation l)) \<or> sint (co_attempt (pl_control_operation l)) \<le> 0 \<or>
       blank (co_owner (pl_control_operation l)) \<or> is_nil (pl_target_workshop_id l) \<or>
       sint (pl_target_projection_generation l) \<le> 0 \<or> \<not> valid_sha256 (pl_target_projection_digest l) \<or>
       is_nil (pl_instance_owner l) \<or> is_nil (pl_execution_token l) \<or> is_nil (pl_global_lease_token l) \<or>
       is_nil (pl_route_lease_token l) \<or> sint (pl_global_fence_token l) \<le> 0 \<or>
       sint (pl_target_route_fence_token l) \<le> 0 \<or>
       pl_selector l \<noteq> selector_target (pl_publication_id l) (pl_publication_kind l) \<or>
       \<not> (1 \<le> pl_snapshot_count l \<and> pl_snapshot_count l \<le> MAX_ROUTES) \<or>
       \<not> (MIN_LEASE_SECONDS \<le> sint (pl_ttl_seconds l) \<and> sint (pl_ttl_seconds l) \<le> MAX_LEASE_SECONDS)))
       (internal ''route-set publication lease identity is invalid'')"

text \<open>The database's own check of an evidence row; here the applied digest is mandatory.\<close>

definition validate_entry_evidence :: "route_set_seal_evidence \<Rightarrow> driver_error + unit" where
  "validate_entry_evidence e =
     ensure (\<not> (is_nil (se_workshop_id e) \<or> sint (se_projection_generation e) \<le> 0 \<or>
       \<not> valid_sha256 (se_projection_digest e) \<or>
       (case se_applied_rendered_digest e of None \<Rightarrow> True | Some d \<Rightarrow> \<not> valid_sha256 d) \<or>
       \<not> valid_sha256 (se_rendered_digest e) \<or>
       (disposition_as_str (se_disposition e) = ''absent'' \<and> se_rendered_digest e \<noteq> EMPTY_RENDERED_DIGEST)))
       (internal ''route-set entry evidence is invalid'')"

definition validate_target_evidence :: "publication_lease \<Rightarrow> route_set_seal_evidence \<Rightarrow> driver_error + unit" where
  "validate_target_evidence l e =
     and_then (validate_entry_evidence e) (\<lambda>_.
       ensure (\<not> (se_workshop_id e \<noteq> pl_target_workshop_id l \<or>
         se_projection_generation e \<noteq> pl_target_projection_generation l \<or>
         se_projection_digest e \<noteq> pl_target_projection_digest l \<or>
         pl_expected_disposition l \<noteq> applied_of (se_disposition e)))
         (internal ''route-set target evidence differs from its lease''))"

definition identity_binds_lease :: "route_set_generation_identity \<Rightarrow> publication_lease \<Rightarrow> bool" where
  "identity_binds_lease i l \<longleftrightarrow>
     id_publication_id i = pl_publication_id l \<and> id_publication_kind i = pl_publication_kind l \<and>
     id_global_fence_token i = pl_global_fence_token l \<and>
     map_option fst (target_scope (id_scope i)) = Some (pl_target_workshop_id l) \<and>
     map_option snd (target_scope (id_scope i)) = Some (pl_target_route_fence_token l)"

definition validate_sealed_generation ::
  "publication_lease \<Rightarrow> sealed_route_set_generation \<Rightarrow> driver_error + unit" where
  "validate_sealed_generation l s =
     and_then (identity_validate (sg_identity s)) (\<lambda>_.
     and_then (ensure (\<not> (sg_name s \<noteq> generation_name (pl_publication_id l) (pl_publication_kind l) \<or>
         sel_target (sg_selector s) \<noteq> pl_selector l \<or> \<not> identity_binds_lease (sg_identity s) l \<or>
         sg_route_count s \<noteq> pl_snapshot_count l \<or> sg_present_route_count s > sg_route_count s))
       (internal ''sealed route-set generation differs from its publication lease'')) (\<lambda>_.
     and_then (pg_file_identity (sel_directory_dev (sg_selector s))) (\<lambda>_.
     and_then (pg_file_identity (sel_directory_ino (sg_selector s))) (\<lambda>_. Inr ()))))"

definition validate_observation ::
  "publication_lease \<Rightarrow> prior_selector \<Rightarrow> route_set_generation_identity \<Rightarrow> driver_error + unit" where
  "validate_observation l observed i =
     and_then (identity_validate i) (\<lambda>_.
     and_then (ensure (\<not> (sel_target observed \<noteq> pl_selector l \<or> \<not> identity_binds_lease i l))
       (internal ''observed route-set identity differs from its publication lease'')) (\<lambda>_.
     and_then (pg_file_identity (sel_directory_dev observed)) (\<lambda>_.
     and_then (pg_file_identity (sel_directory_ino observed)) (\<lambda>_. Inr ()))))"


text \<open>
  \<open>RouteSetPriorLoadedIdentity::validate_for_selector\<close>: the selector an identity must be loaded
  from, and the JSON value that is stored with it.
\<close>

fun prior_expected_selector :: "db_prior_identity \<Rightarrow> driver_error + str" where
  "prior_expected_selector (DbStartup i) =
     (if is_nil (gi_effect_run_id i) \<or> \<not> valid_sha256 (gi_sealed_digest i)
      then Inl (internal ''startup prior route identity is invalid'')
      else Inr (''generations/startup-'' @ uuid_hyphenated (gi_effect_run_id i)))"
| "prior_expected_selector (DbRelease i) =
     and_then (overlay_identity_validate i) (\<lambda>_.
       Inr (''generations/release-'' @ uuid_simple (ro_fleet_run_id i) @ ''-'' @
            overlay_kind_as_str (ro_overlay_kind i)))"
| "prior_expected_selector (DbRouteSet i) =
     and_then (identity_validate i) (\<lambda>_.
       Inr (selector_target (id_publication_id i) (id_publication_kind i)))"

fun prior_identity_json :: "db_prior_identity \<Rightarrow> json" where
  "prior_identity_json (DbStartup i) = gateway_identity_json i"
| "prior_identity_json (DbRelease i) = overlay_identity_json i"
| "prior_identity_json (DbRouteSet i) = route_set_identity_json i"

definition validate_for_selector :: "(json \<Rightarrow> str) \<Rightarrow> db_prior_identity \<Rightarrow> str \<Rightarrow> driver_error + json" where
  "validate_for_selector json_to_vec i selector =
     and_then (prior_expected_selector i) (\<lambda>expected.
     and_then (ensure (selector = expected)
       (internal ''prior route selector differs from its loaded identity'')) (\<lambda>_.
     and_then (ensure (\<not> length (json_to_vec (prior_identity_json i)) > 4096)
       (internal ''prior route identity exceeded its bound'')) (\<lambda>_.
       Inr (prior_identity_json i))))"

definition validate_prior_evidence ::
  "(json \<Rightarrow> str) \<Rightarrow> prior_selector \<Rightarrow> db_prior_identity option \<Rightarrow> driver_error + json option" where
  "validate_prior_evidence json_to_vec prior loaded =
     and_then (pg_file_identity (sel_directory_dev prior)) (\<lambda>_.
     and_then (pg_file_identity (sel_directory_ino prior)) (\<lambda>_.
     and_then (ensure ((sel_target prior = ''generations/boot-live'') = (loaded = None))
       (internal ''route-set prior evidence identity is invalid'')) (\<lambda>_.
       case loaded of
         None \<Rightarrow> Inr None
       | Some i \<Rightarrow> and_then (validate_for_selector json_to_vec i (sel_target prior)) (\<lambda>v. Inr (Some v)))))"


section \<open>The completed response\<close>

fun applied_as_str :: "applied_disposition \<Rightarrow> str" where
  "applied_as_str AppliedPresent = ''present''"
| "applied_as_str AppliedAbsent = ''absent''"

definition json_as_usize :: "json \<Rightarrow> nat option" where
  "json_as_usize v = map_option unat (json_as_u64 v)"

definition applied_evidence_of_json ::
  "(str \<Rightarrow> uuid option) \<Rightarrow> json \<Rightarrow> route_set_applied_evidence option" where
  "applied_evidence_of_json parse_uuid v =
     Option.bind (fields_of [''driver_operation_id'', ''workshop_id'', ''route_generation'',
       ''projection_digest'', ''disposition'', ''rendered_digest'', ''route_fence_token''] v) (\<lambda>ms.
     Option.bind (field (json_as_uuid parse_uuid) ''driver_operation_id'' ms) (\<lambda>driver.
     Option.bind (field (json_as_uuid parse_uuid) ''workshop_id'' ms) (\<lambda>workshop.
     Option.bind (field json_as_i64 ''route_generation'' ms) (\<lambda>generation.
     Option.bind (field json_as_str ''projection_digest'' ms) (\<lambda>projection.
     Option.bind (field (variant_of applied_as_str [AppliedPresent, AppliedAbsent]) ''disposition'' ms) (\<lambda>disposition.
     Option.bind (field json_as_str ''rendered_digest'' ms) (\<lambda>rendered.
     Option.bind (field json_as_i64 ''route_fence_token'' ms) (\<lambda>fence.
       Some \<lparr>ae_driver_operation_id = driver, ae_workshop_id = workshop, ae_route_generation = generation,
             ae_projection_digest = projection, ae_disposition = disposition, ae_rendered_digest = rendered,
             ae_route_fence_token = fence\<rparr>))))))))"

definition completed_evidence_of_json ::
  "(str \<Rightarrow> uuid option) \<Rightarrow> json \<Rightarrow> completed_route_set_evidence option" where
  "completed_evidence_of_json parse_uuid v =
     Option.bind (fields_of [''protocol_version'', ''publication_id'', ''publication_kind'', ''selector'',
       ''route_set_digest'', ''snapshot_count'', ''present_count'', ''global_fence_token'',
       ''directory_device'', ''directory_inode''] v) (\<lambda>ms.
     Option.bind (field json_as_u8 ''protocol_version'' ms) (\<lambda>version.
     Option.bind (field (json_as_uuid parse_uuid) ''publication_id'' ms) (\<lambda>publication.
     Option.bind (field (variant_of publication_kind_as_str publication_kinds) ''publication_kind'' ms) (\<lambda>kind.
     Option.bind (field json_as_str ''selector'' ms) (\<lambda>selector.
     Option.bind (field json_as_str ''route_set_digest'' ms) (\<lambda>digest.
     Option.bind (field json_as_usize ''snapshot_count'' ms) (\<lambda>snapshot.
     Option.bind (field json_as_usize ''present_count'' ms) (\<lambda>present.
     Option.bind (field json_as_i64 ''global_fence_token'' ms) (\<lambda>fence.
     Option.bind (field json_as_u64 ''directory_device'' ms) (\<lambda>device.
     Option.bind (field json_as_u64 ''directory_inode'' ms) (\<lambda>inode.
       Some \<lparr>ce_protocol_version = version, ce_publication_id = publication, ce_publication_kind = kind,
             ce_selector = selector, ce_route_set_digest = digest, ce_snapshot_count = snapshot,
             ce_present_count = present, ce_global_fence_token = fence, ce_directory_device = device,
             ce_directory_inode = inode\<rparr>)))))))))))"

definition response_of_json :: "(str \<Rightarrow> uuid option) \<Rightarrow> json \<Rightarrow> publication_response option" where
  "response_of_json parse_uuid v =
     Option.bind (fields_of [''outcome'', ''workshop_id'', ''route_evidence'', ''route_set_evidence''] v) (\<lambda>ms.
     Option.bind (field json_as_str ''outcome'' ms) (\<lambda>outcome.
     Option.bind (field (json_as_uuid parse_uuid) ''workshop_id'' ms) (\<lambda>workshop.
     Option.bind (field (applied_evidence_of_json parse_uuid) ''route_evidence'' ms) (\<lambda>route.
     Option.bind (field (completed_evidence_of_json parse_uuid) ''route_set_evidence'' ms) (\<lambda>set.
       Some \<lparr>re_outcome = outcome, re_workshop_id = workshop, re_route_evidence = route,
             re_route_set_evidence = set\<rparr>)))))"

text \<open>\<open>Serialize\<close> of a response: the members in declaration order.\<close>

definition usize_json :: "nat \<Rightarrow> json" where
  "usize_json n = JNumber (PosInt (word_of_nat n))"

definition applied_evidence_json :: "route_set_applied_evidence \<Rightarrow> json" where
  "applied_evidence_json e =
     JObject [(''driver_operation_id'', uuid_json (ae_driver_operation_id e)),
       (''workshop_id'', uuid_json (ae_workshop_id e)), (''route_generation'', i64_json (ae_route_generation e)),
       (''projection_digest'', JString (ae_projection_digest e)),
       (''disposition'', JString (applied_as_str (ae_disposition e))),
       (''rendered_digest'', JString (ae_rendered_digest e)),
       (''route_fence_token'', i64_json (ae_route_fence_token e))]"

definition completed_evidence_json :: "completed_route_set_evidence \<Rightarrow> json" where
  "completed_evidence_json e =
     JObject [(''protocol_version'', u8_json (ce_protocol_version e)),
       (''publication_id'', uuid_json (ce_publication_id e)),
       (''publication_kind'', JString (publication_kind_as_str (ce_publication_kind e))),
       (''selector'', JString (ce_selector e)), (''route_set_digest'', JString (ce_route_set_digest e)),
       (''snapshot_count'', usize_json (ce_snapshot_count e)),
       (''present_count'', usize_json (ce_present_count e)),
       (''global_fence_token'', i64_json (ce_global_fence_token e)),
       (''directory_device'', JNumber (PosInt (ce_directory_device e))),
       (''directory_inode'', JNumber (PosInt (ce_directory_inode e)))]"

definition response_json :: "publication_response \<Rightarrow> json" where
  "response_json r =
     JObject [(''outcome'', JString (re_outcome r)), (''workshop_id'', uuid_json (re_workshop_id r)),
       (''route_evidence'', applied_evidence_json (re_route_evidence r)),
       (''route_set_evidence'', completed_evidence_json (re_route_set_evidence r))]"

definition parse_publication_response ::
  "(str \<Rightarrow> uuid option) \<Rightarrow> json \<Rightarrow> driver_error + publication_response" where
  "parse_publication_response parse_uuid v =
     ok_or (response_of_json parse_uuid v) (internal ''route-set publication response is invalid'')"

record publication_response_expectation =
  ex_publication_id :: uuid
  ex_publication_kind :: route_set_publication_kind
  ex_driver_operation_id :: uuid
  ex_workshop_id :: uuid
  ex_projection_generation :: i64
  ex_projection_digest :: str
  ex_expected_disposition :: "applied_disposition option"

definition validate_publication_response_common ::
  "publication_response \<Rightarrow> publication_response_expectation \<Rightarrow> driver_error + unit" where
  "validate_publication_response_common r x =
     (let route = re_route_evidence r; set = re_route_set_evidence r in
      ensure (\<not> (re_outcome r \<noteq> ''applied'' \<or> re_workshop_id r \<noteq> ex_workshop_id x \<or>
        ae_driver_operation_id route \<noteq> ex_driver_operation_id x \<or> ae_workshop_id route \<noteq> ex_workshop_id x \<or>
        ae_route_generation route \<noteq> ex_projection_generation x \<or>
        ae_projection_digest route \<noteq> ex_projection_digest x \<or>
        (case ex_expected_disposition x of None \<Rightarrow> False | Some d \<Rightarrow> ae_disposition route \<noteq> d) \<or>
        \<not> valid_sha256 (ae_rendered_digest route) \<or>
        (ae_disposition route = AppliedAbsent \<and> ae_rendered_digest route \<noteq> EMPTY_RENDERED_DIGEST) \<or>
        sint (ae_route_fence_token route) \<le> 0 \<or> ce_protocol_version set \<noteq> 1 \<or>
        ce_publication_id set \<noteq> ex_publication_id x \<or> ce_publication_kind set \<noteq> ex_publication_kind x \<or>
        ce_selector set \<noteq> selector_target (ex_publication_id x) (ce_publication_kind set) \<or>
        \<not> valid_sha256 (ce_route_set_digest set) \<or>
        \<not> (1 \<le> ce_snapshot_count set \<and> ce_snapshot_count set \<le> MAX_ROUTES) \<or>
        ce_present_count set > ce_snapshot_count set \<or> sint (ce_global_fence_token set) \<le> 0 \<or>
        ce_directory_device set = 0 \<or> \<not> uint (ce_directory_device set) < 2 ^ 63 \<or>
        ce_directory_inode set = 0 \<or> \<not> uint (ce_directory_inode set) < 2 ^ 63))
        (internal ''route-set publication response identity is invalid''))"

definition validate_publication_response_for_lease ::
  "publication_response \<Rightarrow> publication_lease \<Rightarrow> sealed_route_set_generation \<Rightarrow> route_set_seal_evidence
     \<Rightarrow> driver_error + unit" where
  "validate_publication_response_for_lease r l s e =
     and_then (validate_publication_response_common r
       \<lparr>ex_publication_id = pl_publication_id l, ex_publication_kind = pl_publication_kind l,
        ex_driver_operation_id = pl_driver_operation_id l, ex_workshop_id = pl_target_workshop_id l,
        ex_projection_generation = pl_target_projection_generation l,
        ex_projection_digest = pl_target_projection_digest l,
        ex_expected_disposition = Some (applied_of (se_disposition e))\<rparr>) (\<lambda>_.
       (let route = re_route_evidence r; set = re_route_set_evidence r in
        ensure (\<not> (ae_route_fence_token route \<noteq> pl_target_route_fence_token l \<or>
          ae_rendered_digest route \<noteq> se_rendered_digest e \<or> ce_selector set \<noteq> pl_selector l \<or>
          ce_route_set_digest set \<noteq> id_route_set_digest (sg_identity s) \<or>
          ce_snapshot_count set \<noteq> pl_snapshot_count l \<or> ce_snapshot_count set \<noteq> sg_route_count s \<or>
          ce_present_count set \<noteq> sg_present_route_count s \<or>
          ce_global_fence_token set \<noteq> pl_global_fence_token l \<or>
          ce_directory_device set \<noteq> sel_directory_dev (sg_selector s) \<or>
          ce_directory_inode set \<noteq> sel_directory_ino (sg_selector s)))
          (internal ''route-set publication response differs from its lease'')))"


section \<open>Statements\<close>

text \<open>The seven values of the lease that authorise every statement after admission.\<close>

record lease_authority =
  la_publication_id :: uuid
  la_instance_owner :: uuid
  la_execution_token :: uuid
  la_global_lease_token :: uuid
  la_route_lease_token :: uuid
  la_global_fence_token :: i64
  la_target_route_fence_token :: i64

definition authority_of :: "publication_lease \<Rightarrow> lease_authority" where
  "authority_of l =
     \<lparr>la_publication_id = pl_publication_id l, la_instance_owner = pl_instance_owner l,
      la_execution_token = pl_execution_token l, la_global_lease_token = pl_global_lease_token l,
      la_route_lease_token = pl_route_lease_token l, la_global_fence_token = pl_global_fence_token l,
      la_target_route_fence_token = pl_target_route_fence_token l\<rparr>"

datatype sql_statement =
    SqlAdmit control_operation_lease uuid str str str i64 str uuid uuid uuid uuid i32
  | SqlRenew lease_authority i32
  | SqlReadSnapshot lease_authority "uuid option" i32
  | SqlRecordPrior lease_authority str i64 i64 "json option"
  | SqlRecordEntry lease_authority uuid i64 str str "str option" str
  | SqlSeal lease_authority str i64 i64 i32 i32 str
  | SqlStart lease_authority
  | SqlObserve lease_authority str i64 i64 json
  | SqlFinish lease_authority
  | SqlReadResult uuid uuid str str
  | SqlQuarantine lease_authority str

definition admit_sql :: "publication_admission_request \<Rightarrow> driver_error + sql_statement" where
  "admit_sql r =
     and_then (admission_request_validate r) (\<lambda>_.
       Inr (SqlAdmit (ar_control_operation r) (ar_workshop_id r) (publication_kind_as_str (ar_publication_kind r))
         (ar_idempotency_key r) (ar_request_digest r) (ar_projection_generation r) (ar_projection_digest r)
         (ar_instance_owner r) (ar_execution_token r) (ar_global_lease_token r) (ar_route_lease_token r)
         (ar_ttl_seconds r)))"

definition renew_sql :: "publication_lease \<Rightarrow> driver_error + sql_statement" where
  "renew_sql l = and_then (lease_validate l) (\<lambda>_. Inr (SqlRenew (authority_of l) (pl_ttl_seconds l)))"

definition read_snapshot_sql :: "publication_lease \<Rightarrow> uuid option \<Rightarrow> nat \<Rightarrow> driver_error + sql_statement" where
  "read_snapshot_sql l after limit =
     and_then (lease_validate l) (\<lambda>_.
     and_then (ensure (\<not> (limit = 0 \<or> limit > MAX_ROUTES \<or> (case after of None \<Rightarrow> False | Some w \<Rightarrow> is_nil w)))
       (internal ''route-set snapshot batch request is invalid'')) (\<lambda>_.
     and_then (if limit < 2 ^ 31 then Inr (word_of_nat limit)
               else Inl (internal ''route-set snapshot batch limit is invalid'')) (\<lambda>sql_limit.
       Inr (SqlReadSnapshot (authority_of l) after sql_limit))))"

definition record_prior_sql ::
  "(json \<Rightarrow> str) \<Rightarrow> publication_lease \<Rightarrow> prior_selector \<Rightarrow> db_prior_identity option \<Rightarrow> driver_error + sql_statement" where
  "record_prior_sql json_to_vec l prior loaded =
     and_then (lease_validate l) (\<lambda>_.
     and_then (validate_prior_evidence json_to_vec prior loaded) (\<lambda>identity.
     and_then (pg_file_identity (sel_directory_dev prior)) (\<lambda>dev.
     and_then (pg_file_identity (sel_directory_ino prior)) (\<lambda>ino.
       Inr (SqlRecordPrior (authority_of l) (sel_target prior) dev ino identity)))))"

definition record_entry_sql ::
  "publication_lease \<Rightarrow> route_set_seal_evidence \<Rightarrow> driver_error + sql_statement" where
  "record_entry_sql l e =
     and_then (lease_validate l) (\<lambda>_.
     and_then (validate_entry_evidence e) (\<lambda>_.
       Inr (SqlRecordEntry (authority_of l) (se_workshop_id e) (se_projection_generation e)
         (se_projection_digest e) (disposition_as_str (se_disposition e)) (se_applied_rendered_digest e)
         (se_rendered_digest e))))"

definition seal_sql ::
  "publication_lease \<Rightarrow> sealed_route_set_generation \<Rightarrow> driver_error + sql_statement" where
  "seal_sql l s =
     and_then (lease_validate l) (\<lambda>_.
     and_then (validate_sealed_generation l s) (\<lambda>_.
     and_then (pg_count (sg_route_count s)) (\<lambda>records.
     and_then (pg_count (sg_present_route_count s)) (\<lambda>present.
     and_then (pg_file_identity (sel_directory_dev (sg_selector s))) (\<lambda>dev.
     and_then (pg_file_identity (sel_directory_ino (sg_selector s))) (\<lambda>ino.
       Inr (SqlSeal (authority_of l) (sel_target (sg_selector s)) dev ino records present
         (id_route_set_digest (sg_identity s)))))))))"

definition start_sql :: "publication_lease \<Rightarrow> driver_error + sql_statement" where
  "start_sql l = and_then (lease_validate l) (\<lambda>_. Inr (SqlStart (authority_of l)))"

definition observe_sql ::
  "publication_lease \<Rightarrow> prior_selector \<Rightarrow> route_set_generation_identity \<Rightarrow> driver_error + sql_statement" where
  "observe_sql l observed i =
     and_then (lease_validate l) (\<lambda>_.
     and_then (validate_observation l observed i) (\<lambda>_.
     and_then (pg_file_identity (sel_directory_dev observed)) (\<lambda>dev.
     and_then (pg_file_identity (sel_directory_ino observed)) (\<lambda>ino.
       Inr (SqlObserve (authority_of l) (sel_target observed) dev ino (route_set_identity_json i))))))"

definition finish_sql ::
  "publication_lease \<Rightarrow> sealed_route_set_generation \<Rightarrow> route_set_seal_evidence \<Rightarrow> driver_error + sql_statement" where
  "finish_sql l s e =
     and_then (lease_validate l) (\<lambda>_.
     and_then (validate_sealed_generation l s) (\<lambda>_.
     and_then (validate_target_evidence l e) (\<lambda>_.
       Inr (SqlFinish (authority_of l)))))"

definition read_result_sql :: "publication_result_request \<Rightarrow> driver_error + sql_statement" where
  "read_result_sql r =
     and_then (result_request_validate r) (\<lambda>_.
       Inr (SqlReadResult (rq_control_operation_id r) (rq_workshop_id r) (rq_idempotency_key r)
         (rq_request_digest r)))"

definition quarantine_sql :: "publication_lease \<Rightarrow> driver_error + sql_statement" where
  "quarantine_sql l =
     and_then (lease_validate l) (\<lambda>_.
       Inr (SqlQuarantine (authority_of l) ''route_set_publication_outcome_unknown''))"


section \<open>Replies\<close>

type_synonym admission_row =
  "str \<times> uuid option \<times> uuid option \<times> i64 option \<times> i64 option \<times> str option \<times> i32 option"

type_synonym snapshot_row = "uuid \<times> i64 \<times> str \<times> str \<times> json \<times> str \<times> bool"

type_synonym publication_result_row = "str \<times> uuid option \<times> uuid option \<times> json option"

definition lease_from_admission_row ::
  "publication_admission_request \<Rightarrow> admission_row \<Rightarrow> driver_error + publication_lease" where
  "lease_from_admission_row r row =
     (case row of (_, publication, driver, global_fence, route_fence, selector, row_count) \<Rightarrow>
      and_then (required_uuid publication) (\<lambda>publication_id.
      and_then (required_uuid driver) (\<lambda>driver_id.
      and_then (required_fence global_fence) (\<lambda>global_fence_token.
      and_then (required_fence route_fence) (\<lambda>route_fence_token.
      and_then (ok_or selector (internal ''route-set selector is absent'')) (\<lambda>sel.
      and_then (valid_optional_count row_count) (\<lambda>optional_count.
      and_then (ok_or optional_count (internal ''route-set snapshot count is absent'')) (\<lambda>snapshot_count.
        (let l = \<lparr>pl_publication_id = publication_id, pl_driver_operation_id = driver_id,
           pl_publication_kind = ar_publication_kind r, pl_control_operation = ar_control_operation r,
           pl_target_workshop_id = ar_workshop_id r,
           pl_target_projection_generation = ar_projection_generation r,
           pl_target_projection_digest = ar_projection_digest r,
           pl_expected_disposition = ar_expected_disposition r, pl_instance_owner = ar_instance_owner r,
           pl_execution_token = ar_execution_token r, pl_global_lease_token = ar_global_lease_token r,
           pl_route_lease_token = ar_route_lease_token r, pl_global_fence_token = global_fence_token,
           pl_target_route_fence_token = route_fence_token, pl_selector = sel,
           pl_snapshot_count = snapshot_count, pl_ttl_seconds = ar_ttl_seconds r\<rparr>
         in and_then (lease_validate l) (\<lambda>_. Inr l))))))))))"

definition admit_reply ::
  "publication_admission_request \<Rightarrow> admission_row \<Rightarrow> driver_error + publication_admission" where
  "admit_reply r row =
     (case row of (outcome, publication, driver, global_fence, route_fence, selector, row_count) \<Rightarrow>
      if outcome = ''acquired'' \<or> outcome = ''replay'' then
        and_then (lease_from_admission_row r row) (\<lambda>l.
          Inr (if outcome = ''acquired'' then AdmissionAcquired l else AdmissionReplay l))
      else
        and_then (ok_or (refusal_parse outcome)
          (internal ''route-set publication admission outcome is invalid'')) (\<lambda>kind.
        and_then (valid_optional_uuid publication) (\<lambda>publication_id.
        and_then (valid_optional_uuid driver) (\<lambda>driver_id.
        and_then (valid_optional_fence global_fence) (\<lambda>global_fence_token.
        and_then (valid_optional_fence route_fence) (\<lambda>route_fence_token.
        and_then (validate_optional_selector publication (ar_publication_kind r) selector) (\<lambda>sel.
        and_then (valid_optional_count row_count) (\<lambda>snapshot_count.
          Inr (AdmissionRefused \<lparr>rf_kind = kind, rf_publication_id = publication_id,
            rf_driver_operation_id = driver_id, rf_global_fence_token = global_fence_token,
            rf_target_route_fence_token = route_fence_token, rf_selector = sel,
            rf_snapshot_count = snapshot_count\<rparr>)))))))))"

text \<open>One row of a snapshot batch.\<close>

definition validate_snapshot_row ::
  "(json \<Rightarrow> str) \<Rightarrow> publication_lease \<Rightarrow> uuid option \<Rightarrow> snapshot_row \<Rightarrow> driver_error + db_snapshot_item" where
  "validate_snapshot_row json_to_vec l previous row =
     (case row of (workshop, generation, digest, disposition_text, projection, applied, is_target) \<Rightarrow>
      and_then (ensure (\<not> (is_nil workshop \<or> (case previous of None \<Rightarrow> False | Some p \<Rightarrow> p \<ge> workshop)))
        (internal ''route-set snapshot batch is not strictly UUID ordered'')) (\<lambda>_.
      and_then (disposition_parse disposition_text) (\<lambda>disposition.
      and_then (ensure (\<not> (sint generation \<le> 0 \<or> \<not> valid_sha256 digest \<or> json_as_object projection = None \<or>
          length (json_to_vec projection) > MAX_CANONICAL_PROJECTION_BYTES \<or> \<not> valid_sha256 applied \<or>
          is_target \<noteq> (workshop = pl_target_workshop_id l) \<or>
          (is_target \<and> (generation \<noteq> pl_target_projection_generation l \<or>
             digest \<noteq> pl_target_projection_digest l \<or>
             pl_expected_disposition l \<noteq> applied_of disposition))))
        (internal ''route-set snapshot row identity is invalid'')) (\<lambda>_.
        Inr \<lparr>ds_workshop_id = workshop, ds_projection_generation = generation,
             ds_projection_digest = digest, ds_disposition = disposition,
             ds_canonical_projection = projection, ds_applied_rendered_digest = applied,
             ds_is_target = is_target\<rparr>))))"

fun validate_snapshot_loop ::
  "(json \<Rightarrow> str) \<Rightarrow> publication_lease \<Rightarrow> uuid option \<Rightarrow> snapshot_row list \<Rightarrow> driver_error + db_snapshot_item list" where
  "validate_snapshot_loop json_to_vec l previous [] = Inr []"
| "validate_snapshot_loop json_to_vec l previous (row # rows) =
     and_then (validate_snapshot_row json_to_vec l previous row) (\<lambda>item.
     and_then (validate_snapshot_loop json_to_vec l (Some (ds_workshop_id item)) rows) (\<lambda>items.
       Inr (item # items)))"

definition validate_snapshot_rows ::
  "(json \<Rightarrow> str) \<Rightarrow> publication_lease \<Rightarrow> uuid option \<Rightarrow> nat \<Rightarrow> snapshot_row list
     \<Rightarrow> driver_error + db_snapshot_item list" where
  "validate_snapshot_rows json_to_vec l after limit rows =
     and_then (ensure (\<not> length rows > limit) (internal ''route-set snapshot batch exceeded its bound'')) (\<lambda>_.
       validate_snapshot_loop json_to_vec l after rows)"

definition parse_record_prior_outcome :: "str \<Rightarrow> driver_error + record_prior_outcome" where
  "parse_record_prior_outcome v =
     (if v = ''recorded'' then Inr PriorRecorded
      else if v = ''replay'' then Inr PriorReplay
      else if v = ''authority_lost'' then Inr PriorAuthorityLost
      else if v = ''conflict'' then Inr PriorConflict
      else if v = ''wrong_phase'' then Inr PriorWrongPhase
      else if v = ''invalid'' then Inr PriorInvalid
      else Inl (internal ''record route-set prior outcome is invalid''))"

definition parse_record_entry_outcome :: "str \<Rightarrow> driver_error + record_entry_outcome" where
  "parse_record_entry_outcome v =
     (if v = ''recorded'' then Inr EntryRecorded
      else if v = ''replay'' then Inr EntryReplay
      else if v = ''authority_lost'' then Inr EntryAuthorityLost
      else if v = ''invalid'' then Inr EntryInvalid
      else if v = ''conflict'' then Inr EntryConflict
      else if v = ''wrong_phase'' then Inr EntryWrongPhase
      else if v = ''prior_absent'' then Inr EntryPriorAbsent
      else if v = ''out_of_order'' then Inr EntryOutOfOrder
      else if v = ''snapshot_drift'' then Inr EntrySnapshotDrift
      else if v = ''render_invariant_mismatch'' then Inr EntryRenderInvariantMismatch
      else Inl (internal ''record route-set entry outcome is invalid''))"

definition parse_seal_outcome :: "str \<Rightarrow> driver_error + seal_outcome" where
  "parse_seal_outcome v =
     (if v = ''sealed'' then Inr Sealed
      else if v = ''replay'' then Inr SealReplay
      else if v = ''authority_lost'' then Inr SealAuthorityLost
      else if v = ''wrong_phase'' then Inr SealWrongPhase
      else if v = ''prior_absent'' then Inr SealPriorAbsent
      else if v = ''invalid'' then Inr SealInvalid
      else if v = ''prior_directory_reused'' then Inr SealPriorDirectoryReused
      else if v = ''count_mismatch'' then Inr SealCountMismatch
      else if v = ''present_count_mismatch'' then Inr SealPresentCountMismatch
      else if v = ''digest_mismatch'' then Inr SealDigestMismatch
      else Inl (internal ''seal route-set publication outcome is invalid''))"

definition parse_start_outcome :: "str \<Rightarrow> driver_error + start_outcome" where
  "parse_start_outcome v =
     (if v = ''started'' then Inr Started
      else if v = ''replay'' then Inr StartReplay
      else if v = ''authority_lost'' then Inr StartAuthorityLost
      else if v = ''wrong_phase'' then Inr StartWrongPhase
      else Inl (internal ''start route-set publication outcome is invalid''))"

definition parse_observe_outcome :: "str \<Rightarrow> driver_error + observe_outcome" where
  "parse_observe_outcome v =
     (if v = ''observed'' then Inr Observed
      else if v = ''replay'' then Inr ObserveReplay
      else if v = ''authority_lost'' then Inr ObserveAuthorityLost
      else if v = ''observation_mismatch'' then Inr ObservationMismatch
      else if v = ''wrong_phase'' then Inr ObserveWrongPhase
      else Inl (internal ''observe route-set publication outcome is invalid''))"

definition finish_reply ::
  "(str \<Rightarrow> uuid option) \<Rightarrow> publication_lease \<Rightarrow> sealed_route_set_generation \<Rightarrow> route_set_seal_evidence
     \<Rightarrow> str \<times> json option \<Rightarrow> driver_error + finish_outcome" where
  "finish_reply parse_uuid l s e row =
     (case row of (outcome, response) \<Rightarrow>
      if outcome = ''completed'' \<or> outcome = ''replay'' then
        and_then (ok_or response (internal ''completed route-set response is absent'')) (\<lambda>v.
        and_then (parse_publication_response parse_uuid v) (\<lambda>r.
        and_then (validate_publication_response_for_lease r l s e) (\<lambda>_.
          Inr (if outcome = ''completed'' then FinishCompleted r else FinishReplay r))))
      else if outcome = ''authority_lost'' \<and> response = None then Inr FinishAuthorityLost
      else if outcome = ''conflict'' \<and> response = None then Inr FinishConflict
      else if outcome = ''wrong_phase'' \<and> response = None then Inr FinishWrongPhase
      else if outcome = ''invalid'' \<and> response = None then Inr FinishInvalid
      else Inl (internal ''finish route-set publication outcome is invalid''))"

definition exact_response_keys :: "json \<Rightarrow> str list \<Rightarrow> driver_error + unit" where
  "exact_response_keys v expected =
     and_then (ok_or (json_as_object v) (internal ''route-set result is not an object'')) (\<lambda>object.
       ensure (\<not> (length object \<noteq> length expected \<or> list_ex (\<lambda>k. map_of object k = None) expected))
         (internal ''route-set result keys are invalid''))"

definition not_applied_of_json :: "(str \<Rightarrow> uuid option) \<Rightarrow> json \<Rightarrow> publication_not_applied option" where
  "not_applied_of_json parse_uuid v =
     Option.bind (fields_of [''outcome'', ''publication_id'', ''driver_operation_id'', ''resolution_kind'',
       ''safe_error''] v) (\<lambda>ms.
     Option.bind (field json_as_str ''outcome'' ms) (\<lambda>outcome.
     Option.bind (field (json_as_uuid parse_uuid) ''publication_id'' ms) (\<lambda>publication.
     Option.bind (field (json_as_uuid parse_uuid) ''driver_operation_id'' ms) (\<lambda>driver.
     Option.bind (field json_as_str ''resolution_kind'' ms) (\<lambda>resolution.
     Option.bind (field json_as_str ''safe_error'' ms) (\<lambda>safe_error.
       Some \<lparr>na_outcome = outcome, na_publication_id = publication, na_driver_operation_id = driver,
             na_resolution_kind = resolution, na_safe_error = safe_error\<rparr>))))))"

definition parse_not_applied ::
  "(str \<Rightarrow> uuid option) \<Rightarrow> uuid \<Rightarrow> uuid \<Rightarrow> json \<Rightarrow> driver_error + publication_not_applied" where
  "parse_not_applied parse_uuid publication_id driver_id v =
     and_then (exact_response_keys v [''outcome'', ''publication_id'', ''driver_operation_id'',
       ''resolution_kind'', ''safe_error'']) (\<lambda>_.
     and_then (ok_or (not_applied_of_json parse_uuid v)
       (internal ''not-applied route-set result is invalid'')) (\<lambda>r.
     and_then (ensure (\<not> (na_outcome r \<noteq> ''not_applied'' \<or> na_publication_id r \<noteq> publication_id \<or>
         na_driver_operation_id r \<noteq> driver_id \<or> na_resolution_kind r \<notin> {''prior'', ''unstarted''} \<or>
         na_safe_error r \<noteq> ''route_set_publication_not_applied''))
       (internal ''not-applied route-set result identity is invalid'')) (\<lambda>_. Inr r)))"

definition parse_publication_result_row ::
  "(str \<Rightarrow> uuid option) \<Rightarrow> publication_result_request \<Rightarrow> publication_result_row \<Rightarrow> driver_error + read_result" where
  "parse_publication_result_row parse_uuid q row =
     (case row of (outcome, publication, driver, response) \<Rightarrow>
      if outcome = ''absent'' \<and> publication = None \<and> driver = None \<and> response = None then Inr ResultAbsent
      else if outcome = ''conflict'' \<and> publication = None \<and> driver = None \<and> response = None then Inr ResultConflict
      else if outcome = ''pending'' \<and> response = None then
        and_then (required_uuid publication) (\<lambda>publication_id.
        and_then (required_uuid driver) (\<lambda>driver_id. Inr (ResultPending publication_id driver_id)))
      else if outcome = ''completed'' then
        and_then (required_uuid publication) (\<lambda>publication_id.
        and_then (required_uuid driver) (\<lambda>driver_id.
        and_then (ok_or response (internal ''route-set result response is absent'')) (\<lambda>v.
        and_then (parse_publication_response parse_uuid v) (\<lambda>r.
        and_then (validate_publication_response_common r
          \<lparr>ex_publication_id = publication_id, ex_publication_kind = Projection,
           ex_driver_operation_id = driver_id, ex_workshop_id = rq_workshop_id q,
           ex_projection_generation = rq_expected_generation q,
           ex_projection_digest = rq_expected_projection_digest q,
           ex_expected_disposition = Some (rq_expected_disposition q)\<rparr>) (\<lambda>_.
          Inr (ResultCompleted publication_id driver_id r))))))
      else if outcome = ''not_applied'' then
        and_then (required_uuid publication) (\<lambda>publication_id.
        and_then (required_uuid driver) (\<lambda>driver_id.
        and_then (ok_or response (internal ''not-applied route-set result is absent'')) (\<lambda>v.
        and_then (parse_not_applied parse_uuid publication_id driver_id v) (\<lambda>r.
          Inr (ResultNotApplied r)))))
      else Inl (internal ''read route-set publication result outcome is invalid''))"


section \<open>What the boundary guarantees\<close>

interpretation refusal_text: string_enum refusal_as_str "\<lambda>s. ok_or (refusal_parse s) (internal [])"
proof
  fix x show "ok_or (refusal_parse (refusal_as_str x)) (internal []) = Inr x"
    by (cases x) (simp_all add: refusal_parse_def)
next
  fix s x show "ok_or (refusal_parse s) (internal []) = Inr x \<Longrightarrow> s = refusal_as_str x"
    by (auto simp: refusal_parse_def result_simps split: if_splits)
qed

lemma pg_file_identity_Inr [result_simps]:
  "pg_file_identity v = Inr w \<longleftrightarrow> w = v \<and> v \<noteq> 0 \<and> uint v < 2 ^ 63"
proof -
  have "0 < uint v \<longleftrightarrow> v \<noteq> 0" using uint_ge_0 [of v] uint_0_iff [of v] by linarith
  then show ?thesis by (auto simp: pg_file_identity_def)
qed

text \<open>A lease the database grants is valid and carries the request's tokens.\<close>

lemma admitted_lease:
  assumes "admit_reply r row = Inr (AdmissionAcquired l)"
  shows "lease_validate l = Inr ()" "pl_control_operation l = ar_control_operation r"
    "pl_target_workshop_id l = ar_workshop_id r" "pl_publication_kind l = ar_publication_kind r"
    "pl_target_projection_generation l = ar_projection_generation r"
    "pl_target_projection_digest l = ar_projection_digest r"
    "pl_expected_disposition l = ar_expected_disposition r" "pl_instance_owner l = ar_instance_owner r"
    "pl_execution_token l = ar_execution_token r" "pl_global_lease_token l = ar_global_lease_token r"
    "pl_route_lease_token l = ar_route_lease_token r"
proof -
  have "lease_from_admission_row r row = Inr l"
    using assms by (auto simp: admit_reply_def result_simps split: if_splits prod.splits)
  then show "lease_validate l = Inr ()" "pl_control_operation l = ar_control_operation r"
    "pl_target_workshop_id l = ar_workshop_id r" "pl_publication_kind l = ar_publication_kind r"
    "pl_target_projection_generation l = ar_projection_generation r"
    "pl_target_projection_digest l = ar_projection_digest r"
    "pl_expected_disposition l = ar_expected_disposition r" "pl_instance_owner l = ar_instance_owner r"
    "pl_execution_token l = ar_execution_token r" "pl_global_lease_token l = ar_global_lease_token r"
    "pl_route_lease_token l = ar_route_lease_token r"
    by (auto simp: lease_from_admission_row_def Let_def and_then_Inr split: prod.splits)
qed

text \<open>The receipt that a lease, a sealed generation and the target's evidence determine.\<close>

definition publication_receipt ::
  "publication_lease \<Rightarrow> sealed_route_set_generation \<Rightarrow> route_set_seal_evidence \<Rightarrow> publication_response" where
  "publication_receipt l s e =
     \<lparr>re_outcome = ''applied'', re_workshop_id = pl_target_workshop_id l,
      re_route_evidence =
        \<lparr>ae_driver_operation_id = pl_driver_operation_id l, ae_workshop_id = pl_target_workshop_id l,
         ae_route_generation = pl_target_projection_generation l,
         ae_projection_digest = pl_target_projection_digest l,
         ae_disposition = applied_of (se_disposition e), ae_rendered_digest = se_rendered_digest e,
         ae_route_fence_token = pl_target_route_fence_token l\<rparr>,
      re_route_set_evidence =
        \<lparr>ce_protocol_version = 1, ce_publication_id = pl_publication_id l,
         ce_publication_kind = pl_publication_kind l, ce_selector = pl_selector l,
         ce_route_set_digest = id_route_set_digest (sg_identity s),
         ce_snapshot_count = pl_snapshot_count l, ce_present_count = sg_present_route_count s,
         ce_global_fence_token = pl_global_fence_token l,
         ce_directory_device = sel_directory_dev (sg_selector s),
         ce_directory_inode = sel_directory_ino (sg_selector s)\<rparr>\<rparr>"

lemma receipt_unique:
  assumes "validate_publication_response_for_lease r l s e = Inr ()"
  shows "r = publication_receipt l s e"
  by (intro publication_response.equality route_set_applied_evidence.equality
        completed_route_set_evidence.equality)
     (use assms in \<open>auto simp: validate_publication_response_for_lease_def
        validate_publication_response_common_def publication_receipt_def Let_def and_then_Inr ensure_Inr\<close>)

lemma receipt_valid:
  assumes "lease_validate l = Inr ()" and "validate_sealed_generation l s = Inr ()"
    and "validate_target_evidence l e = Inr ()"
  shows "validate_publication_response_for_lease (publication_receipt l s e) l s e = Inr ()"
proof -
  have "valid_sha256 (id_route_set_digest (sg_identity s))"
    using assms(2) by (auto simp: validate_sealed_generation_def identity_validate_def and_then_Inr
        validate_sha256_digest_def ensure_Inr split: if_splits)
  moreover have "sg_route_count s = pl_snapshot_count l" "sg_present_route_count s \<le> sg_route_count s"
      "sel_directory_dev (sg_selector s) \<noteq> 0" "sel_directory_ino (sg_selector s) \<noteq> 0"
      "uint (sel_directory_dev (sg_selector s)) < 2 ^ 63" "uint (sel_directory_ino (sg_selector s)) < 2 ^ 63"
    using assms(2) by (auto simp: validate_sealed_generation_def and_then_Inr ensure_Inr pg_file_identity_Inr)
  moreover have "valid_sha256 (se_rendered_digest e)"
      "applied_of (se_disposition e) = AppliedAbsent \<Longrightarrow> se_rendered_digest e = EMPTY_RENDERED_DIGEST"
    using assms(3) by (cases "se_disposition e";
        auto simp: validate_target_evidence_def validate_entry_evidence_def and_then_Inr ensure_Inr)+
  moreover have "sint (pl_target_route_fence_token l) > 0" "sint (pl_global_fence_token l) > 0"
      "pl_selector l = selector_target (pl_publication_id l) (pl_publication_kind l)"
      "1 \<le> pl_snapshot_count l" "pl_snapshot_count l \<le> MAX_ROUTES"
    using assms(1) by (auto simp: lease_validate_def ensure_Inr)
  ultimately show ?thesis
    by (simp add: validate_publication_response_for_lease_def validate_publication_response_common_def
        publication_receipt_def Let_def and_then_Inr ensure_Inr not_le)
qed

text \<open>A row the boundary lets through is bound to the lease.\<close>

definition item_bound :: "publication_lease \<Rightarrow> db_snapshot_item \<Rightarrow> bool" where
  "item_bound l i \<longleftrightarrow> \<not> is_nil (ds_workshop_id i) \<and> sint (ds_projection_generation i) > 0 \<and>
     valid_sha256 (ds_projection_digest i) \<and> valid_sha256 (ds_applied_rendered_digest i) \<and>
     (ds_is_target i \<longleftrightarrow> ds_workshop_id i = pl_target_workshop_id l) \<and>
     (ds_is_target i \<longrightarrow> ds_projection_generation i = pl_target_projection_generation l \<and>
       ds_projection_digest i = pl_target_projection_digest l \<and>
       pl_expected_disposition l = applied_of (ds_disposition i))"

lemma validate_snapshot_row_Inr:
  assumes "validate_snapshot_row json_to_vec l previous row = Inr item"
  shows "item_bound l item \<and> (case previous of None \<Rightarrow> True | Some p \<Rightarrow> \<not> p \<ge> ds_workshop_id item)"
proof -
  obtain w g d t v a b where row: "row = (w, g, d, t, v, a, b)" by (metis prod_cases7)
  from assms show ?thesis
    unfolding row validate_snapshot_row_def prod.case and_then_Inr ensure_Inr
    by (elim exE conjE) (auto simp: item_bound_def not_le split: option.splits)
qed

lemma validate_snapshot_loop_Inr:
  "validate_snapshot_loop json_to_vec l previous rows = Inr items \<Longrightarrow>
     length items = length rows \<and> ascending previous (map ds_workshop_id items) \<and>
     (\<forall>i \<in> set items. item_bound l i)"
proof (induction rows arbitrary: previous items)
  case (Cons row rows)
  obtain item rest where item: "validate_snapshot_row json_to_vec l previous row = Inr item"
      "validate_snapshot_loop json_to_vec l (Some (ds_workshop_id item)) rows = Inr rest" "items = item # rest"
    using Cons.prems by (auto simp: and_then_Inr)
  show ?case
    using Cons.IH [OF item(2)] validate_snapshot_row_Inr [OF item(1)] item(3) by simp
qed auto

lemma json_as_usize_usize_json: "n < 2 ^ 64 \<Longrightarrow> json_as_usize (usize_json n) = Some n"
  by (simp add: json_as_usize_def usize_json_def unat_of_nat take_bit_nat_eq_self)

lemma applied_variant: "variant_of applied_as_str [AppliedPresent, AppliedAbsent] (JString (applied_as_str d)) = Some d"
  by (cases d) (simp_all add: variant_of_def)

lemma kind_variant: "variant_of publication_kind_as_str publication_kinds (JString (publication_kind_as_str k)) = Some k"
  by (cases k) (simp_all add: variant_of_def)

lemma applied_evidence_roundtrip:
  assumes "\<And>u. parse_uuid (uuid_hyphenated u) = Some u"
  shows "applied_evidence_of_json parse_uuid (applied_evidence_json e) = Some e"
  by (simp add: applied_evidence_of_json_def applied_evidence_json_def field_def applied_variant
      json_as_uuid_uuid_json [OF assms] insert_commute)

lemma completed_evidence_roundtrip:
  assumes "\<And>u. parse_uuid (uuid_hyphenated u) = Some u"
    and "ce_snapshot_count e < 2 ^ 64" and "ce_present_count e < 2 ^ 64"
  shows "completed_evidence_of_json parse_uuid (completed_evidence_json e) = Some e"
  using json_as_usize_usize_json [OF assms(2)] json_as_usize_usize_json [OF assms(3)]
  by (simp add: completed_evidence_of_json_def completed_evidence_json_def field_def kind_variant
      json_as_uuid_uuid_json [OF assms(1)])

lemma response_roundtrip:
  assumes "\<And>u. parse_uuid (uuid_hyphenated u) = Some u"
    and "ce_snapshot_count (re_route_set_evidence r) < 2 ^ 64"
    and "ce_present_count (re_route_set_evidence r) < 2 ^ 64"
  shows "response_of_json parse_uuid (response_json r) = Some r"
  using applied_evidence_roundtrip [OF assms(1)] completed_evidence_roundtrip [OF assms]
  by (simp add: response_of_json_def response_json_def field_def json_as_uuid_uuid_json [OF assms(1)])

text \<open>
  C20. The receipt of a publication is unique. Once the finish statement of a publication has been
  accepted for sending, a reply becomes the outcome \<open>Completed\<close> if and only if its status says so
  and its payload decodes to the one response that the lease, the sealed generation and the target's
  evidence determine, field by field.
\<close>

theorem finish_receipt_exact:
  assumes "finish_sql l s e = Inr q"
  shows "finish_reply parse_uuid l s e (outcome, response) = Inr (FinishCompleted r) \<longleftrightarrow>
    outcome = ''completed'' \<and> r = publication_receipt l s e \<and>
    (\<exists>v. response = Some v \<and> response_of_json parse_uuid v = Some r)"
proof -
  have valid: "validate_publication_response_for_lease r l s e = Inr u \<longleftrightarrow> r = publication_receipt l s e" for r u
    using receipt_valid [of l s e] receipt_unique [of r l s e] assms by (auto simp: finish_sql_def and_then_Inr)
  show ?thesis
  proof (cases "outcome = ''completed''")
    case True
    then show ?thesis
      by (auto simp: finish_reply_def parse_publication_response_def and_then_Inr ok_or_Inr valid)
  next
    case False
    then have "finish_reply parse_uuid l s e (outcome, response) \<noteq> Inr (FinishCompleted r)"
      by (simp add: finish_reply_def and_then_Inr)
    with False show ?thesis by simp
  qed
qed

definition sample_digest :: str where
  "sample_digest = ''sha256:'' @ replicate 64 CHR ''a''"

definition sample_lease :: publication_lease where
  "sample_lease =
     \<lparr>pl_publication_id = 1, pl_driver_operation_id = 2, pl_publication_kind = Projection,
      pl_control_operation = \<lparr>co_id = 3, co_attempt = 1, co_owner = ''w''\<rparr>, pl_target_workshop_id = 1,
      pl_target_projection_generation = 7, pl_target_projection_digest = sample_digest,
      pl_expected_disposition = AppliedPresent, pl_instance_owner = 4, pl_execution_token = 5,
      pl_global_lease_token = 6, pl_route_lease_token = 7, pl_global_fence_token = 19,
      pl_target_route_fence_token = 23, pl_selector = selector_target 1 Projection,
      pl_snapshot_count = 2, pl_ttl_seconds = 1200\<rparr>"

definition sample_sealed :: sealed_route_set_generation where
  "sample_sealed =
     \<lparr>sg_name = generation_name 1 Projection,
      sg_identity = \<lparr>id_protocol_version = 1, id_publication_id = 1, id_publication_kind = Projection,
        id_global_fence_token = 19, id_route_set_digest = sample_digest, id_scope = WorkshopPublication 1 23\<rparr>,
      sg_route_count = 2, sg_present_route_count = 1,
      sg_selector = \<lparr>sel_target = selector_target 1 Projection, sel_directory_dev = 31, sel_directory_ino = 37\<rparr>\<rparr>"

definition sample_target_evidence :: route_set_seal_evidence where
  "sample_target_evidence =
     \<lparr>se_workshop_id = 1, se_projection_generation = 7, se_projection_digest = sample_digest,
      se_disposition = Present, se_applied_rendered_digest = Some sample_digest,
      se_rendered_digest = sample_digest\<rparr>"

lemma sample_digest_ok: "valid_sha256 sample_digest"
  by code_simp

lemma sample_owner: "\<not> blank ''w''"
  by code_simp

lemma sample_lease_valid: "lease_validate sample_lease = Inr ()"
  by (simp add: lease_validate_def sample_lease_def ensure_def is_nil_def sample_digest_ok sample_owner
      MIN_LEASE_SECONDS_def MAX_LEASE_SECONDS_def MAX_ROUTES_def)

lemma sample_finish_sql: "finish_sql sample_lease sample_sealed sample_target_evidence =
    Inr (SqlFinish (authority_of sample_lease))"
proof -
  have "validate_sealed_generation sample_lease sample_sealed = Inr ()"
    by (simp add: validate_sealed_generation_def sample_lease_def sample_sealed_def identity_validate_def
        identity_binds_lease_def validate_sha256_digest_def ensure_def scope_valid_def is_nil_def
        sample_digest_ok pg_file_identity_def)
  moreover have "validate_target_evidence sample_lease sample_target_evidence = Inr ()"
    by (simp add: validate_target_evidence_def validate_entry_evidence_def sample_lease_def
        sample_target_evidence_def ensure_def is_nil_def sample_digest_ok)
  ultimately show ?thesis by (simp add: finish_sql_def sample_lease_valid)
qed

theorem finish_receipt_exact_witness:
  "finish_reply (\<lambda>s. Some (uuid_of_text s)) sample_lease sample_sealed sample_target_evidence
     (''completed'', Some (response_json (publication_receipt sample_lease sample_sealed sample_target_evidence))) =
   Inr (FinishCompleted (publication_receipt sample_lease sample_sealed sample_target_evidence))"
proof -
  have "response_of_json (\<lambda>s. Some (uuid_of_text s))
      (response_json (publication_receipt sample_lease sample_sealed sample_target_evidence)) =
    Some (publication_receipt sample_lease sample_sealed sample_target_evidence)"
    by (rule response_roundtrip)
      (simp_all add: uuid_of_text_hyphenated publication_receipt_def sample_lease_def sample_sealed_def)
  then show ?thesis
    using finish_receipt_exact [OF sample_finish_sql] by blast
qed

end
