(* ===== verification/Port_Programs.thy ===== *)
theory Port_Programs
  imports Rust_Base
begin

text \<open>
  Asynchronous programs over ports. The driver's coordinators talk to the database, the filesystem
  and the running gateway through traits; what such a call answers, and whether the surrounding
  task is stopped while it is waiting, is up to the environment. A program is a function on a state
  that records every call made so far; the environment answers a call from that record, so it may
  react to anything the program did. A program ends with a value, with an error, or by being
  dropped at an \<open>await\<close>.

  The weakest precondition \<open>wp\<close> of a program turns a claim about all runs into a claim about one
  call at a time.
\<close>

datatype ('e, 'a) outcome = Done 'a | Fails 'e | Cancelled

text \<open>Why an \<open>await\<close> does not return: the heartbeat of the guarded phase fails, or the task is dropped.\<close>

datatype 'e interruption = HeartbeatLost 'e | Dropped

type_synonym ('s, 'e, 'a) program = "'s \<Rightarrow> ('e, 'a) outcome \<times> 's"

definition return :: "'a \<Rightarrow> ('s, 'e, 'a) program" where
  "return a s = (Done a, s)"

definition fail :: "'e \<Rightarrow> ('s, 'e, 'a) program" where
  "fail e s = (Fails e, s)"

definition lift_result :: "'e + 'a \<Rightarrow> ('s, 'e, 'a) program" where
  "lift_result r = (case r of Inl e \<Rightarrow> fail e | Inr a \<Rightarrow> return a)"

definition require :: "bool \<Rightarrow> 'e \<Rightarrow> ('s, 'e, unit) program" where
  "require c e = (if c then return () else fail e)"

definition bind_program ::
  "('s, 'e, 'a) program \<Rightarrow> ('a \<Rightarrow> ('s, 'e, 'b) program) \<Rightarrow> ('s, 'e, 'b) program" where
  "bind_program m f s =
     (case m s of (Done a, t) \<Rightarrow> f a t | (Fails e, t) \<Rightarrow> (Fails e, t) | (Cancelled, t) \<Rightarrow> (Cancelled, t))"

text \<open>A result that is matched on instead of being propagated.\<close>

definition attempt :: "('s, 'e, 'a) program \<Rightarrow> ('s, 'e, 'e + 'a) program" where
  "attempt m s =
     (case m s of (Done a, t) \<Rightarrow> (Done (Inr a), t) | (Fails e, t) \<Rightarrow> (Done (Inl e), t) | (Cancelled, t) \<Rightarrow> (Cancelled, t))"

definition modify :: "('s \<Rightarrow> 's) \<Rightarrow> ('s, 'e, unit) program" where
  "modify f s = (Done (), f s)"


section \<open>Weakest preconditions\<close>

named_theorems wp_rules "weakest preconditions of the program constructors"

definition wp :: "('s, 'e, 'a) program \<Rightarrow> (('e, 'a) outcome \<Rightarrow> 's \<Rightarrow> bool) \<Rightarrow> 's \<Rightarrow> bool" where
  "wp m Q s \<longleftrightarrow> Q (fst (m s)) (snd (m s))"

lemma wpD: "wp m Q s \<Longrightarrow> m s = (r, t) \<Longrightarrow> Q r t"
  by (simp add: wp_def)

lemma wpI: "(\<And>r t. m s = (r, t) \<Longrightarrow> Q r t) \<Longrightarrow> wp m Q s"
  by (cases "m s") (simp add: wp_def)

lemma wp_mono: "wp m P s \<Longrightarrow> (\<And>r t. P r t \<Longrightarrow> Q r t) \<Longrightarrow> wp m Q s"
  by (simp add: wp_def)

lemma wp_conj: "wp m P s \<Longrightarrow> wp m Q s \<Longrightarrow> wp m (\<lambda>r t. P r t \<and> Q r t) s"
  by (simp add: wp_def)

text \<open>What a program that continues with \<open>f\<close> owes to a postcondition.\<close>

fun continue_with ::
  "('a \<Rightarrow> ('s, 'e, 'b) program) \<Rightarrow> (('e, 'b) outcome \<Rightarrow> 's \<Rightarrow> bool) \<Rightarrow> ('e, 'a) outcome \<Rightarrow> 's \<Rightarrow> bool" where
  "continue_with f Q (Done a) s = wp (f a) Q s"
| "continue_with f Q (Fails e) s = Q (Fails e) s"
| "continue_with f Q Cancelled s = Q Cancelled s"

lemma wp_return [wp_rules]: "wp (return a) Q s = Q (Done a) s"
  by (simp add: wp_def return_def)

lemma wp_fail [wp_rules]: "wp (fail e) Q s = Q (Fails e) s"
  by (simp add: wp_def fail_def)

lemma wp_modify [wp_rules]: "wp (modify f) Q s = Q (Done ()) (f s)"
  by (simp add: wp_def modify_def)

lemma wp_bind [wp_rules]: "wp (bind_program m f) Q s = wp m (continue_with f Q) s"
  by (cases "m s"; cases "fst (m s)") (auto simp: wp_def bind_program_def)

lemma wp_lift_result [wp_rules]:
  "wp (lift_result r) Q s \<longleftrightarrow> (\<forall>e. r = Inl e \<longrightarrow> Q (Fails e) s) \<and> (\<forall>a. r = Inr a \<longrightarrow> Q (Done a) s)"
  by (cases r) (simp_all add: lift_result_def wp_return wp_fail)

lemma wp_require [wp_rules]:
  "wp (require c e) Q s \<longleftrightarrow> (c \<longrightarrow> Q (Done ()) s) \<and> (\<not> c \<longrightarrow> Q (Fails e) s)"
  by (simp add: require_def wp_return wp_fail)

fun attempted :: "('e, 'a) outcome \<Rightarrow> ('e, 'e + 'a) outcome" where
  "attempted (Done a) = Done (Inr a)"
| "attempted (Fails e) = Done (Inl e)"
| "attempted Cancelled = Cancelled"

lemma wp_attempt [wp_rules]: "wp (attempt m) Q s = wp m (\<lambda>r. Q (attempted r)) s"
  by (cases "m s"; cases "fst (m s)") (auto simp: wp_def attempt_def)

lemma bind_lift_result: "bind_program (lift_result r) f = (case r of Inl e \<Rightarrow> fail e | Inr a \<Rightarrow> f a)"
  by (rule ext) (cases r; simp add: bind_program_def lift_result_def fail_def return_def)

lemma bind_require: "bind_program (require c e) f = (if c then f () else fail e)"
  by (rule ext) (simp add: bind_program_def require_def fail_def return_def)

lemma bind_program_assoc: "bind_program (bind_program m f) g = bind_program m (\<lambda>x. bind_program (f x) g)"
  by (rule ext) (simp add: bind_program_def split: prod.split outcome.split)

lemma wp_bind_require:
  "wp (bind_program (require c e) f) Q s \<longleftrightarrow> (c \<longrightarrow> wp (f ()) Q s) \<and> (\<not> c \<longrightarrow> Q (Fails e) s)"
  by (simp add: bind_require wp_fail)

text \<open>Recursion through a bind: the continuation only runs on a value of the first part.\<close>

lemma bind_program_cong [fundef_cong]:
  assumes "m s = m' s'" and "\<And>a t. m' s' = (Done a, t) \<Longrightarrow> f a t = f' a t"
  shows "bind_program m f s = bind_program m' f' s'"
  using assms by (auto simp: bind_program_def split: prod.splits outcome.splits)

lemma require_Done: "require c e s = (Done u, t) \<longleftrightarrow> c \<and> t = s"
  by (auto simp: require_def return_def fail_def)

lemma lift_result_Done: "lift_result m s = (Done a, t) \<longleftrightarrow> m = Inr a \<and> t = s"
  by (cases m) (auto simp: lift_result_def return_def fail_def)

text \<open>A step rule for a part of a program whose behaviour is already known.\<close>

lemma wp_bind_via:
  assumes "wp m P s" and "\<And>r t. P r t \<Longrightarrow> continue_with f Q r t"
  shows "wp (bind_program m f) Q s"
  unfolding wp_bind by (rule wp_mono [OF assms])


section \<open>Calls\<close>

text \<open>
  The record of calls lives in the state behind \<open>get\<close> and \<open>put\<close>. A synchronous call is answered
  from the record with the call appended. An asynchronous one can also be interrupted once it has
  been issued; a lost heartbeat only matters where the call is raced against one.
\<close>

definition sync_call ::
  "('s \<Rightarrow> 'c list) \<Rightarrow> ('c list \<Rightarrow> 's \<Rightarrow> 's) \<Rightarrow> ('c list \<Rightarrow> 'e + 'a) \<Rightarrow> 'c \<Rightarrow> ('s, 'e, 'a) program" where
  "sync_call get put port c s =
     (let calls = get s @ [c] in lift_result (port calls) (put calls s))"

definition async_call ::
  "('s \<Rightarrow> 'c list) \<Rightarrow> ('c list \<Rightarrow> 's \<Rightarrow> 's) \<Rightarrow> ('c list \<Rightarrow> 'e interruption option) \<Rightarrow> bool
     \<Rightarrow> ('c list \<Rightarrow> 'e + 'a) \<Rightarrow> 'c \<Rightarrow> ('s, 'e, 'a) program" where
  "async_call get put interrupt guarded port c s =
     (let calls = get s @ [c] in
      case interrupt calls of
        Some Dropped \<Rightarrow> (Cancelled, put calls s)
      | Some (HeartbeatLost e) \<Rightarrow>
          if guarded then (Fails e, put calls s) else lift_result (port calls) (put calls s)
      | None \<Rightarrow> lift_result (port calls) (put calls s))"

lemma wp_sync_call [wp_rules]:
  "wp (sync_call get put port c) Q s \<longleftrightarrow>
     (\<forall>e. port (get s @ [c]) = Inl e \<longrightarrow> Q (Fails e) (put (get s @ [c]) s)) \<and>
     (\<forall>a. port (get s @ [c]) = Inr a \<longrightarrow> Q (Done a) (put (get s @ [c]) s))"
  by (cases "port (get s @ [c])")
     (simp_all add: sync_call_def wp_def lift_result_def return_def fail_def Let_def)

text \<open>Whatever the environment does, an asynchronous call ends in one of three ways.\<close>

lemma wp_async_callI:
  assumes "Q Cancelled (put (get s @ [c]) s)" and "\<And>e. Q (Fails e) (put (get s @ [c]) s)"
    and "\<And>a. port (get s @ [c]) = Inr a \<Longrightarrow> Q (Done a) (put (get s @ [c]) s)"
  shows "wp (async_call get put interrupt guarded port c) Q s"
  using assms
  by (cases "interrupt (get s @ [c])"; cases "port (get s @ [c])"; cases "the (interrupt (get s @ [c]))")
     (auto simp: async_call_def wp_def lift_result_def return_def fail_def Let_def)

end
