(* ===== verification/Route_Set_Publication.thy ===== *)
theory Route_Set_Publication
  imports Route_Set_Publication_Db Port_Programs
begin

text \<open>
  \<open>src/docker_driver/route_set_publication.rs\<close>: the coordinator that takes one route set from
  admission to its durable receipt. It holds the host guard, renews its database lease, freezes the
  snapshot of the fleet, stages and seals the generation, asks the database to start, exchanges the
  selector, reloads the gateway, observes the result and finishes. Staging and sealing are the
  definitions of the staging and seal theories; the SQL statements and the checks of their replies
  are those of the database boundary.

  The environment answers every call from the record of all calls so far, and may interrupt any
  \<open>await\<close>: by a lost heartbeat while a phase is raced against its heartbeat, or by dropping the task.
  Log records and tracing fields are left out.
\<close>

section \<open>State and environment\<close>

datatype publication_risk = Reversible | RiskStartAttempted

datatype publication_phase =
    PhaseAdmission | PhasePriorObservation | PhaseSnapshotRead | PhasePreparation | PhaseStaging
  | PhaseSealing | PhaseStartAttempted | PhasePublishing | PhaseRuntimeReload | PhaseObservation
  | PhaseFinalization

definition failure :: "publication_phase \<Rightarrow> driver_error" where
  "failure phase = DriverError 503 ''deployment backend unavailable''"

record publication_plan =
  pp_admission :: publication_admission_request
  pp_snapshot_batch_size :: nat

definition DEFAULT_SNAPSHOT_BATCH_SIZE :: nat where "DEFAULT_SNAPSHOT_BATCH_SIZE = 128"

definition plan_new :: "publication_admission_request \<Rightarrow> publication_plan" where
  "plan_new a = \<lparr>pp_admission = a, pp_snapshot_batch_size = DEFAULT_SNAPSHOT_BATCH_SIZE\<rparr>"

text \<open>Everything the coordinator does to the world outside it.\<close>

datatype publication_call =
    CallSql sql_statement
  | AcquireGuard
  | RetainGuard
  | FsObservePrior
  | RuntimeObservePrior prior_loaded_identity
  | RuntimeActiveOdoo
  | FsCreateGeneration route_set_generation_intent
  | FsBeginSeal
  | FsFinishSeal route_set_generation_identity
  | FsPublish prior_selector
  | RuntimeReload str
  | RuntimeObserveCandidate route_set_generation_identity
  | FsObserveCandidate
  | ScheduleQuarantine publication_lease

text \<open>Answers of the database: \<^const>\<open>None\<close> is a query that failed.\<close>

record sql_ports =
  sq_admission :: "publication_call list \<Rightarrow> admission_row option"
  sq_flag :: "publication_call list \<Rightarrow> bool option"
  sq_snapshot :: "publication_call list \<Rightarrow> snapshot_row list option"
  sq_text :: "publication_call list \<Rightarrow> str option"
  sq_finish :: "publication_call list \<Rightarrow> (str \<times> json option) option"
  sq_result :: "publication_call list \<Rightarrow> publication_result_row option"

text \<open>Answers of the host: guard, filesystem and gateway runtime.\<close>

record host_ports =
  hp_acquire :: "publication_call list \<Rightarrow> driver_error + unit"
  hp_retain :: "publication_call list \<Rightarrow> driver_error + unit"
  hp_observe_prior :: "publication_call list \<Rightarrow> driver_error + prior_selector \<times> prior_loaded_identity"
  hp_runtime_prior :: "publication_call list \<Rightarrow> driver_error + unit"
  hp_active_odoo :: "publication_call list \<Rightarrow> driver_error + str"
  hp_create_generation :: "publication_call list \<Rightarrow> driver_error + unit"
  hp_begin_seal :: "publication_call list \<Rightarrow> driver_error + (uuid \<times> str) list \<times> str"
  hp_finish_seal :: "publication_call list \<Rightarrow> driver_error + 64 word \<times> 64 word"
  hp_publish :: "publication_call list \<Rightarrow> driver_error + prior_selector"
  hp_reload :: "publication_call list \<Rightarrow> driver_error + unit"
  hp_runtime_candidate :: "publication_call list \<Rightarrow> driver_error + route_set_generation_identity"
  hp_fs_candidate :: "publication_call list \<Rightarrow> driver_error + prior_selector \<times> route_set_generation_identity"

text \<open>Library functions, and the name of a workshop's Paperless container.\<close>

record library_functions =
  lf_jcs :: "json \<Rightarrow> str option"
  lf_sha256_hex :: "str \<Rightarrow> str"
  lf_parse_uuid :: "str \<Rightarrow> uuid option"
  lf_evidence_to_vec :: "route_set_seal_evidence \<Rightarrow> str"
  lf_json_to_vec :: "json \<Rightarrow> str"
  lf_paperless_resource :: "uuid \<Rightarrow> str"

record publication_world =
  w_sql :: sql_ports
  w_host :: host_ports
  w_lib :: library_functions
  w_interrupt :: "publication_call list \<Rightarrow> driver_error interruption option"
  w_heartbeat :: "publication_call list \<Rightarrow> driver_error option"

record armed_cancellation =
  ac_lease :: publication_lease
  ac_retained_host_guard :: bool
  ac_armed :: bool

text \<open>
  The coordinator's own state together with that of \<open>LocalPublicationFilesystem\<close>: what is
  prepared, which generation is open and whether it is sealed.
\<close>

record publication_state =
  st_calls :: "publication_call list"
  st_risk :: publication_risk
  st_phase :: publication_phase
  st_cancellation :: "armed_cancellation option"
  st_prepared :: "prepared_route_set option"
  st_generation :: "route_set_generation_intent option"
  st_sealed :: "sealed_route_set_generation option"

definition initial_publication_state :: publication_state where
  "initial_publication_state =
     \<lparr>st_calls = [], st_risk = Reversible, st_phase = PhaseAdmission, st_cancellation = None,
      st_prepared = None, st_generation = None, st_sealed = None\<rparr>"

type_synonym 'a publication = "(publication_state, driver_error, 'a) program"

definition call_sync :: "(publication_call list \<Rightarrow> driver_error + 'a) \<Rightarrow> publication_call \<Rightarrow> 'a publication" where
  "call_sync = sync_call st_calls (\<lambda>cs s. s\<lparr>st_calls := cs\<rparr>)"

definition call_async ::
  "publication_world \<Rightarrow> bool \<Rightarrow> (publication_call list \<Rightarrow> driver_error + 'a) \<Rightarrow> publication_call \<Rightarrow> 'a publication" where
  "call_async w guarded = async_call st_calls (\<lambda>cs s. s\<lparr>st_calls := cs\<rparr>) (w_interrupt w) guarded"

text \<open>One statement: the arguments are checked, the query runs, the reply is checked.\<close>

definition statement ::
  "publication_world \<Rightarrow> bool \<Rightarrow> driver_error + sql_statement \<Rightarrow> (publication_call list \<Rightarrow> 'r option)
     \<Rightarrow> ('r \<Rightarrow> driver_error + 'a) \<Rightarrow> 'a publication" where
  "statement w guarded request port reply =
     bind_program (lift_result request) (\<lambda>q.
     bind_program (call_async w guarded (\<lambda>cs. ok_or (port cs) (internal [])) (CallSql q)) (\<lambda>row.
       lift_result (reply row)))"

definition set_phase :: "publication_phase \<Rightarrow> unit publication" where
  "set_phase phase = modify (\<lambda>s. s\<lparr>st_phase := phase\<rparr>)"

definition arm :: "unit publication" where
  "arm = modify (\<lambda>s. s\<lparr>st_cancellation := map_option (\<lambda>c. c\<lparr>ac_armed := True\<rparr>) (st_cancellation s)\<rparr>)"

definition disarm :: "unit publication" where
  "disarm = modify (\<lambda>s. s\<lparr>st_cancellation :=
     map_option (\<lambda>c. c\<lparr>ac_armed := False, ac_retained_host_guard := False\<rparr>) (st_cancellation s)\<rparr>)"

text \<open>\<open>Drop\<close>: an armed guard that still retains the host guard schedules the quarantine.\<close>

definition drop_cancellation :: "publication_state \<Rightarrow> publication_state" where
  "drop_cancellation s =
     (case st_cancellation s of
        Some c \<Rightarrow>
          (if ac_armed c \<and> ac_retained_host_guard c
           then s\<lparr>st_calls := st_calls s @ [ScheduleQuarantine (ac_lease c)], st_cancellation := None\<rparr>
           else s\<lparr>st_cancellation := None\<rparr>)
      | None \<Rightarrow> s)"

definition with_publication_heartbeat :: "publication_world \<Rightarrow> 'a publication \<Rightarrow> 'a publication" where
  "with_publication_heartbeat w m s =
     (case w_heartbeat w (st_calls s) of Some e \<Rightarrow> (Fails e, s) | None \<Rightarrow> m s)"


section \<open>Ports\<close>

definition db_read_result :: "publication_world \<Rightarrow> publication_result_request \<Rightarrow> read_result publication" where
  "db_read_result w q =
     statement w False (read_result_sql q) (sq_result (w_sql w))
       (parse_publication_result_row (lf_parse_uuid (w_lib w)) q)"

definition db_admit :: "publication_world \<Rightarrow> publication_admission_request \<Rightarrow> publication_admission publication" where
  "db_admit w a = statement w False (admit_sql a) (sq_admission (w_sql w)) (admit_reply a)"

definition db_renew :: "publication_world \<Rightarrow> publication_lease \<Rightarrow> bool publication" where
  "db_renew w l = statement w True (renew_sql l) (sq_flag (w_sql w)) Inr"

definition db_read_snapshot ::
  "publication_world \<Rightarrow> publication_lease \<Rightarrow> uuid option \<Rightarrow> nat \<Rightarrow> db_snapshot_item list publication" where
  "db_read_snapshot w l after limit =
     statement w True (read_snapshot_sql l after limit) (sq_snapshot (w_sql w))
       (validate_snapshot_rows (lf_json_to_vec (w_lib w)) l after limit)"

definition db_record_prior ::
  "publication_world \<Rightarrow> publication_lease \<Rightarrow> prior_selector \<Rightarrow> db_prior_identity option
     \<Rightarrow> record_prior_outcome publication" where
  "db_record_prior w l prior loaded =
     statement w True (record_prior_sql (lf_json_to_vec (w_lib w)) l prior loaded) (sq_text (w_sql w))
       parse_record_prior_outcome"

definition db_record_entry ::
  "publication_world \<Rightarrow> publication_lease \<Rightarrow> route_set_seal_evidence \<Rightarrow> record_entry_outcome publication" where
  "db_record_entry w l e =
     statement w True (record_entry_sql l e) (sq_text (w_sql w)) parse_record_entry_outcome"

definition db_seal ::
  "publication_world \<Rightarrow> publication_lease \<Rightarrow> sealed_route_set_generation \<Rightarrow> seal_outcome publication" where
  "db_seal w l g = statement w True (seal_sql l g) (sq_text (w_sql w)) parse_seal_outcome"

definition db_start :: "publication_world \<Rightarrow> publication_lease \<Rightarrow> start_outcome publication" where
  "db_start w l = statement w True (start_sql l) (sq_text (w_sql w)) parse_start_outcome"

definition db_observe ::
  "publication_world \<Rightarrow> publication_lease \<Rightarrow> prior_selector \<Rightarrow> route_set_generation_identity
     \<Rightarrow> observe_outcome publication" where
  "db_observe w l observed i =
     statement w True (observe_sql l observed i) (sq_text (w_sql w)) parse_observe_outcome"

definition db_finish ::
  "publication_world \<Rightarrow> publication_lease \<Rightarrow> sealed_route_set_generation \<Rightarrow> route_set_seal_evidence
     \<Rightarrow> finish_outcome publication" where
  "db_finish w l g e =
     statement w True (finish_sql l g e) (sq_finish (w_sql w)) (finish_reply (lf_parse_uuid (w_lib w)) l g e)"

definition db_quarantine :: "publication_world \<Rightarrow> publication_lease \<Rightarrow> bool publication" where
  "db_quarantine w l = statement w False (quarantine_sql l) (sq_flag (w_sql w)) Inr"

definition fs_observe_prior :: "publication_world \<Rightarrow> (prior_selector \<times> prior_loaded_identity) publication" where
  "fs_observe_prior w = call_sync (hp_observe_prior (w_host w)) FsObservePrior"

text \<open>The gateway runtime refuses a boot-live prior before it looks at anything.\<close>

definition runtime_observe_prior :: "publication_world \<Rightarrow> bool \<Rightarrow> prior_loaded_identity \<Rightarrow> unit publication" where
  "runtime_observe_prior w guarded loaded =
     (if loaded = BootLive then fail (failure PhasePriorObservation)
      else call_async w guarded (hp_runtime_prior (w_host w)) (RuntimeObservePrior loaded))"

text \<open>\<open>BTreeMap::insert\<close>.\<close>

fun btree_insert :: "'k :: linorder \<Rightarrow> 'v \<Rightarrow> ('k \<times> 'v) list \<Rightarrow> ('k \<times> 'v) list" where
  "btree_insert k v [] = [(k, v)]"
| "btree_insert k v ((k', v') # m) =
     (if k < k' then (k, v) # (k', v') # m
      else if k = k' then (k, v) # m
      else (k', v') # btree_insert k v m)"

definition paperless_upstream_step ::
  "library_functions \<Rightarrow> (uuid \<times> str) list \<Rightarrow> db_snapshot_item \<Rightarrow> driver_error + (uuid \<times> str) list" where
  "paperless_upstream_step f upstreams item =
     and_then (parse_optional (lf_jcs f) (lf_sha256_hex f) (lf_parse_uuid f)
       (Some (ds_canonical_projection item)) (ds_projection_digest item) (ds_disposition item)) (\<lambda>projection.
       Inr (if pr_paperless_mode projection = ModeReadOnly \<or> pr_paperless_mode projection = ModeReadWrite
            then btree_insert (ds_workshop_id item) (lf_paperless_resource f (ds_workshop_id item)) upstreams
            else upstreams))"

definition freeze_context ::
  "publication_world \<Rightarrow> db_snapshot_item list \<Rightarrow> frozen_route_runtime_context publication" where
  "freeze_context w snapshot =
     bind_program (call_async w True (hp_active_odoo (w_host w)) RuntimeActiveOdoo) (\<lambda>odoo.
     bind_program (lift_result (try_fold (paperless_upstream_step (w_lib w)) [] snapshot)) (\<lambda>upstreams.
       return \<lparr>fr_odoo_upstream = odoo, fr_paperless_upstreams = upstreams\<rparr>))"

definition fs_prepare ::
  "publication_world \<Rightarrow> publication_lease \<Rightarrow> frozen_route_runtime_context \<Rightarrow> db_snapshot_item list
     \<Rightarrow> unit publication" where
  "fs_prepare w l runtime snapshot s =
     (if st_prepared s \<noteq> None \<or> st_generation s \<noteq> None then fail (failure PhasePreparation) s
      else bind_program (lift_result (prepare_frozen_route_set (lf_jcs (w_lib w)) (lf_sha256_hex (w_lib w))
          (lf_parse_uuid (w_lib w)) (pl_publication_kind l) (pl_target_workshop_id l) runtime
          (map into_staging_item snapshot))) (\<lambda>p.
        modify (\<lambda>s. s\<lparr>st_prepared := Some p\<rparr>)) s)"

definition fs_begin :: "publication_world \<Rightarrow> publication_lease \<Rightarrow> unit publication" where
  "fs_begin w l s =
     (if st_prepared s = None \<or> st_generation s \<noteq> None then fail (failure PhasePreparation) s
      else bind_program (lift_result (map_err (\<lambda>_. internal []) (intent_new (pl_publication_id l)
          (pl_publication_kind l) (pl_global_fence_token l) (pl_target_workshop_id l)
          (pl_target_route_fence_token l)))) (\<lambda>i.
        bind_program (call_sync (hp_create_generation (w_host w)) (FsCreateGeneration i)) (\<lambda>_.
          modify (\<lambda>s. s\<lparr>st_generation := Some i\<rparr>))) s)"

text \<open>\<open>generation_mut\<close>.\<close>

definition generation_mut :: "route_set_generation_intent publication" where
  "generation_mut s = lift_result (ok_or (st_generation s) (failure PhaseStaging)) s"

definition fs_publish :: "publication_world \<Rightarrow> prior_selector \<Rightarrow> unit publication" where
  "fs_publish w prior =
     bind_program generation_mut (\<lambda>_.
     bind_program (call_sync (hp_publish (w_host w)) (FsPublish prior)) (\<lambda>captured.
       require (captured = prior) (failure PhasePublishing)))"

definition fs_observe_candidate ::
  "publication_world \<Rightarrow> (prior_selector \<times> route_set_generation_identity) publication" where
  "fs_observe_candidate w =
     bind_program generation_mut (\<lambda>_. call_sync (hp_fs_candidate (w_host w)) FsObserveCandidate)"


section \<open>Accepting outcomes\<close>

fun accept_prior :: "record_prior_outcome \<Rightarrow> driver_error + unit" where
  "accept_prior PriorRecorded = Inr ()"
| "accept_prior PriorReplay = Inr ()"
| "accept_prior _ = Inl (failure PhasePriorObservation)"

fun accept_entry :: "record_entry_outcome \<Rightarrow> driver_error + unit" where
  "accept_entry EntryRecorded = Inr ()"
| "accept_entry EntryReplay = Inr ()"
| "accept_entry _ = Inl (failure PhaseStaging)"

fun accept_seal :: "seal_outcome \<Rightarrow> driver_error + unit" where
  "accept_seal Sealed = Inr ()"
| "accept_seal SealReplay = Inr ()"
| "accept_seal _ = Inl (failure PhaseSealing)"

fun accept_start :: "start_outcome \<Rightarrow> driver_error + unit" where
  "accept_start Started = Inr ()"
| "accept_start StartReplay = Inr ()"
| "accept_start _ = Inl (failure PhaseStartAttempted)"

fun accept_observe :: "observe_outcome \<Rightarrow> driver_error + unit" where
  "accept_observe Observed = Inr ()"
| "accept_observe ObserveReplay = Inr ()"
| "accept_observe _ = Inl (failure PhaseObservation)"

fun database_prior_identity :: "prior_loaded_identity \<Rightarrow> db_prior_identity option" where
  "database_prior_identity BootLive = None"
| "database_prior_identity (PriorStartup i) = Some (DbStartup i)"
| "database_prior_identity (PriorReleaseOverlay i) = Some (DbRelease i)"
| "database_prior_identity (PriorRouteSet i) = Some (DbRouteSet i)"

definition require_renewal :: "publication_world \<Rightarrow> publication_lease \<Rightarrow> publication_phase \<Rightarrow> unit publication" where
  "require_renewal w l phase = bind_program (db_renew w l) (\<lambda>renewed. require renewed (failure phase))"

definition observe_bound_prior ::
  "publication_world \<Rightarrow> bool \<Rightarrow> (prior_selector \<times> prior_loaded_identity) publication" where
  "observe_bound_prior w guarded =
     bind_program (fs_observe_prior w) (\<lambda>(prior, loaded).
     bind_program (require (loaded \<noteq> BootLive) (failure PhasePriorObservation)) (\<lambda>_.
     bind_program (runtime_observe_prior w guarded loaded) (\<lambda>_.
     bind_program (fs_observe_prior w) (\<lambda>(confirmed_prior, confirmed_loaded).
     bind_program (require (confirmed_prior = prior \<and> confirmed_loaded = loaded)
       (failure PhasePriorObservation)) (\<lambda>_.
       return (prior, loaded))))))"


section \<open>Reading the snapshot\<close>

text \<open>The workshop the next batch starts after.\<close>

definition next_after :: "uuid option \<Rightarrow> db_snapshot_item list \<Rightarrow> uuid option" where
  "next_after after batch = (if batch = [] then after else Some (ds_workshop_id (last batch)))"

text \<open>
  The loop of \<open>read_complete_snapshot\<close>. A batch that is accepted is never empty, so the snapshot
  grows until the count of the lease is reached.
\<close>

function read_snapshot_loop ::
  "publication_world \<Rightarrow> publication_lease \<Rightarrow> nat \<Rightarrow> db_snapshot_item list \<Rightarrow> uuid option
     \<Rightarrow> db_snapshot_item list publication" where
  "read_snapshot_loop w l batch_size snapshot after s =
     (if length snapshot < pl_snapshot_count l then
        bind_program (require_renewal w l PhaseSnapshotRead) (\<lambda>_.
        bind_program (db_read_snapshot w l after (min batch_size (pl_snapshot_count l - length snapshot))) (\<lambda>batch.
        bind_program (require (\<not> (batch = [] \<or>
            length batch > min batch_size (pl_snapshot_count l - length snapshot) \<or>
            length batch > pl_snapshot_count l - length snapshot)) (failure PhaseSnapshotRead)) (\<lambda>_.
        bind_program (require (ascending after (map ds_workshop_id batch)) (failure PhaseSnapshotRead)) (\<lambda>_ t.
          read_snapshot_loop w l batch_size (snapshot @ batch) (next_after after batch) t)))) s
      else bind_program (require (length snapshot = pl_snapshot_count l) (failure PhaseSnapshotRead)) (\<lambda>_.
          return snapshot) s)"
  by pat_completeness auto
termination
  by (relation "measure (\<lambda>(w, l, batch_size, snapshot, after, s). pl_snapshot_count l - length snapshot)")
     (auto simp: require_Done neq_Nil_conv)

declare read_snapshot_loop.simps [simp del]

definition read_complete_snapshot ::
  "publication_world \<Rightarrow> publication_lease \<Rightarrow> nat \<Rightarrow> db_snapshot_item list publication" where
  "read_complete_snapshot w l batch_size = read_snapshot_loop w l batch_size [] None"


section \<open>Staging and sealing\<close>

text \<open>
  \<open>DatabaseRowRecorder::record\<close>; the recorder's field \<open>target_evidence\<close> is passed and returned.
\<close>

definition record_row ::
  "publication_world \<Rightarrow> publication_lease \<Rightarrow> route_set_seal_evidence option \<Rightarrow> route_set_seal_evidence
     \<Rightarrow> route_set_seal_evidence option publication" where
  "record_row w l target_evidence e =
     bind_program (require (\<not> (se_workshop_id e = pl_target_workshop_id l \<and>
         (applied_of (se_disposition e) \<noteq> pl_expected_disposition l \<or>
          (case target_evidence of None \<Rightarrow> False | Some stored \<Rightarrow> stored \<noteq> e)))) (failure PhaseStaging)) (\<lambda>_.
     bind_program (db_record_entry w l e) (\<lambda>outcome.
     bind_program (lift_result (accept_entry outcome)) (\<lambda>_.
     bind_program (require_renewal w l PhaseStaging) (\<lambda>_.
       return (if se_workshop_id e = pl_target_workshop_id l then Some e else target_evidence)))))"

text \<open>\<open>while let Some(evidence) = prepared.stage_next(&mut sealer)?\<close>.\<close>

function stage_rows ::
  "publication_world \<Rightarrow> publication_lease \<Rightarrow> prepared_route_set \<Rightarrow> sealer \<Rightarrow> route_set_seal_evidence option
     \<Rightarrow> (prepared_route_set \<times> sealer \<times> route_set_seal_evidence option) publication" where
  "stage_rows w l p sl target_evidence s =
     (case stage_next (lf_sha256_hex (w_lib w)) (lf_evidence_to_vec (w_lib w)) p sl of
        Inl e \<Rightarrow> fail e s
      | Inr (None, p', sl') \<Rightarrow> return (p', sl', target_evidence) s
      | Inr (Some e, p', sl') \<Rightarrow>
          bind_program (record_row w l target_evidence e) (\<lambda>target_evidence' t.
            stage_rows w l p' sl' target_evidence' t) s)"
  by pat_completeness auto
termination
  by (relation "measure (\<lambda>(w, l, p, sl, te, s). length (ps_rows p) - ps_next_row p)")
     (auto dest!: stage_next_Some)

declare stage_rows.simps [simp del]

definition take_prepared :: "prepared_route_set publication" where
  "take_prepared s =
     (case st_prepared s of
        None \<Rightarrow> fail (failure PhaseStaging) s
      | Some p \<Rightarrow> return p (s\<lparr>st_prepared := None\<rparr>))"

definition stage_and_seal ::
  "publication_world \<Rightarrow> publication_lease
     \<Rightarrow> (sealed_route_set_generation \<times> route_set_seal_evidence option) publication" where
  "stage_and_seal w l =
     bind_program take_prepared (\<lambda>prepared.
     bind_program generation_mut (\<lambda>intent.
     bind_program (call_sync (hp_begin_seal (w_host w)) FsBeginSeal) (\<lambda>(routes, manifest).
     bind_program (stage_rows w l prepared (begin_seal intent routes manifest) None) (\<lambda>(prepared, sl, target_evidence).
     bind_program (require (is_complete prepared) (failure PhaseStaging)) (\<lambda>_.
     bind_program (lift_result (map_err (\<lambda>_. internal []) (finish_sealer (lf_sha256_hex (w_lib w)) sl)))
       (\<lambda>(identity, route_count, present_count).
     bind_program (call_sync (hp_finish_seal (w_host w)) (FsFinishSeal identity)) (\<lambda>(dev, ino).
       (let sealed = \<lparr>sg_name = generation_name (in_publication_id intent) (in_publication_kind intent),
            sg_identity = identity, sg_route_count = route_count, sg_present_route_count = present_count,
            sg_selector = \<lparr>sel_target = selector_target (in_publication_id intent) (in_publication_kind intent),
              sel_directory_dev = dev, sel_directory_ino = ino\<rparr>\<rparr>
        in bind_program (modify (\<lambda>s. s\<lparr>st_prepared := Some prepared, st_sealed := Some sealed\<rparr>)) (\<lambda>_.
          return (sealed, target_evidence))))))))))"


section \<open>Coordination\<close>

text \<open>\<open>coordinate_acquired\<close> up to the point where the durable outcome can become ambiguous.\<close>

definition coordinate_until_sealed ::
  "publication_world \<Rightarrow> publication_plan \<Rightarrow> publication_lease \<Rightarrow> prior_selector \<times> prior_loaded_identity
     \<Rightarrow> (sealed_route_set_generation \<times> route_set_seal_evidence) publication" where
  "coordinate_until_sealed w plan l preflight =
     bind_program (require_renewal w l PhasePriorObservation) (\<lambda>_.
     bind_program (set_phase PhasePriorObservation) (\<lambda>_.
     bind_program (observe_bound_prior w True) (\<lambda>confirmed.
     bind_program (require (confirmed = preflight) (failure PhasePriorObservation)) (\<lambda>_.
     bind_program (db_record_prior w l (fst preflight) (database_prior_identity (snd preflight))) (\<lambda>outcome.
     bind_program (lift_result (accept_prior outcome)) (\<lambda>_.
     bind_program (set_phase PhaseSnapshotRead) (\<lambda>_.
     bind_program (read_complete_snapshot w l (pp_snapshot_batch_size plan)) (\<lambda>snapshot.
     bind_program (set_phase PhasePreparation) (\<lambda>_.
     bind_program (freeze_context w snapshot) (\<lambda>runtime.
     bind_program (fs_prepare w l runtime snapshot) (\<lambda>_.
     bind_program (require_renewal w l PhasePreparation) (\<lambda>_.
     bind_program (fs_begin w l) (\<lambda>_.
     bind_program (set_phase PhaseStaging) (\<lambda>_.
     bind_program (require_renewal w l PhaseStaging) (\<lambda>_.
     bind_program (stage_and_seal w l) (\<lambda>(sealed, target).
     bind_program (lift_result (ok_or target (failure PhaseStaging))) (\<lambda>target_evidence.
     bind_program (set_phase PhaseSealing) (\<lambda>_.
     bind_program (db_seal w l sealed) (\<lambda>outcome.
     bind_program (lift_result (accept_seal outcome)) (\<lambda>_.
     bind_program (require_renewal w l PhaseSealing) (\<lambda>_.
       return (sealed, target_evidence))))))))))))))))))))))"

definition coordinate_from_start ::
  "publication_world \<Rightarrow> publication_lease \<Rightarrow> prior_selector \<Rightarrow> sealed_route_set_generation
     \<Rightarrow> prior_selector publication" where
  "coordinate_from_start w l prior sealed =
     bind_program (modify (\<lambda>s. s\<lparr>st_risk := RiskStartAttempted\<rparr>)) (\<lambda>_.
     bind_program arm (\<lambda>_.
     bind_program (set_phase PhaseStartAttempted) (\<lambda>_.
     bind_program (db_start w l) (\<lambda>outcome.
     bind_program (lift_result (accept_start outcome)) (\<lambda>_.
     bind_program (set_phase PhasePublishing) (\<lambda>_.
     bind_program (fs_publish w prior) (\<lambda>_.
     bind_program (set_phase PhaseRuntimeReload) (\<lambda>_.
     bind_program (call_async w True (hp_reload (w_host w))
       (RuntimeReload (id_route_set_digest (sg_identity sealed)))) (\<lambda>_.
     bind_program (set_phase PhaseObservation) (\<lambda>_.
     bind_program (call_async w True (hp_runtime_candidate (w_host w))
       (RuntimeObserveCandidate (sg_identity sealed))) (\<lambda>runtime_identity.
     bind_program (require (runtime_identity = sg_identity sealed) (failure PhaseObservation)) (\<lambda>_.
     bind_program (fs_observe_candidate w) (\<lambda>(observed, filesystem_identity).
     bind_program (require (observed = sg_selector sealed \<and> filesystem_identity = sg_identity sealed)
       (failure PhaseObservation)) (\<lambda>_.
     bind_program (db_observe w l observed filesystem_identity) (\<lambda>outcome.
     bind_program (lift_result (accept_observe outcome)) (\<lambda>_.
       return observed))))))))))))))))"

record observed_publication_evidence =
  oe_prior :: prior_selector
  oe_sealed :: sealed_route_set_generation
  oe_target_evidence :: route_set_seal_evidence
  oe_observed :: prior_selector

definition coordinate_acquired ::
  "publication_world \<Rightarrow> publication_plan \<Rightarrow> publication_lease \<Rightarrow> prior_selector \<times> prior_loaded_identity
     \<Rightarrow> observed_publication_evidence publication" where
  "coordinate_acquired w plan l preflight =
     bind_program (coordinate_until_sealed w plan l preflight) (\<lambda>(sealed, target_evidence).
     bind_program (coordinate_from_start w l (fst preflight) sealed) (\<lambda>observed.
       return \<lparr>oe_prior = fst preflight, oe_sealed = sealed, oe_target_evidence = target_evidence,
               oe_observed = observed\<rparr>))"

definition coordinate_admitted ::
  "publication_world \<Rightarrow> publication_plan \<Rightarrow> publication_lease \<Rightarrow> prior_selector \<times> prior_loaded_identity
     \<Rightarrow> observed_publication_evidence publication" where
  "coordinate_admitted w plan l preflight =
     bind_program (modify (\<lambda>s. s\<lparr>st_cancellation :=
       Some \<lparr>ac_lease = l, ac_retained_host_guard = True, ac_armed = False\<rparr>,
       st_risk := Reversible, st_phase := PhasePriorObservation\<rparr>)) (\<lambda>_.
     bind_program (attempt (with_publication_heartbeat w (coordinate_acquired w plan l preflight))) (\<lambda>result.
       case result of
         Inr evidence \<Rightarrow> return evidence
       | Inl error \<Rightarrow>
           (\<lambda>s. if st_risk s = RiskStartAttempted then
              bind_program (attempt (db_quarantine w l)) (\<lambda>confirmed.
              bind_program (if confirmed = Inr True then disarm else return ()) (\<lambda>_.
                fail error)) s
            else fail error s)))"

text \<open>
  When the coordinator does not hand its cancellation guard on to the finalisation, the guard is
  dropped with the rest of its locals.
\<close>

definition dropped_unless_done :: "'a publication \<Rightarrow> 'a publication" where
  "dropped_unless_done m s = (case m s of (Done a, t) \<Rightarrow> (Done a, t) | (r, t) \<Rightarrow> (r, drop_cancellation t))"

definition dropped_after :: "'a publication \<Rightarrow> 'a publication" where
  "dropped_after m s = (case m s of (r, t) \<Rightarrow> (r, drop_cancellation t))"

definition coordinate_route_set_publication ::
  "publication_world \<Rightarrow> publication_plan \<Rightarrow> (publication_lease \<times> observed_publication_evidence) publication" where
  "coordinate_route_set_publication w plan =
     dropped_unless_done (
       bind_program (require (pp_snapshot_batch_size plan \<noteq> 0) (failure PhaseAdmission)) (\<lambda>_.
       bind_program (call_async w False (hp_acquire (w_host w)) AcquireGuard) (\<lambda>_.
       bind_program (call_sync (hp_retain (w_host w)) RetainGuard) (\<lambda>_.
       bind_program (observe_bound_prior w False) (\<lambda>preflight.
       bind_program (db_admit w (pp_admission plan)) (\<lambda>admission.
         case admission of
           AdmissionAcquired l \<Rightarrow>
             bind_program (coordinate_admitted w plan l preflight) (\<lambda>evidence. return (l, evidence))
         | AdmissionReplay _ \<Rightarrow> fail (failure PhaseAdmission)
         | AdmissionRefused _ \<Rightarrow> fail (failure PhaseAdmission)))))))"


section \<open>Finalisation\<close>

definition finish_observed ::
  "publication_world \<Rightarrow> publication_lease \<Rightarrow> observed_publication_evidence \<Rightarrow> publication_response publication" where
  "finish_observed w l ev =
     bind_program (require (oe_observed ev = sg_selector (oe_sealed ev)) (failure PhaseFinalization)) (\<lambda>_.
     bind_program (call_async w True (hp_runtime_candidate (w_host w))
       (RuntimeObserveCandidate (sg_identity (oe_sealed ev)))) (\<lambda>runtime_identity.
     bind_program (require (runtime_identity = sg_identity (oe_sealed ev)) (failure PhaseFinalization)) (\<lambda>_.
     bind_program (fs_observe_candidate w) (\<lambda>(selected, filesystem_identity).
     bind_program (require (selected = oe_observed ev \<and> selected = sg_selector (oe_sealed ev) \<and>
         filesystem_identity = sg_identity (oe_sealed ev)) (failure PhaseFinalization)) (\<lambda>_.
     bind_program (db_finish w l (oe_sealed ev) (oe_target_evidence ev)) (\<lambda>outcome.
       case outcome of
         FinishCompleted response \<Rightarrow> return response
       | FinishReplay response \<Rightarrow> return response
       | _ \<Rightarrow> fail (failure PhaseFinalization)))))))"

definition finalize ::
  "publication_world \<Rightarrow> publication_result_request \<Rightarrow> publication_lease \<Rightarrow> observed_publication_evidence
     \<Rightarrow> publication_response publication" where
  "finalize w request l ev =
     dropped_after (
       bind_program (attempt (with_publication_heartbeat w (finish_observed w l ev))) (\<lambda>result.
         case result of
           Inr response \<Rightarrow> bind_program disarm (\<lambda>_. return response)
         | Inl source \<Rightarrow>
             bind_program (attempt (db_read_result w request)) (\<lambda>read.
               case read of
                 Inr (ResultCompleted _ _ response) \<Rightarrow> bind_program disarm (\<lambda>_. return response)
               | _ \<Rightarrow> fail source)))"

definition execute_route_set_with_ports ::
  "publication_world \<Rightarrow> publication_admission_request \<Rightarrow> publication_response publication" where
  "execute_route_set_with_ports w a =
     bind_program (db_read_result w (from_admission a)) (\<lambda>result.
       case result of
         ResultCompleted _ _ response \<Rightarrow> return response
       | ResultAbsent \<Rightarrow>
           bind_program (coordinate_route_set_publication w (plan_new a)) (\<lambda>(l, evidence).
             finalize w (from_admission a) l evidence)
       | _ \<Rightarrow> fail (failure PhaseAdmission))"


section \<open>Heartbeat and cleanup timing\<close>

definition MAX_HEARTBEAT_INTERVAL :: nat where "MAX_HEARTBEAT_INTERVAL = 30"
definition MAX_HEARTBEAT_TIMEOUT :: nat where "MAX_HEARTBEAT_TIMEOUT = 10"

text \<open>Whole seconds; the timeout is in milliseconds because half an interval may be odd.\<close>

definition heartbeat_interval :: "publication_lease \<Rightarrow> nat" where
  "heartbeat_interval l =
     min (max ((if sint (pl_ttl_seconds l) \<ge> 0 then nat (sint (pl_ttl_seconds l)) else 60) div 3) 1)
       MAX_HEARTBEAT_INTERVAL"

definition heartbeat_timeout_ms :: "nat \<Rightarrow> nat" where
  "heartbeat_timeout_ms interval = min (interval * 1000 div 2) (MAX_HEARTBEAT_TIMEOUT * 1000)"

datatype cleanup_decision = CleanupDurable | CleanupRetry

definition cleanup_decision_of :: "unit + bool \<Rightarrow> read_result option \<Rightarrow> cleanup_decision" where
  "cleanup_decision_of quarantine result =
     (if quarantine = Inr True \<or>
         (case result of Some (ResultCompleted _ _ _) \<Rightarrow> True | Some (ResultNotApplied _) \<Rightarrow> True | _ \<Rightarrow> False)
      then CleanupDurable else CleanupRetry)"

text \<open>
  One turn of the cleanup task: the quarantine is attempted again, and when the database refuses it,
  the result is read, since the publication may have been completed or resolved in between.
\<close>

definition cleanup_turn ::
  "publication_world \<Rightarrow> publication_lease \<Rightarrow> publication_result_request \<Rightarrow> cleanup_decision publication" where
  "cleanup_turn w l request =
     bind_program (attempt (db_quarantine w l)) (\<lambda>quarantine.
     bind_program (if quarantine = Inr False
         then bind_program (attempt (db_read_result w request)) (\<lambda>r. return (case r of Inr x \<Rightarrow> Some x | Inl _ \<Rightarrow> None))
         else return None) (\<lambda>result.
       return (cleanup_decision_of (map_err (\<lambda>_. ()) quarantine) result)))"

text \<open>
  The loop of the task; it has no bound of its own. The failure count, which only sets the delay and
  the logging, saturates.
\<close>

partial_function (option) cleanup_loop ::
  "publication_world \<Rightarrow> publication_lease \<Rightarrow> publication_result_request \<Rightarrow> 32 word \<Rightarrow> publication_state
     \<Rightarrow> ((driver_error, unit) outcome \<times> publication_state) option" where
  "cleanup_loop w l request failure_count s =
     (case cleanup_turn w l request s of
        (Done CleanupDurable, t) \<Rightarrow> Some (Done (), t)
      | (Done CleanupRetry, t) \<Rightarrow>
          cleanup_loop w l request (if failure_count = - 1 then failure_count else failure_count + 1) t
      | (Fails e, t) \<Rightarrow> Some (Fails e, t)
      | (Cancelled, t) \<Rightarrow> Some (Cancelled, t))"

end
