(* ===== verification/Route_Set_Publication_Safety.thy ===== *)
theory Route_Set_Publication_Safety
  imports Route_Set_Publication
begin

text \<open>
  What every run of the publication coordinator keeps, whatever the environment answers and wherever
  it interrupts: the order of the irreversible steps, the quarantine of an ambiguous outcome, and the
  meaning of a returned receipt.
\<close>

section \<open>Answered calls\<close>

text \<open>A call that matches \<open>M\<close> was made and its answer, read from the record up to it, satisfies \<open>P\<close>.\<close>

definition answered :: "('c list \<Rightarrow> bool) \<Rightarrow> ('c \<Rightarrow> bool) \<Rightarrow> 'c list \<Rightarrow> bool" where
  "answered P M cs \<longleftrightarrow> list_ex (\<lambda>k. M (cs ! k) \<and> P (take (Suc k) cs)) [0..<length cs]"

definition count_answered :: "('c list \<Rightarrow> bool) \<Rightarrow> ('c \<Rightarrow> bool) \<Rightarrow> 'c list \<Rightarrow> nat" where
  "count_answered P M cs = length (filter (\<lambda>k. M (cs ! k) \<and> P (take (Suc k) cs)) [0..<length cs])"

lemma answered_Nil [simp]: "\<not> answered P M []"
  by (simp add: answered_def)

lemma answered_snoc [simp]: "answered P M (cs @ [c]) \<longleftrightarrow> answered P M cs \<or> (M c \<and> P (cs @ [c]))"
proof -
  have "(\<exists>k\<in>set [0..<length cs]. M ((cs @ [c]) ! k) \<and> P (take (Suc k) (cs @ [c]))) \<longleftrightarrow> answered P M cs"
    unfolding answered_def list_ex_iff by (intro bex_cong refl) (auto simp: nth_append)
  then show ?thesis by (auto simp: answered_def list_ex_iff)
qed

lemma answered_append: "answered P M cs \<Longrightarrow> answered P M (cs @ ds)"
  by (induction ds rule: rev_induct) (simp_all flip: append_assoc)

lemma count_answered_Nil [simp]: "count_answered P M [] = 0"
  by (simp add: count_answered_def)

lemma count_answered_snoc [simp]:
  "count_answered P M (cs @ [c]) = count_answered P M cs + (if M c \<and> P (cs @ [c]) then 1 else 0)"
proof -
  have "filter (\<lambda>k. M ((cs @ [c]) ! k) \<and> P (take (Suc k) (cs @ [c]))) [0..<length cs] =
      filter (\<lambda>k. M (cs ! k) \<and> P (take (Suc k) cs)) [0..<length cs]"
    by (intro filter_cong refl) (auto simp: nth_append)
  then show ?thesis by (simp add: count_answered_def)
qed

lemma count_answered_append: "list_all (\<lambda>c. \<not> M c) ds \<Longrightarrow> count_answered P M (cs @ ds) = count_answered P M cs"
  by (induction ds rule: rev_induct) (simp_all flip: append_assoc)


section \<open>The protocol\<close>

fun statement_authority :: "publication_call \<Rightarrow> lease_authority option" where
  "statement_authority (CallSql (SqlRenew a _)) = Some a"
| "statement_authority (CallSql (SqlReadSnapshot a _ _)) = Some a"
| "statement_authority (CallSql (SqlRecordPrior a _ _ _ _)) = Some a"
| "statement_authority (CallSql (SqlRecordEntry a _ _ _ _ _ _)) = Some a"
| "statement_authority (CallSql (SqlSeal a _ _ _ _ _ _)) = Some a"
| "statement_authority (CallSql (SqlStart a)) = Some a"
| "statement_authority (CallSql (SqlObserve a _ _ _ _)) = Some a"
| "statement_authority (CallSql (SqlFinish a)) = Some a"
| "statement_authority (CallSql (SqlQuarantine a _)) = Some a"
| "statement_authority _ = None"

fun is_admit where
  "is_admit (CallSql (SqlAdmit _ _ _ _ _ _ _ _ _ _ _ _)) = True" | "is_admit _ = False"

fun is_read_result where
  "is_read_result (CallSql (SqlReadResult _ _ _ _)) = True" | "is_read_result _ = False"

fun is_prior where
  "is_prior a (CallSql (SqlRecordPrior b _ _ _ _)) = (b = a)" | "is_prior a _ = False"

fun records_prior where
  "records_prior p (CallSql (SqlRecordPrior _ t d i _)) =
     (t = sel_target p \<and> d = sel_directory_dev p \<and> i = sel_directory_ino p)"
| "records_prior p _ = False"

fun is_entry where
  "is_entry a (CallSql (SqlRecordEntry b _ _ _ _ _ _)) = (b = a)" | "is_entry a _ = False"

fun is_seal where
  "is_seal a (CallSql (SqlSeal b _ _ _ _ _ _)) = (b = a)" | "is_seal a _ = False"

fun seals_digest where
  "seals_digest d (CallSql (SqlSeal _ _ _ _ _ _ e)) = (e = d)" | "seals_digest d _ = False"

fun is_start where
  "is_start (CallSql (SqlStart _)) = True" | "is_start _ = False"

fun is_observe where
  "is_observe a (CallSql (SqlObserve b _ _ _ _)) = (b = a)" | "is_observe a _ = False"

fun is_publish where
  "is_publish (FsPublish _) = True" | "is_publish _ = False"

fun is_reload where
  "is_reload (RuntimeReload _) = True" | "is_reload _ = False"

fun is_runtime_candidate where
  "is_runtime_candidate (RuntimeObserveCandidate _) = True" | "is_runtime_candidate _ = False"

text \<open>The database's answer to the latest statement parses and is accepted.\<close>

definition accepted ::
  "publication_world \<Rightarrow> (str \<Rightarrow> driver_error + 'o) \<Rightarrow> ('o \<Rightarrow> driver_error + unit) \<Rightarrow> publication_call list \<Rightarrow> bool" where
  "accepted w decode accept cs =
     (case sq_text (w_sql w) cs of
        None \<Rightarrow> False
      | Some v \<Rightarrow> and_then (decode v) accept = Inr ())"

text \<open>The lease that admission granted in this run.\<close>

definition grants :: "publication_world \<Rightarrow> publication_admission_request \<Rightarrow> lease_authority \<Rightarrow> publication_call list \<Rightarrow> bool" where
  "grants w a authority cs =
     (case sq_admission (w_sql w) cs of
        None \<Rightarrow> False
      | Some row \<Rightarrow> (case admit_reply a row of Inr (AdmissionAcquired l) \<Rightarrow> authority_of l = authority | _ \<Rightarrow> False))"

definition candidate_on_disk :: "publication_world \<Rightarrow> prior_selector \<Rightarrow> json \<Rightarrow> publication_call list \<Rightarrow> bool" where
  "candidate_on_disk w observed j cs =
     (case hp_fs_candidate (w_host w) cs of
        Inl _ \<Rightarrow> False
      | Inr (selector, i) \<Rightarrow> selector = observed \<and> route_set_identity_json i = j)"

definition candidate_running :: "publication_world \<Rightarrow> json \<Rightarrow> publication_call list \<Rightarrow> bool" where
  "candidate_running w j cs =
     (case hp_runtime_candidate (w_host w) cs of Inl _ \<Rightarrow> False | Inr i \<Rightarrow> route_set_identity_json i = j)"

text \<open>What must have happened before a call.\<close>

fun preceded :: "publication_world \<Rightarrow> publication_call list \<Rightarrow> publication_call \<Rightarrow> bool" where
  "preceded w prev (CallSql (SqlRecordEntry a _ _ _ _ _ _)) =
     answered (accepted w parse_record_prior_outcome accept_prior) (is_prior a) prev"
| "preceded w prev (CallSql (SqlSeal a _ _ _ n _ _)) =
     (unat n = count_answered (accepted w parse_record_entry_outcome accept_entry) (is_entry a) prev)"
| "preceded w prev (CallSql (SqlStart a)) =
     answered (accepted w parse_seal_outcome accept_seal) (is_seal a) prev"
| "preceded w prev (FsPublish p) =
     (answered (accepted w parse_start_outcome accept_start) is_start prev \<and>
      answered (accepted w parse_record_prior_outcome accept_prior) (records_prior p) prev)"
| "preceded w prev (RuntimeReload d) =
     (answered (\<lambda>cs. is_ok (hp_publish (w_host w) cs)) is_publish prev \<and>
      answered (accepted w parse_seal_outcome accept_seal) (seals_digest d) prev)"
| "preceded w prev (CallSql (SqlObserve a t d i j)) =
     (answered (\<lambda>cs. is_ok (hp_reload (w_host w) cs)) is_reload prev \<and>
      answered (candidate_running w j) is_runtime_candidate prev \<and>
      answered (candidate_on_disk w \<lparr>sel_target = t, sel_directory_dev = d, sel_directory_ino = i\<rparr> j)
        (\<lambda>c. c = FsObserveCandidate) prev)"
| "preceded w prev (CallSql (SqlFinish a)) =
     answered (accepted w parse_observe_outcome accept_observe) (is_observe a) prev"
| "preceded w prev (CallSql (SqlQuarantine a _)) = (CallSql (SqlStart a) \<in> set prev)"
| "preceded w prev (ScheduleQuarantine l) = (CallSql (SqlStart (authority_of l)) \<in> set prev)"
| "preceded w prev _ = True"

definition allowed ::
  "publication_world \<Rightarrow> publication_admission_request \<Rightarrow> publication_call list \<Rightarrow> publication_call \<Rightarrow> bool" where
  "allowed w a prev c \<longleftrightarrow> preceded w prev c \<and>
     (case statement_authority c of None \<Rightarrow> True | Some auth \<Rightarrow> answered (grants w a auth) is_admit prev)"

definition trace_ok ::
  "publication_world \<Rightarrow> publication_admission_request \<Rightarrow> publication_call list \<Rightarrow> bool" where
  "trace_ok w a cs \<longleftrightarrow> list_all (\<lambda>k. allowed w a (take k cs) (cs ! k)) [0..<length cs]"

lemma trace_ok_Nil [simp]: "trace_ok w a []"
  by (simp add: trace_ok_def)

lemma trace_ok_snoc [simp]: "trace_ok w a (cs @ [c]) \<longleftrightarrow> trace_ok w a cs \<and> allowed w a cs c"
proof -
  have "(\<forall>k\<in>set [0..<length cs]. allowed w a (take k (cs @ [c])) ((cs @ [c]) ! k)) \<longleftrightarrow> trace_ok w a cs"
    unfolding trace_ok_def list_all_iff by (intro ball_cong refl) (auto simp: nth_append)
  then show ?thesis by (auto simp: trace_ok_def list_all_iff)
qed


section \<open>Programs that only make reversible calls\<close>

text \<open>The record grows by calls of a kind; risk and cancellation guard are untouched.\<close>

definition extends :: "(publication_call \<Rightarrow> bool) \<Rightarrow> publication_state \<Rightarrow> publication_state \<Rightarrow> bool" where
  "extends H s t \<longleftrightarrow> (\<exists>ds. st_calls t = st_calls s @ ds \<and> list_all H ds) \<and>
     st_risk t = st_risk s \<and> st_cancellation t = st_cancellation s"

definition quiet :: "(publication_call \<Rightarrow> bool) \<Rightarrow> 'a publication \<Rightarrow> bool" where
  "quiet H m \<longleftrightarrow> (\<forall>s. wp m (\<lambda>_ t. extends H s t) s)"

named_theorems quiet_rules "programs that only make calls of a kind"

lemma extends_refl [simp]: "extends H s s"
  by (simp add: extends_def)

lemma extends_trans: "extends H s t \<Longrightarrow> extends H t u \<Longrightarrow> extends H s u"
  by (auto simp: extends_def)

lemma quiet_step: "quiet H m \<Longrightarrow> extends H s t \<Longrightarrow> wp m (\<lambda>_ u. extends H s u) t"
  unfolding quiet_def by (blast intro: wp_mono extends_trans)

lemma quiet_return [quiet_rules]: "quiet H (return a)"
  by (simp add: quiet_def wp_rules)

lemma quiet_fail [quiet_rules]: "quiet H (fail e)"
  by (simp add: quiet_def wp_rules)

lemma quiet_lift_result [quiet_rules]: "quiet H (lift_result r)"
  by (simp add: quiet_def wp_rules)

lemma quiet_require [quiet_rules]: "quiet H (require c e)"
  by (simp add: quiet_def wp_rules)

lemma quiet_modify [quiet_rules]:
  "(\<And>s. st_calls (f s) = st_calls s \<and> st_risk (f s) = st_risk s \<and> st_cancellation (f s) = st_cancellation s)
     \<Longrightarrow> quiet H (modify f)"
  by (simp add: quiet_def wp_rules extends_def)

lemma quiet_set_phase [quiet_rules]: "quiet H (set_phase p)"
  unfolding set_phase_def by (rule quiet_modify) simp

lemma quiet_bind [quiet_rules]:
  assumes "quiet H m" and "\<And>a. quiet H (f a)"
  shows "quiet H (bind_program m f)"
  unfolding quiet_def wp_bind
proof
  fix s
  show "wp m (continue_with f (\<lambda>_ t. extends H s t)) s"
    using assms(1) unfolding quiet_def
  proof (rule allE [where x = s], elim wp_mono)
    fix r t assume "extends H s t"
    then show "continue_with f (\<lambda>_ t. extends H s t) r t"
      using quiet_step [OF assms(2)] by (cases r) auto
  qed
qed

lemma quiet_case_prod [quiet_rules]: "(\<And>a b. quiet H (f a b)) \<Longrightarrow> quiet H (case x of (a, b) \<Rightarrow> f a b)"
  by (simp add: split_beta)

lemma quiet_call_sync [quiet_rules]: "H c \<Longrightarrow> quiet H (call_sync port c)"
  by (simp add: quiet_def call_sync_def wp_rules extends_def)

lemma quiet_call_async [quiet_rules]: "H c \<Longrightarrow> quiet H (call_async w g port c)"
  unfolding quiet_def call_async_def by (intro allI wp_async_callI) (simp_all add: extends_def)

lemma quiet_statement [quiet_rules]: "(\<And>q. request = Inr q \<Longrightarrow> H (CallSql q)) \<Longrightarrow> quiet H (statement w g request port reply)"
  unfolding statement_def
  by (cases request) (auto simp: bind_lift_result intro!: quiet_rules)

text \<open>The calls of the coordinator before it records rows.\<close>

fun preparing :: "lease_authority \<Rightarrow> publication_call \<Rightarrow> bool" where
  "preparing a (CallSql (SqlRenew b _)) = (b = a)"
| "preparing a (CallSql (SqlReadSnapshot b _ _)) = (b = a)"
| "preparing a FsObservePrior = True"
| "preparing a (RuntimeObservePrior _) = True"
| "preparing a RuntimeActiveOdoo = True"
| "preparing a (FsCreateGeneration _) = True"
| "preparing a FsBeginSeal = True"
| "preparing a (FsFinishSeal _) = True"
| "preparing a _ = False"

lemma quiet_require_renewal [quiet_rules]: "preparing (authority_of l) = H \<Longrightarrow> quiet H (require_renewal w l phase)"
  unfolding require_renewal_def db_renew_def
  by (intro quiet_rules) (auto simp: renew_sql_def and_then_Inr)

lemma quiet_observe_bound_prior [quiet_rules]: "preparing (authority_of l) = H \<Longrightarrow> quiet H (observe_bound_prior w g)"
  unfolding observe_bound_prior_def fs_observe_prior_def runtime_observe_prior_def
  by (intro quiet_rules | (auto split: if_splits intro!: quiet_rules)[1])+

lemma quiet_read_snapshot [quiet_rules]:
  "preparing (authority_of l) = H \<Longrightarrow> quiet H (db_read_snapshot w l after limit)"
  unfolding db_read_snapshot_def
  by (intro quiet_rules) (auto simp: read_snapshot_sql_def and_then_Inr)

lemma quiet_if [quiet_rules]: "(c \<Longrightarrow> quiet H m) \<Longrightarrow> (\<not> c \<Longrightarrow> quiet H n) \<Longrightarrow> quiet H (if c then m else n)"
  by simp

lemma read_snapshot_loop_unfold:
  "read_snapshot_loop w l b snapshot after =
     (if length snapshot < pl_snapshot_count l then
        bind_program (require_renewal w l PhaseSnapshotRead) (\<lambda>_.
        bind_program (db_read_snapshot w l after (min b (pl_snapshot_count l - length snapshot))) (\<lambda>batch.
          if \<not> (batch = [] \<or> length batch > min b (pl_snapshot_count l - length snapshot) \<or>
             length batch > pl_snapshot_count l - length snapshot)
          then (if ascending after (map ds_workshop_id batch)
            then read_snapshot_loop w l b (snapshot @ batch) (next_after after batch)
            else fail (failure PhaseSnapshotRead))
          else fail (failure PhaseSnapshotRead)))
      else if length snapshot = pl_snapshot_count l then return snapshot else fail (failure PhaseSnapshotRead))"
  by (rule ext) (subst read_snapshot_loop.simps, simp add: bind_require)

lemma quiet_snapshot_loop:
  assumes "preparing (authority_of l) = H"
  shows "quiet H (read_snapshot_loop w l b snapshot after)"
proof (induction "pl_snapshot_count l - length snapshot" arbitrary: snapshot after rule: less_induct)
  case less
  show ?case
    by (subst read_snapshot_loop_unfold)
       (intro quiet_rules assms less; auto simp: neq_Nil_conv)
qed

lemma quiet_read_complete [quiet_rules]:
  "preparing (authority_of l) = H \<Longrightarrow> quiet H (read_complete_snapshot w l b)"
  unfolding read_complete_snapshot_def by (rule quiet_snapshot_loop)

lemma quiet_freeze_context [quiet_rules]: "preparing a = H \<Longrightarrow> quiet H (freeze_context w snapshot)"
  unfolding freeze_context_def by (intro quiet_rules) auto

text \<open>A program that looks at the state before it acts.\<close>

lemma quiet_inspect: "(\<And>s. quiet H (f s)) \<Longrightarrow> quiet H (\<lambda>s. f s s)"
  by (simp add: quiet_def wp_def)

lemma quiet_fs_prepare [quiet_rules]: "quiet H (fs_prepare w l runtime snapshot)"
proof -
  have "fs_prepare w l runtime snapshot = (\<lambda>s. (if st_prepared s \<noteq> None \<or> st_generation s \<noteq> None
      then fail (failure PhasePreparation)
      else bind_program (lift_result (prepare_frozen_route_set (lf_jcs (w_lib w)) (lf_sha256_hex (w_lib w))
          (lf_parse_uuid (w_lib w)) (pl_publication_kind l) (pl_target_workshop_id l) runtime
          (map into_staging_item snapshot))) (\<lambda>p. modify (\<lambda>s. s\<lparr>st_prepared := Some p\<rparr>))) s)"
    by (rule ext) (simp add: fs_prepare_def)
  then show ?thesis by (simp only:) (rule quiet_inspect, intro quiet_rules; simp)
qed

lemma quiet_fs_begin [quiet_rules]: "preparing a = H \<Longrightarrow> quiet H (fs_begin w l)"
proof -
  assume H: "preparing a = H"
  have "fs_begin w l = (\<lambda>s. (if st_prepared s = None \<or> st_generation s \<noteq> None
      then fail (failure PhasePreparation)
      else bind_program (lift_result (map_err (\<lambda>_. internal []) (intent_new (pl_publication_id l)
          (pl_publication_kind l) (pl_global_fence_token l) (pl_target_workshop_id l)
          (pl_target_route_fence_token l)))) (\<lambda>i.
        bind_program (call_sync (hp_create_generation (w_host w)) (FsCreateGeneration i)) (\<lambda>_.
          modify (\<lambda>s. s\<lparr>st_generation := Some i\<rparr>)))) s)"
    by (rule ext) (simp add: fs_begin_def)
  then show ?thesis by (simp only:) (rule quiet_inspect, intro quiet_rules; simp flip: H)
qed

lemma quiet_generation_mut [quiet_rules]: "quiet H generation_mut"
  by (auto simp: quiet_def wp_def generation_mut_def lift_result_def return_def fail_def split: sum.splits)

lemma quiet_take_prepared [quiet_rules]: "quiet H take_prepared"
  by (auto simp: quiet_def wp_def take_prepared_def extends_def fail_def return_def split: option.splits)


section \<open>Before the start\<close>

fun reversible_call :: "publication_call \<Rightarrow> bool" where
  "reversible_call (CallSql (SqlStart _)) = False"
| "reversible_call (CallSql (SqlObserve _ _ _ _ _)) = False"
| "reversible_call (CallSql (SqlFinish _)) = False"
| "reversible_call (CallSql (SqlQuarantine _ _)) = False"
| "reversible_call (FsPublish _) = False"
| "reversible_call (RuntimeReload _) = False"
| "reversible_call (ScheduleQuarantine _) = False"
| "reversible_call _ = True"

abbreviation entries_accepted :: "publication_world \<Rightarrow> publication_lease \<Rightarrow> publication_call list \<Rightarrow> nat" where
  "entries_accepted w l \<equiv>
     count_answered (accepted w parse_record_entry_outcome accept_entry) (is_entry (authority_of l))"

abbreviation granted :: "publication_world \<Rightarrow> publication_admission_request \<Rightarrow> publication_lease \<Rightarrow> publication_call list \<Rightarrow> bool" where
  "granted w a l \<equiv> answered (grants w a (authority_of l)) is_admit"

abbreviation prior_recorded :: "publication_world \<Rightarrow> publication_lease \<Rightarrow> prior_selector \<Rightarrow> publication_call list \<Rightarrow> bool" where
  "prior_recorded w l p \<equiv>
     answered (accepted w parse_record_prior_outcome accept_prior) (\<lambda>c. is_prior (authority_of l) c \<and> records_prior p c)"

definition before_start ::
  "publication_world \<Rightarrow> publication_admission_request \<Rightarrow> publication_lease \<Rightarrow> nat \<Rightarrow> publication_state \<Rightarrow> bool" where
  "before_start w a l n s \<longleftrightarrow> trace_ok w a (st_calls s) \<and> granted w a l (st_calls s) \<and>
     list_all reversible_call (st_calls s) \<and> entries_accepted w l (st_calls s) = n \<and> st_risk s = Reversible \<and>
     st_cancellation s = Some \<lparr>ac_lease = l, ac_retained_host_guard = True, ac_armed = False\<rparr>"

lemma preparing_allowed:
  "preparing auth c \<Longrightarrow> answered (grants w a auth) is_admit prev \<Longrightarrow>
     allowed w a prev c \<and> reversible_call c \<and> \<not> is_entry b c"
  by (induction auth c rule: preparing.induct) (auto simp: allowed_def)

lemma before_start_extends:
  assumes "before_start w a l n s" and "extends (preparing (authority_of l)) s t"
  shows "before_start w a l n t"
proof -
  obtain ds where ds: "st_calls t = st_calls s @ ds" "list_all (preparing (authority_of l)) ds"
    using assms(2) by (auto simp: extends_def)
  have "trace_ok w a (st_calls s @ ds) \<and> granted w a l (st_calls s @ ds) \<and>
      list_all reversible_call (st_calls s @ ds) \<and> entries_accepted w l (st_calls s @ ds) = n"
    using ds(2)
  proof (induction ds rule: rev_induct)
    case (snoc c ds)
    then show ?case
      using preparing_allowed [of "authority_of l" c w a "st_calls s @ ds"]
      by (simp flip: append_assoc)
  qed (use assms(1) in \<open>simp add: before_start_def\<close>)
  then show ?thesis using assms ds(1) by (simp add: before_start_def extends_def)
qed

lemma prior_recorded_extends: "prior_recorded w l p (st_calls s) \<Longrightarrow> extends H s t \<Longrightarrow> prior_recorded w l p (st_calls t)"
  by (auto simp: extends_def answered_append)

lemma answered_mono: "answered P M cs \<Longrightarrow> (\<And>c. M c \<Longrightarrow> N c) \<Longrightarrow> answered P N cs"
  by (auto simp: answered_def list_ex_iff)

text \<open>A quiet part of a program, and one statement, under the invariant.\<close>

lemma wp_quiet_part:
  assumes "quiet (preparing (authority_of l)) m" and "before_start w a l n s"
    and "\<And>r t. extends (preparing (authority_of l)) s t \<Longrightarrow> before_start w a l n t \<Longrightarrow> Q r t"
  shows "wp m Q s"
  using assms(1) unfolding quiet_def
  by (rule allE [where x = s]) (auto elim!: wp_mono intro!: assms(3) before_start_extends [OF assms(2)])

lemma wp_statementI:
  assumes "\<And>e. request = Inl e \<Longrightarrow> Q (Fails e) s"
    and "\<And>q. request = Inr q \<Longrightarrow> Q Cancelled (s\<lparr>st_calls := st_calls s @ [CallSql q]\<rparr>)"
    and "\<And>q e. request = Inr q \<Longrightarrow> Q (Fails e) (s\<lparr>st_calls := st_calls s @ [CallSql q]\<rparr>)"
    and "\<And>q row x. request = Inr q \<Longrightarrow> port (st_calls s @ [CallSql q]) = Some row \<Longrightarrow> reply row = Inr x \<Longrightarrow>
      Q (Done x) (s\<lparr>st_calls := st_calls s @ [CallSql q]\<rparr>)"
  shows "wp (statement w g request port reply) Q s"
proof (cases request)
  case (Inl e)
  with assms(1) show ?thesis by (simp add: statement_def bind_lift_result wp_fail)
next
  case (Inr q)
  then show ?thesis
    using assms(2-4)
    by (simp add: statement_def bind_lift_result wp_bind call_async_def)
       (rule wp_async_callI; simp add: wp_lift_result ok_or_Inr)
qed

lemma record_entry_sql_Inr:
  "record_entry_sql l e = Inr q \<Longrightarrow>
     is_entry (authority_of l) (CallSql q) \<and> statement_authority (CallSql q) = Some (authority_of l) \<and>
     reversible_call (CallSql q) \<and> (\<forall>w prev. preceded w prev (CallSql q) =
       answered (accepted w parse_record_prior_outcome accept_prior) (is_prior (authority_of l)) prev)"
  by (auto simp: record_entry_sql_def and_then_Inr)

lemma before_start_entry:
  assumes "before_start w a l n s" and "prior_recorded w l p (st_calls s)" and "record_entry_sql l e = Inr q"
  shows "before_start w a l
      (n + (if accepted w parse_record_entry_outcome accept_entry (st_calls s @ [CallSql q]) then 1 else 0))
      (s\<lparr>st_calls := st_calls s @ [CallSql q]\<rparr>)"
proof -
  have "answered (accepted w parse_record_prior_outcome accept_prior) (is_prior (authority_of l)) (st_calls s)"
    using assms(2) by (rule answered_mono) simp
  then show ?thesis
    using assms(1) record_entry_sql_Inr [OF assms(3)] by (simp add: before_start_def allowed_def)
qed

lemma wp_record_row:
  assumes "before_start w a l n s" and "prior_recorded w l p (st_calls s)"
  shows "wp (record_row w l target e) (\<lambda>r t. prior_recorded w l p (st_calls t) \<and>
    (\<exists>n'. before_start w a l n' t \<and> (\<forall>x. r = Done x \<longrightarrow> n' = Suc n))) s"
    (is "wp _ ?Q s")
proof -
  have rest: "wp (bind_program (require_renewal w l PhaseStaging) (\<lambda>_. return x)) ?Q t"
    if "before_start w a l (Suc n) t" and "prior_recorded w l p (st_calls t)" for t and x :: "route_set_seal_evidence option"
    using that by (auto intro!: wp_quiet_part [OF _ that(1)] quiet_rules dest: prior_recorded_extends)
  have "wp (db_record_entry w l e) (continue_with (\<lambda>outcome. bind_program (lift_result (accept_entry outcome))
      (\<lambda>_. bind_program (require_renewal w l PhaseStaging) (\<lambda>_. return x))) ?Q) s" for x
    unfolding db_record_entry_def
  proof (rule wp_statementI)
    fix q row outcome
    assume q: "record_entry_sql l e = Inr q" "sq_text (w_sql w) (st_calls s @ [CallSql q]) = Some row"
      "parse_record_entry_outcome row = Inr outcome"
    let ?t = "s\<lparr>st_calls := st_calls s @ [CallSql q]\<rparr>"
    note step = before_start_entry [OF assms q(1)]
    have "prior_recorded w l p (st_calls ?t)" using assms(2) by simp
    moreover have "before_start w a l (Suc n) ?t" if "accept_entry outcome = Inr ()"
      using step q(2,3) that by (simp add: accepted_def)
    ultimately show "continue_with (\<lambda>outcome. bind_program (lift_result (accept_entry outcome))
        (\<lambda>_. bind_program (require_renewal w l PhaseStaging) (\<lambda>_. return x))) ?Q (Done outcome) ?t"
      using step rest [of ?t x] by (auto simp: bind_lift_result wp_fail split: sum.split)
  qed (use assms before_start_entry [OF assms] in \<open>auto\<close>)
  then show ?thesis
    using assms by (auto simp: record_row_def bind_require wp_bind wp_fail)
qed

lemma record_line_count:
  assumes "record_line s line = Inr t"
  shows "sl_route_count t = sl_route_count s"
proof (cases "sl_exhausted s")
  case True
  with assms have "t = s\<lparr>sl_manifest := sl_manifest s @ line\<rparr>" by (simp add: record_line_def)
  then show ?thesis by simp
next
  case False
  show ?thesis
  proof (cases "read_evidence_line (sl_reader s)")
    case (Inr x)
    then show ?thesis
      using assms False by (cases x; cases "fst x") (auto simp: record_line_def split: if_splits)
  qed (use assms False in \<open>simp add: record_line_def\<close>)
qed

lemma record_evidence_count:
  "record_evidence sha256_hex to_vec s e = Inr t \<Longrightarrow> sl_route_count t = Suc (sl_route_count s)"
  unfolding record_evidence_def and_then_Inr by (elim exE conjE) (drule record_line_count, auto)

lemma stage_present_count:
  "stage_present_with_baseline sha256_hex to_vec s workshop g d applied contents = Inr (e, t) \<Longrightarrow>
     sl_route_count t = Suc (sl_route_count s)"
  unfolding stage_present_with_baseline_def Let_def and_then_Inr
  by (elim exE conjE) (drule record_evidence_count, auto)

lemma stage_absent_count:
  "stage_absent_with_baseline sha256_hex to_vec s workshop g d applied = Inr (e, t) \<Longrightarrow>
     sl_route_count t = Suc (sl_route_count s)"
  unfolding stage_absent_with_baseline_def Let_def and_then_Inr
  by (elim exE conjE) (drule record_evidence_count, auto)

lemma stage_next_count:
  assumes "stage_next sha256_hex to_vec p sl = Inr (x, p', sl')"
  shows "sl_route_count sl' = sl_route_count sl + (if x = None then 0 else 1)"
  using assms unfolding stage_next_def Let_def
  by (auto simp: and_then_Inr map_err_Inr stage_present_def stage_absent_def
      dest!: stage_present_count stage_absent_count split: if_splits option.splits)

lemma stage_rows_unfold:
  "stage_rows w l p sl target =
     (case stage_next (lf_sha256_hex (w_lib w)) (lf_evidence_to_vec (w_lib w)) p sl of
        Inl e \<Rightarrow> fail e
      | Inr (None, p', sl') \<Rightarrow> return (p', sl', target)
      | Inr (Some e, p', sl') \<Rightarrow> bind_program (record_row w l target e) (stage_rows w l p' sl'))"
  by (rule ext, subst stage_rows.simps) (auto split: sum.split option.split)

lemma wp_stage_rows:
  assumes "before_start w a l (sl_route_count sl) s" and "prior_recorded w l p (st_calls s)"
  shows "wp (stage_rows w l prepared sl target) (\<lambda>r t. prior_recorded w l p (st_calls t) \<and>
    (\<exists>n. before_start w a l n t \<and> (\<forall>q sl' x. r = Done (q, sl', x) \<longrightarrow> n = sl_route_count sl'))) s"
    (is "wp _ ?Q s")
  using assms
proof (induction "length (ps_rows prepared) - ps_next_row prepared" arbitrary: prepared sl target s rule: less_induct)
  case less
  show ?case
  proof (cases "stage_next (lf_sha256_hex (w_lib w)) (lf_evidence_to_vec (w_lib w)) prepared sl")
    case (Inl e)
    with less.prems show ?thesis by (subst stage_rows_unfold) (auto simp: wp_fail)
  next
    case (Inr x)
    obtain e p' sl' where x: "x = (e, p', sl')" by (cases x)
    show ?thesis
    proof (cases e)
      case None
      with Inr x stage_next_count [of _ _ prepared sl e p' sl'] less.prems show ?thesis
        by (subst stage_rows_unfold) (auto simp: wp_return)
    next
      case (Some evidence)
      have shrink: "length (ps_rows p') - ps_next_row p' < length (ps_rows prepared) - ps_next_row prepared"
        using stage_next_Some [of _ _ prepared sl evidence p' sl'] Inr x Some by force
      have "sl_route_count sl' = Suc (sl_route_count sl)"
        using stage_next_count [of _ _ prepared sl e p' sl'] Inr x Some by force
      then have "continue_with (stage_rows w l p' sl') ?Q r t" if "prior_recorded w l p (st_calls t)"
          "before_start w a l n t" "\<forall>x. r = Done x \<longrightarrow> n = Suc (sl_route_count sl)" for r t n
        using less.hyps [OF shrink, of sl' t] that by (cases r) auto
      then have "wp (bind_program (record_row w l target evidence) (stage_rows w l p' sl')) ?Q s"
        unfolding wp_bind by (intro wp_mono [OF wp_record_row [OF less.prems]]) blast
      then show ?thesis using Inr x Some by (subst stage_rows_unfold) simp
    qed
  qed
qed

text \<open>The invariant carried along a sequence of quiet parts, with or without the recorded prior.\<close>

definition prepared_so_far ::
  "publication_world \<Rightarrow> publication_admission_request \<Rightarrow> publication_lease \<Rightarrow> prior_selector option \<Rightarrow> nat
     \<Rightarrow> publication_state \<Rightarrow> bool" where
  "prepared_so_far w a l p n s \<longleftrightarrow> before_start w a l n s \<and>
     (case p of None \<Rightarrow> True | Some p \<Rightarrow> prior_recorded w l p (st_calls s))"

lemma prepared_so_far_local [simp]:
  "prepared_so_far w a l p n (s\<lparr>st_prepared := x\<rparr>) = prepared_so_far w a l p n s"
  "prepared_so_far w a l p n (s\<lparr>st_sealed := y\<rparr>) = prepared_so_far w a l p n s"
  "prepared_so_far w a l p n (s\<lparr>st_phase := z\<rparr>) = prepared_so_far w a l p n s"
  by (simp_all add: prepared_so_far_def before_start_def split: option.splits)

lemma wp_bind_quiet:
  assumes "quiet (preparing (authority_of l)) m" and "prepared_so_far w a l p n s"
    and "\<And>x t. prepared_so_far w a l p n t \<Longrightarrow> wp (f x) Q t"
    and "\<And>t e. prepared_so_far w a l p n t \<Longrightarrow> Q (Fails e) t"
    and "\<And>t. prepared_so_far w a l p n t \<Longrightarrow> Q Cancelled t"
  shows "wp (bind_program m f) Q s"
  unfolding wp_bind
proof (rule wp_quiet_part [OF assms(1)])
  show "before_start w a l n s" using assms(2) by (simp add: prepared_so_far_def)
  fix r t assume "extends (preparing (authority_of l)) s t" "before_start w a l n t"
  then have "prepared_so_far w a l p n t"
    using assms(2) by (auto simp: prepared_so_far_def prior_recorded_extends split: option.splits)
  then show "continue_with f Q r t" using assms(3-5) by (cases r) auto
qed

lemma finish_sealer_count: "finish_sealer sha256_hex sl = Inr (i, n, m) \<Longrightarrow> n = sl_route_count sl"
  unfolding finish_sealer_def finish_seal_def and_then_Inr by auto

text \<open>What sealing leaves: the invariant, with as many recorded rows as the generation has.\<close>

definition sealed_rows ::
  "publication_world \<Rightarrow> publication_admission_request \<Rightarrow> publication_lease \<Rightarrow> prior_selector
     \<Rightarrow> (driver_error, sealed_route_set_generation \<times> route_set_seal_evidence option) outcome
     \<Rightarrow> publication_state \<Rightarrow> bool" where
  "sealed_rows w a l p r t \<longleftrightarrow> (\<exists>n. prepared_so_far w a l (Some p) n t \<and>
     (\<forall>g x. r = Done (g, x) \<longrightarrow> n = sg_route_count g))"

lemma wp_stage_and_seal:
  assumes "prepared_so_far w a l (Some p) 0 s"
  shows "wp (stage_and_seal w l) (sealed_rows w a l p) s"
proof -
  have rest: "wp (bind_program (require (is_complete q) (failure PhaseStaging)) (\<lambda>_.
     bind_program (lift_result (map_err (\<lambda>_. internal []) (finish_sealer (lf_sha256_hex (w_lib w)) sl)))
       (\<lambda>(identity, route_count, present_count).
     bind_program (call_sync (hp_finish_seal (w_host w)) (FsFinishSeal identity)) (\<lambda>(dev, ino).
       (let sealed = \<lparr>sg_name = generation_name (in_publication_id intent) (in_publication_kind intent),
            sg_identity = identity, sg_route_count = route_count, sg_present_route_count = present_count,
            sg_selector = \<lparr>sel_target = selector_target (in_publication_id intent) (in_publication_kind intent),
              sel_directory_dev = dev, sel_directory_ino = ino\<rparr>\<rparr>
        in bind_program (modify (\<lambda>s. s\<lparr>st_prepared := Some q, st_sealed := Some sealed\<rparr>)) (\<lambda>_.
          return (sealed, x))))))) (sealed_rows w a l p) t"
    if "prepared_so_far w a l (Some p) (sl_route_count sl) t" for q sl x intent t
  proof (cases "is_complete q \<and> is_ok (finish_sealer (lf_sha256_hex (w_lib w)) sl)")
    case True
    then obtain i m where "finish_sealer (lf_sha256_hex (w_lib w)) sl = Inr (i, sl_route_count sl, m)"
      by (auto simp: is_ok_iff dest: finish_sealer_count)
    with True show ?thesis
      unfolding Let_def
      by (simp add: bind_require bind_lift_result)
         (rule wp_bind_quiet [OF quiet_call_sync that]; auto simp: wp_rules sealed_rows_def)
  next
    case False
    then show ?thesis
      using that by (cases "finish_sealer (lf_sha256_hex (w_lib w)) sl")
        (auto simp: bind_require bind_lift_result wp_fail sealed_rows_def)
  qed
  have stage: "wp (bind_program (stage_rows w l q (begin_seal intent routes manifest) None) (\<lambda>(q, sl, x).
      bind_program (require (is_complete q) (failure PhaseStaging)) (\<lambda>_. f q sl x))) (sealed_rows w a l p) t"
    if "prepared_so_far w a l (Some p) 0 t"
      and "\<And>q sl x u. prepared_so_far w a l (Some p) (sl_route_count sl) u \<Longrightarrow>
        wp (bind_program (require (is_complete q) (failure PhaseStaging)) (\<lambda>_. f q sl x)) (sealed_rows w a l p) u"
    for q intent routes manifest t f
    unfolding wp_bind
  proof (rule wp_mono [OF wp_stage_rows])
    show "before_start w a l (sl_route_count (begin_seal intent routes manifest)) t"
        "prior_recorded w l p (st_calls t)"
      using that(1) by (simp_all add: prepared_so_far_def begin_seal_def)
    fix r :: "(driver_error, prepared_route_set \<times> sealer \<times> route_set_seal_evidence option) outcome" and u
    assume u: "prior_recorded w l p (st_calls u) \<and> (\<exists>n. before_start w a l n u \<and>
        (\<forall>q sl x. r = Done (q, sl, x) \<longrightarrow> n = sl_route_count sl))"
    then show "continue_with (\<lambda>(q, sl, x). bind_program (require (is_complete q) (failure PhaseStaging))
        (\<lambda>_. f q sl x)) (sealed_rows w a l p) r u"
      using that(2) by (cases r) (auto simp: prepared_so_far_def sealed_rows_def)
  qed
  have failed: "sealed_rows w a l p (Fails e) t" "sealed_rows w a l p Cancelled t"
    if "prepared_so_far w a l (Some p) n t" for e t n
    using that by (auto simp: sealed_rows_def)
  show ?thesis
    unfolding stage_and_seal_def
    by (intro wp_bind_quiet [OF quiet_take_prepared assms] wp_bind_quiet [OF quiet_generation_mut]
        wp_bind_quiet [OF quiet_call_sync]; (assumption | rule failed | clarsimp)+; (rule stage | rule rest | assumption)+)
qed

abbreviation seal_accepted :: "publication_world \<Rightarrow> publication_lease \<Rightarrow> str \<Rightarrow> publication_call list \<Rightarrow> bool" where
  "seal_accepted w l d \<equiv>
     answered (accepted w parse_seal_outcome accept_seal) (\<lambda>c. is_seal (authority_of l) c \<and> seals_digest d c)"

text \<open>What the reversible part leaves.\<close>

definition sealed_or_reversible ::
  "publication_world \<Rightarrow> publication_admission_request \<Rightarrow> publication_lease \<Rightarrow> prior_selector
     \<Rightarrow> (driver_error, sealed_route_set_generation \<times> route_set_seal_evidence) outcome
     \<Rightarrow> publication_state \<Rightarrow> bool" where
  "sealed_or_reversible w a l p r t \<longleftrightarrow> (\<exists>n. before_start w a l n t) \<and>
     (\<forall>g e. r = Done (g, e) \<longrightarrow> prior_recorded w l p (st_calls t) \<and>
       seal_accepted w l (id_route_set_digest (sg_identity g)) (st_calls t))"

lemma reversible_failed:
  "prepared_so_far w a l q n t \<Longrightarrow> sealed_or_reversible w a l p (Fails e) t"
  "prepared_so_far w a l q n t \<Longrightarrow> sealed_or_reversible w a l p Cancelled t"
  by (auto simp: sealed_or_reversible_def prepared_so_far_def)

lemma record_prior_sql_Inr:
  "record_prior_sql json_to_vec l p loaded = Inr q \<Longrightarrow>
     is_prior (authority_of l) (CallSql q) \<and> records_prior p (CallSql q) \<and> reversible_call (CallSql q) \<and>
     statement_authority (CallSql q) = Some (authority_of l) \<and> \<not> is_entry b (CallSql q) \<and>
     (\<forall>w prev. preceded w prev (CallSql q))"
  by (auto simp: record_prior_sql_def and_then_Inr pg_file_identity_Inr)

lemma seal_sql_Inr:
  assumes "seal_sql l g = Inr q"
  shows "is_seal (authority_of l) (CallSql q) \<and> seals_digest (id_route_set_digest (sg_identity g)) (CallSql q) \<and>
     reversible_call (CallSql q) \<and> statement_authority (CallSql q) = Some (authority_of l) \<and>
     \<not> is_entry b (CallSql q) \<and>
     (\<forall>w prev. preceded w prev (CallSql q) \<longleftrightarrow> sg_route_count g = entries_accepted w l prev)"
proof -
  have "unat (n :: i32) = m" if "pg_count m = Inr n" for m n
    using that by (auto simp: pg_count_def unat_of_nat take_bit_nat_eq_self split: if_splits)
  then show ?thesis
    using assms by (auto simp: seal_sql_def and_then_Inr)
qed

lemma wp_record_prior:
  assumes "prepared_so_far w a l None n s"
    and "\<And>t. prepared_so_far w a l (Some p) n t \<Longrightarrow> wp m (sealed_or_reversible w a l p) t"
  shows "wp (bind_program (db_record_prior w l p loaded) (\<lambda>outcome.
      bind_program (lift_result (accept_prior outcome)) (\<lambda>_. m))) (sealed_or_reversible w a l p) s"
proof -
  have step: "before_start w a l n (s\<lparr>st_calls := st_calls s @ [CallSql q]\<rparr>)"
    if "record_prior_sql (lf_json_to_vec (w_lib w)) l p loaded = Inr q" for q
    using assms(1) record_prior_sql_Inr [OF that]
    by (simp add: prepared_so_far_def before_start_def allowed_def)
  show ?thesis
    unfolding wp_bind db_record_prior_def
  proof (rule wp_statementI)
    fix q row outcome
    assume q: "record_prior_sql (lf_json_to_vec (w_lib w)) l p loaded = Inr q"
      "sq_text (w_sql w) (st_calls s @ [CallSql q]) = Some row" "parse_record_prior_outcome row = Inr outcome"
    have "prepared_so_far w a l (Some p) n (s\<lparr>st_calls := st_calls s @ [CallSql q]\<rparr>)"
      if "accept_prior outcome = Inr ()"
      using step [OF q(1)] record_prior_sql_Inr [OF q(1)] q(2,3) that
      by (simp add: prepared_so_far_def accepted_def)
    then show "continue_with (\<lambda>outcome. bind_program (lift_result (accept_prior outcome)) (\<lambda>_. m))
        (sealed_or_reversible w a l p) (Done outcome) (s\<lparr>st_calls := st_calls s @ [CallSql q]\<rparr>)"
      using step [OF q(1)] assms(2)
      by (auto simp: bind_lift_result wp_fail sealed_or_reversible_def split: sum.split)
  qed (use assms(1) step in \<open>auto simp: sealed_or_reversible_def prepared_so_far_def\<close>)
qed

lemma wp_seal:
  assumes "prepared_so_far w a l (Some p) (sg_route_count g) s"
  shows "wp (bind_program (db_seal w l g) (\<lambda>outcome.
      bind_program (lift_result (accept_seal outcome)) (\<lambda>_.
      bind_program (require_renewal w l PhaseSealing) (\<lambda>_. return (g, e))))) (sealed_or_reversible w a l p) s"
proof -
  let ?d = "id_route_set_digest (sg_identity g)"
  have step: "prepared_so_far w a l (Some p) (sg_route_count g) (s\<lparr>st_calls := st_calls s @ [CallSql q]\<rparr>)"
    if "seal_sql l g = Inr q" for q
    using assms seal_sql_Inr [OF that] by (simp add: prepared_so_far_def before_start_def allowed_def)
  have last: "wp (bind_program (require_renewal w l PhaseSealing) (\<lambda>_. return (g, e))) (sealed_or_reversible w a l p) t"
    if "prepared_so_far w a l (Some p) (sg_route_count g) t" "seal_accepted w l ?d (st_calls t)" for t
    unfolding wp_bind
  proof (rule wp_quiet_part)
    show "quiet (preparing (authority_of l)) (require_renewal w l PhaseSealing)" by (rule quiet_require_renewal) simp
    show "before_start w a l (sg_route_count g) t" using that(1) by (simp add: prepared_so_far_def)
    fix r u assume u: "extends (preparing (authority_of l)) t u" "before_start w a l (sg_route_count g) u"
    then have "seal_accepted w l ?d (st_calls u)" "prior_recorded w l p (st_calls u)"
      using that by (auto simp: extends_def answered_append prepared_so_far_def)
    with u show "continue_with (\<lambda>_. return (g, e)) (sealed_or_reversible w a l p) r u"
      by (cases r) (auto simp: wp_return sealed_or_reversible_def)
  qed
  show ?thesis
    unfolding wp_bind db_seal_def
  proof (rule wp_statementI)
    fix q row outcome
    assume q: "seal_sql l g = Inr q"
      "sq_text (w_sql w) (st_calls s @ [CallSql q]) = Some row" "parse_seal_outcome row = Inr outcome"
    have "seal_accepted w l ?d (st_calls s @ [CallSql q])" if "accept_seal outcome = Inr ()"
      using seal_sql_Inr [OF q(1)] q(2,3) that by (simp add: accepted_def)
    then show "continue_with (\<lambda>outcome. bind_program (lift_result (accept_seal outcome)) (\<lambda>_.
        bind_program (require_renewal w l PhaseSealing) (\<lambda>_. return (g, e))))
        (sealed_or_reversible w a l p) (Done outcome) (s\<lparr>st_calls := st_calls s @ [CallSql q]\<rparr>)"
      using step [OF q(1)] last by (auto simp: bind_lift_result wp_fail reversible_failed split: sum.split)
  qed (use assms step in \<open>auto intro: reversible_failed\<close>)
qed


lemma wp_until_sealed:
  assumes "prepared_so_far w a l None 0 s"
  shows "wp (coordinate_until_sealed w plan l preflight) (sealed_or_reversible w a l (fst preflight)) s"
proof -
  have seal: "wp (bind_program (stage_and_seal w l) (\<lambda>(sealed, target).
      bind_program (lift_result (ok_or target (failure PhaseStaging))) (\<lambda>target_evidence.
      bind_program (set_phase PhaseSealing) (\<lambda>_.
      bind_program (db_seal w l sealed) (\<lambda>outcome.
      bind_program (lift_result (accept_seal outcome)) (\<lambda>_.
      bind_program (require_renewal w l PhaseSealing) (\<lambda>_.
        return (sealed, target_evidence)))))))) (sealed_or_reversible w a l p) t"
    if "prepared_so_far w a l (Some p) 0 t" for p t
    unfolding wp_bind
  proof (rule wp_mono [OF wp_stage_and_seal [OF that]])
    fix r u assume u: "sealed_rows w a l p r u"
    show "continue_with (\<lambda>(sealed, target).
      bind_program (lift_result (ok_or target (failure PhaseStaging))) (\<lambda>target_evidence.
      bind_program (set_phase PhaseSealing) (\<lambda>_.
      bind_program (db_seal w l sealed) (\<lambda>outcome.
      bind_program (lift_result (accept_seal outcome)) (\<lambda>_.
      bind_program (require_renewal w l PhaseSealing) (\<lambda>_.
        return (sealed, target_evidence))))))) (sealed_or_reversible w a l p) r u"
    proof (cases r)
      case (Done x)
      obtain g e where x: "x = (g, e)" by (cases x)
      then have g: "prepared_so_far w a l (Some p) (sg_route_count g) u"
        using u Done by (auto simp: sealed_rows_def)
      show ?thesis
      proof (cases e)
        case (Some target)
        have "wp (bind_program (set_phase PhaseSealing) (\<lambda>_. bind_program (db_seal w l g) (\<lambda>outcome.
            bind_program (lift_result (accept_seal outcome)) (\<lambda>_.
            bind_program (require_renewal w l PhaseSealing) (\<lambda>_. return (g, target))))))
            (sealed_or_reversible w a l p) u"
          by (rule wp_bind_quiet [OF quiet_set_phase g]) (auto intro: wp_seal reversible_failed)
        then show ?thesis using Done x Some by (simp add: bind_lift_result)
      qed (use Done x g in \<open>simp add: bind_lift_result wp_fail reversible_failed\<close>)
    qed (use u in \<open>auto simp: sealed_rows_def intro: reversible_failed\<close>)
  qed
  show ?thesis
    unfolding coordinate_until_sealed_def
    by (intro wp_bind_quiet [OF quiet_require_renewal assms] wp_bind_quiet [OF quiet_set_phase]
        wp_bind_quiet [OF quiet_observe_bound_prior] wp_bind_quiet [OF quiet_require] wp_record_prior
        wp_bind_quiet [OF quiet_read_complete] wp_bind_quiet [OF quiet_freeze_context]
        wp_bind_quiet [OF quiet_fs_prepare] wp_bind_quiet [OF quiet_require_renewal]
        wp_bind_quiet [OF quiet_fs_begin]; (rule refl | rule reversible_failed | rule seal | assumption)+)
qed


section \<open>From the start on\<close>

definition after_start ::
  "publication_world \<Rightarrow> publication_admission_request \<Rightarrow> publication_lease \<Rightarrow> publication_state \<Rightarrow> bool" where
  "after_start w a l s \<longleftrightarrow> trace_ok w a (st_calls s) \<and> granted w a l (st_calls s) \<and>
     CallSql (SqlStart (authority_of l)) \<in> set (st_calls s) \<and> st_risk s = RiskStartAttempted \<and>
     st_cancellation s = Some \<lparr>ac_lease = l, ac_retained_host_guard = True, ac_armed = True\<rparr>"

abbreviation observe_accepted :: "publication_world \<Rightarrow> publication_lease \<Rightarrow> publication_call list \<Rightarrow> bool" where
  "observe_accepted w l \<equiv> answered (accepted w parse_observe_outcome accept_observe) (is_observe (authority_of l))"

definition observed_or_ambiguous ::
  "publication_world \<Rightarrow> publication_admission_request \<Rightarrow> publication_lease \<Rightarrow> sealed_route_set_generation
     \<Rightarrow> (driver_error, prior_selector) outcome \<Rightarrow> publication_state \<Rightarrow> bool" where
  "observed_or_ambiguous w a l g r t \<longleftrightarrow> after_start w a l t \<and>
     (\<forall>x. r = Done x \<longrightarrow> x = sg_selector g \<and> observe_accepted w l (st_calls t))"

lemma ambiguous_failed:
  "after_start w a l t \<Longrightarrow> observed_or_ambiguous w a l g (Fails e) t"
  "after_start w a l t \<Longrightarrow> observed_or_ambiguous w a l g Cancelled t"
  by (simp_all add: observed_or_ambiguous_def)

lemma after_start_call:
  assumes "after_start w a l s" and "allowed w a (st_calls s) c"
  shows "after_start w a l (s\<lparr>st_calls := st_calls s @ [c]\<rparr>)"
  using assms by (simp add: after_start_def)

lemma after_start_phase [simp]: "after_start w a l (s\<lparr>st_phase := p\<rparr>) = after_start w a l s"
  by (simp add: after_start_def)

lemma wp_bind_phase: "wp (bind_program (set_phase p) f) Q s = wp (f ()) Q (s\<lparr>st_phase := p\<rparr>)"
  by (simp add: set_phase_def wp_rules)

text \<open>One call after the start, for any postcondition that an ambiguous end satisfies.\<close>

lemma wp_bind_async_step:
  assumes "after_start w a l s" and "allowed w a (st_calls s) c"
    and "\<And>t e. after_start w a l t \<Longrightarrow> Q (Fails e) t" and "\<And>t. after_start w a l t \<Longrightarrow> Q Cancelled t"
    and "\<And>x t. after_start w a l t \<Longrightarrow> st_calls t = st_calls s @ [c] \<Longrightarrow> port (st_calls t) = Inr x \<Longrightarrow> wp (f x) Q t"
  shows "wp (bind_program (call_async w g port c) f) Q s"
  unfolding wp_bind call_async_def
  using after_start_call [OF assms(1,2)] assms(3-5) by (intro wp_async_callI) auto

lemma wp_bind_sync_step:
  assumes "after_start w a l s" and "allowed w a (st_calls s) c"
    and "\<And>t e. after_start w a l t \<Longrightarrow> Q (Fails e) t"
    and "\<And>x t. after_start w a l t \<Longrightarrow> st_calls t = st_calls s @ [c] \<Longrightarrow> port (st_calls t) = Inr x \<Longrightarrow> wp (f x) Q t"
  shows "wp (bind_program (call_sync port c) f) Q s"
  unfolding wp_bind call_sync_def wp_sync_call
  using after_start_call [OF assms(1,2)] assms(3-4) by auto

lemma wp_bind_statement_step:
  assumes "after_start w a l s" and "\<And>q. request = Inr q \<Longrightarrow> allowed w a (st_calls s) (CallSql q)"
    and "\<And>t e. after_start w a l t \<Longrightarrow> Q (Fails e) t" and "\<And>t. after_start w a l t \<Longrightarrow> Q Cancelled t"
    and "\<And>q row x t. after_start w a l t \<Longrightarrow> request = Inr q \<Longrightarrow> st_calls t = st_calls s @ [CallSql q] \<Longrightarrow>
      port (st_calls t) = Some row \<Longrightarrow> reply row = Inr x \<Longrightarrow> wp (f x) Q t"
  shows "wp (bind_program (statement w g request port reply) f) Q s"
  unfolding wp_bind
  by (rule wp_statementI) (use after_start_call [OF assms(1,2)] assms(1,3-5) in auto)

lemma wp_bind_generation_mut:
  assumes "after_start w a l s" and "\<And>t e. after_start w a l t \<Longrightarrow> Q (Fails e) t" and "\<And>x. wp (f x) Q s"
  shows "wp (bind_program generation_mut f) Q s"
  using assms by (simp add: wp_bind) (auto simp: wp_def generation_mut_def lift_result_def return_def fail_def split: sum.split)

lemma selector_eta [simp]:
  "\<lparr>sel_target = sel_target p, sel_directory_dev = sel_directory_dev p, sel_directory_ino = sel_directory_ino p\<rparr> = p"
  by simp

text \<open>Observation: what the runtime and the disk report is what is recorded.\<close>

lemma wp_observe:
  assumes "after_start w a l s"
    and "answered (\<lambda>cs. is_ok (hp_reload (w_host w) cs)) is_reload (st_calls s)"
  shows "wp (bind_program (call_async w True (hp_runtime_candidate (w_host w))
       (RuntimeObserveCandidate (sg_identity g))) (\<lambda>runtime_identity.
     bind_program (require (runtime_identity = sg_identity g) (failure PhaseObservation)) (\<lambda>_.
     bind_program (fs_observe_candidate w) (\<lambda>(observed, filesystem_identity).
     bind_program (require (observed = sg_selector g \<and> filesystem_identity = sg_identity g)
       (failure PhaseObservation)) (\<lambda>_.
     bind_program (db_observe w l observed filesystem_identity) (\<lambda>outcome.
     bind_program (lift_result (accept_observe outcome)) (\<lambda>_.
       return observed))))))) (observed_or_ambiguous w a l g) s"
proof (rule wp_bind_async_step [OF assms(1) _ ambiguous_failed(1,2)])
  show "allowed w a (st_calls s) (RuntimeObserveCandidate (sg_identity g))" by (simp add: allowed_def)
next
  fix i t
  assume t: "after_start w a l t" "st_calls t = st_calls s @ [RuntimeObserveCandidate (sg_identity g)]"
    "hp_runtime_candidate (w_host w) (st_calls t) = Inr i"
  have before: "answered (\<lambda>cs. is_ok (hp_reload (w_host w) cs)) is_reload (st_calls t)"
      "answered (candidate_running w (route_set_identity_json i)) is_runtime_candidate (st_calls t)"
    using assms(2) t(2,3) by (simp_all add: candidate_running_def)
  have recorded: "wp (bind_program (db_observe w l (sg_selector g) (sg_identity g)) (\<lambda>outcome.
      bind_program (lift_result (accept_observe outcome)) (\<lambda>_. return (sg_selector g))))
      (observed_or_ambiguous w a l g) u"
    if "i = sg_identity g" and u: "after_start w a l u" "st_calls u = st_calls t @ [FsObserveCandidate]"
      "hp_fs_candidate (w_host w) (st_calls u) = Inr (sg_selector g, sg_identity g)" for u
    unfolding db_observe_def
  proof (rule wp_bind_statement_step [OF u(1) _ ambiguous_failed(1,2)]; (assumption)?)
    fix q assume q: "observe_sql l (sg_selector g) (sg_identity g) = Inr q"
    then have "q = SqlObserve (authority_of l) (sel_target (sg_selector g)) (sel_directory_dev (sg_selector g))
        (sel_directory_ino (sg_selector g)) (route_set_identity_json (sg_identity g))"
      by (auto simp: observe_sql_def and_then_Inr pg_file_identity_Inr)
    moreover have "answered (candidate_running w (route_set_identity_json (sg_identity g))) is_runtime_candidate (st_calls u)"
      using before(2) that(1) u(2) by simp
    moreover have "answered (candidate_on_disk w (sg_selector g) (route_set_identity_json (sg_identity g)))
        (\<lambda>c. c = FsObserveCandidate) (st_calls u)"
      using u(2,3) by (simp add: candidate_on_disk_def)
    moreover have "answered (\<lambda>cs. is_ok (hp_reload (w_host w) cs)) is_reload (st_calls u)"
      using before(1) u(2) by simp
    ultimately show "allowed w a (st_calls u) (CallSql q)"
      using u(1) by (simp add: allowed_def after_start_def)
  next
    fix q row outcome v
    assume v: "after_start w a l v" "observe_sql l (sg_selector g) (sg_identity g) = Inr q"
      "st_calls v = st_calls u @ [CallSql q]" "sq_text (w_sql w) (st_calls v) = Some row"
      "parse_observe_outcome row = Inr outcome"
    have "is_observe (authority_of l) (CallSql q)"
      using v(2) by (auto simp: observe_sql_def and_then_Inr)
    then have "observe_accepted w l (st_calls v)" if "accept_observe outcome = Inr ()"
      using v(3-5) that by (simp add: accepted_def)
    then show "wp (bind_program (lift_result (accept_observe outcome)) (\<lambda>_. return (sg_selector g)))
        (observed_or_ambiguous w a l g) v"
      using v(1) by (auto simp: bind_lift_result wp_fail wp_return observed_or_ambiguous_def split: sum.split)
  qed
  show "wp (bind_program (require (i = sg_identity g) (failure PhaseObservation)) (\<lambda>_.
     bind_program (fs_observe_candidate w) (\<lambda>(observed, filesystem_identity).
     bind_program (require (observed = sg_selector g \<and> filesystem_identity = sg_identity g)
       (failure PhaseObservation)) (\<lambda>_.
     bind_program (db_observe w l observed filesystem_identity) (\<lambda>outcome.
     bind_program (lift_result (accept_observe outcome)) (\<lambda>_. return observed))))))
     (observed_or_ambiguous w a l g) t"
    unfolding bind_require fs_observe_candidate_def bind_program_assoc
    using t(1) recorded
    by (auto simp: wp_fail allowed_def intro!: ambiguous_failed wp_bind_generation_mut [OF t(1)]
        wp_bind_sync_step [OF t(1)])
qed


lemma wp_from_start:
  assumes "before_start w a l n s" and "lease_validate l = Inr ()" and "prior_recorded w l p (st_calls s)"
    and "seal_accepted w l (id_route_set_digest (sg_identity g)) (st_calls s)"
  shows "wp (coordinate_from_start w l p g) (observed_or_ambiguous w a l g) s"
proof -
  let ?d = "id_route_set_digest (sg_identity g)"
  let ?seal = "answered (accepted w parse_seal_outcome accept_seal)"
  let ?prior = "answered (accepted w parse_record_prior_outcome accept_prior) (records_prior p)"
  let ?observe = "bind_program (call_async w True (hp_runtime_candidate (w_host w))
       (RuntimeObserveCandidate (sg_identity g))) (\<lambda>runtime_identity.
     bind_program (require (runtime_identity = sg_identity g) (failure PhaseObservation)) (\<lambda>_.
     bind_program (fs_observe_candidate w) (\<lambda>(observed, filesystem_identity).
     bind_program (require (observed = sg_selector g \<and> filesystem_identity = sg_identity g)
       (failure PhaseObservation)) (\<lambda>_.
     bind_program (db_observe w l observed filesystem_identity) (\<lambda>outcome.
     bind_program (lift_result (accept_observe outcome)) (\<lambda>_.
       return observed))))))"
  let ?reload = "bind_program (call_async w True (hp_reload (w_host w)) (RuntimeReload ?d)) (\<lambda>_.
     bind_program (set_phase PhaseObservation) (\<lambda>_. ?observe))"
  let ?publish = "bind_program (set_phase PhasePublishing) (\<lambda>_. bind_program (fs_publish w p) (\<lambda>_.
     bind_program (set_phase PhaseRuntimeReload) (\<lambda>_. ?reload)))"
  have reload: "wp ?reload (observed_or_ambiguous w a l g) t"
    if t: "after_start w a l t" "answered (\<lambda>cs. is_ok (hp_publish (w_host w) cs)) is_publish (st_calls t)"
      "?seal (seals_digest ?d) (st_calls t)" for t
    by (rule wp_bind_async_step [OF t(1) _ ambiguous_failed(1,2)])
       (use t in \<open>auto simp: allowed_def wp_bind_phase intro!: wp_observe\<close>)
  have publish: "wp ?publish (observed_or_ambiguous w a l g) t"
    if t: "after_start w a l t" "answered (accepted w parse_start_outcome accept_start) is_start (st_calls t)"
      "?prior (st_calls t)" "?seal (seals_digest ?d) (st_calls t)" for t
    unfolding fs_publish_def bind_program_assoc wp_bind_phase
    by (rule wp_bind_generation_mut [where w = w and a = a and l = l];
        (rule wp_bind_sync_step [where w = w and a = a and l = l])?)
       (use t in \<open>auto simp: allowed_def wp_bind_phase wp_bind_require intro!: ambiguous_failed reload\<close>)
  let ?s = "s\<lparr>st_risk := RiskStartAttempted, st_cancellation := Some \<lparr>ac_lease = l,
     ac_retained_host_guard = True, ac_armed = True\<rparr>, st_phase := PhaseStartAttempted\<rparr>"
  have prior: "?prior (st_calls s)" and seal: "?seal (is_seal (authority_of l)) (st_calls s)"
      "?seal (seals_digest ?d) (st_calls s)"
    using assms(3,4) by (auto elim!: answered_mono)
  have sql: "start_sql l = Inr (SqlStart (authority_of l))"
    using assms(2) by (simp add: start_sql_def)
  have started: "after_start w a l (?s\<lparr>st_calls := st_calls s @ [CallSql (SqlStart (authority_of l))]\<rparr>)"
    using assms(1) seal(1) by (simp add: before_start_def after_start_def allowed_def)
  have "wp (bind_program (db_start w l) (\<lambda>outcome. bind_program (lift_result (accept_start outcome)) (\<lambda>_. ?publish)))
      (observed_or_ambiguous w a l g) ?s"
    unfolding db_start_def wp_bind
  proof (rule wp_statementI)
    fix q row outcome
    assume q: "start_sql l = Inr q" "sq_text (w_sql w) (st_calls ?s @ [CallSql q]) = Some row"
      "parse_start_outcome row = Inr outcome"
    let ?t = "?s\<lparr>st_calls := st_calls ?s @ [CallSql q]\<rparr>"
    have t: "after_start w a l ?t" using started q(1) sql by simp
    have "wp ?publish (observed_or_ambiguous w a l g) ?t" if "accept_start outcome = Inr ()"
      by (rule publish [OF t]) (use q sql that prior seal in \<open>auto simp: accepted_def\<close>)
    then show "continue_with (\<lambda>outcome. bind_program (lift_result (accept_start outcome)) (\<lambda>_. ?publish))
        (observed_or_ambiguous w a l g) (Done outcome) ?t"
      using t by (auto simp: bind_lift_result wp_fail ambiguous_failed split: sum.split)
  qed (use sql started in \<open>auto intro!: ambiguous_failed\<close>)
  then show ?thesis
    using assms(1)
    by (simp add: coordinate_from_start_def arm_def set_phase_def wp_rules before_start_def)
qed


section \<open>The whole coordinator\<close>

definition acquired_post ::
  "publication_world \<Rightarrow> publication_admission_request \<Rightarrow> publication_lease
     \<Rightarrow> (driver_error, observed_publication_evidence) outcome \<Rightarrow> publication_state \<Rightarrow> bool" where
  "acquired_post w a l r t \<longleftrightarrow>
     (case r of
        Done ev \<Rightarrow> after_start w a l t \<and> oe_observed ev = sg_selector (oe_sealed ev) \<and> observe_accepted w l (st_calls t)
      | _ \<Rightarrow> (\<exists>n. before_start w a l n t) \<or> after_start w a l t)"

lemma wp_coordinate_acquired:
  assumes "before_start w a l 0 s" and "lease_validate l = Inr ()"
  shows "wp (coordinate_acquired w plan l preflight) (acquired_post w a l) s"
  unfolding coordinate_acquired_def wp_bind
proof (rule wp_mono [OF wp_until_sealed])
  show "prepared_so_far w a l None 0 s" using assms(1) by (simp add: prepared_so_far_def)
  fix r t assume t: "sealed_or_reversible w a l (fst preflight) r t"
  show "continue_with (\<lambda>(sealed, target_evidence).
      bind_program (coordinate_from_start w l (fst preflight) sealed) (\<lambda>observed.
        return \<lparr>oe_prior = fst preflight, oe_sealed = sealed, oe_target_evidence = target_evidence,
                oe_observed = observed\<rparr>)) (acquired_post w a l) r t"
  proof (cases r)
    case (Done x)
    obtain g e where x: "x = (g, e)" by (cases x)
    obtain n where n: "before_start w a l n t" "prior_recorded w l (fst preflight) (st_calls t)"
        "seal_accepted w l (id_route_set_digest (sg_identity g)) (st_calls t)"
      using t Done x by (auto simp: sealed_or_reversible_def)
    have "continue_with (\<lambda>observed. return \<lparr>oe_prior = fst preflight, oe_sealed = g, oe_target_evidence = e,
        oe_observed = observed\<rparr>) (acquired_post w a l) q u" if "observed_or_ambiguous w a l g q u" for q u
      using that by (cases q) (auto simp: observed_or_ambiguous_def wp_return acquired_post_def)
    then show ?thesis
      using wp_mono [OF wp_from_start [OF n(1) assms(2) n(2,3)]] by (simp add: Done x wp_bind)
  qed (use t in \<open>auto simp: sealed_or_reversible_def acquired_post_def\<close>)
qed

lemma wp_heartbeat:
  assumes "wp m Q s" and "\<And>e. Q (Fails e) s"
  shows "wp (with_publication_heartbeat w m) Q s"
  using assms by (auto simp: wp_def with_publication_heartbeat_def split: option.split)

text \<open>How a run ends that does not return a receipt.\<close>

definition quarantined :: "publication_world \<Rightarrow> publication_lease \<Rightarrow> publication_call list \<Rightarrow> bool" where
  "quarantined w l = answered (\<lambda>cs. sq_flag (w_sql w) cs = Some True)
     (\<lambda>c. c = CallSql (SqlQuarantine (authority_of l) ''route_set_publication_outcome_unknown''))"

fun disarmed :: "armed_cancellation option \<Rightarrow> bool" where
  "disarmed None = True"
| "disarmed (Some c) = (\<not> (ac_armed c \<and> ac_retained_host_guard c))"

definition unresolved ::
  "publication_world \<Rightarrow> publication_admission_request \<Rightarrow> publication_lease \<Rightarrow> publication_state \<Rightarrow> bool" where
  "unresolved w a l t \<longleftrightarrow> (\<exists>n. before_start w a l n t) \<or> after_start w a l t \<or>
     trace_ok w a (st_calls t) \<and> granted w a l (st_calls t) \<and> CallSql (SqlStart (authority_of l)) \<in> set (st_calls t) \<and>
     quarantined w l (st_calls t) \<and> disarmed (st_cancellation t)"

definition admitted_post ::
  "publication_world \<Rightarrow> publication_admission_request \<Rightarrow> publication_lease
     \<Rightarrow> (driver_error, observed_publication_evidence) outcome \<Rightarrow> publication_state \<Rightarrow> bool" where
  "admitted_post w a l r t \<longleftrightarrow>
     (case r of
        Done ev \<Rightarrow> after_start w a l t \<and> oe_observed ev = sg_selector (oe_sealed ev) \<and> observe_accepted w l (st_calls t)
      | _ \<Rightarrow> unresolved w a l t)"

lemma quarantine_allowed: "after_start w a l s \<Longrightarrow> allowed w a (st_calls s) (CallSql (SqlQuarantine (authority_of l) r))"
  by (simp add: allowed_def after_start_def)

lemma wp_quarantine:
  assumes "after_start w a l s" and "lease_validate l = Inr ()"
  shows "wp (bind_program (attempt (db_quarantine w l)) (\<lambda>confirmed.
      bind_program (if confirmed = Inr True then disarm else return ()) (\<lambda>_. fail error))) (admitted_post w a l) s"
proof -
  have sql: "quarantine_sql l = Inr (SqlQuarantine (authority_of l) ''route_set_publication_outcome_unknown'')"
    using assms(2) by (simp add: quarantine_sql_def)
  note step = after_start_call [OF assms(1) quarantine_allowed [OF assms(1)]]
  show ?thesis
    unfolding wp_bind wp_attempt db_quarantine_def
  proof (rule wp_statementI)
    fix q row x
    assume q: "quarantine_sql l = Inr q" "sq_flag (w_sql w) (st_calls s @ [CallSql q]) = Some row" "Inr row = Inr x"
    let ?t = "s\<lparr>st_calls := st_calls s @ [CallSql q]\<rparr>"
    have "after_start w a l ?t" using step q(1) sql by auto
    moreover have "quarantined w l (st_calls ?t)" if x using q sql that by (auto simp: quarantined_def)
    ultimately show "continue_with (\<lambda>confirmed. bind_program (if confirmed = Inr True then disarm else return ())
        (\<lambda>_. fail error)) (admitted_post w a l) (attempted (Done x)) ?t"
      by (cases x) (auto simp: disarm_def wp_rules admitted_post_def unresolved_def after_start_def)
  qed (use sql step in \<open>auto simp: wp_rules admitted_post_def unresolved_def\<close>)
qed

lemma wp_coordinate_admitted:
  assumes "trace_ok w a (st_calls s)" and "granted w a l (st_calls s)" and "list_all reversible_call (st_calls s)"
    and "entries_accepted w l (st_calls s) = 0" and "lease_validate l = Inr ()"
  shows "wp (coordinate_admitted w plan l preflight) (admitted_post w a l) s"
proof -
  let ?s = "s\<lparr>st_cancellation := Some \<lparr>ac_lease = l, ac_retained_host_guard = True, ac_armed = False\<rparr>,
    st_risk := Reversible, st_phase := PhasePriorObservation\<rparr>"
  have start: "before_start w a l 0 ?s" using assms(1-4) by (simp add: before_start_def)
  have "wp (with_publication_heartbeat w (coordinate_acquired w plan l preflight)) (acquired_post w a l) ?s"
    using start by (intro wp_heartbeat wp_coordinate_acquired [OF start assms(5)]) (auto simp: acquired_post_def)
  moreover have "continue_with (\<lambda>result. case result of Inr evidence \<Rightarrow> return evidence
       | Inl error \<Rightarrow> (\<lambda>s. if st_risk s = RiskStartAttempted then
              bind_program (attempt (db_quarantine w l)) (\<lambda>confirmed.
              bind_program (if confirmed = Inr True then disarm else return ()) (\<lambda>_. fail error)) s
            else fail error s)) (admitted_post w a l) (attempted r) t" if "acquired_post w a l r t" for r t
  proof (cases r)
    case (Fails e)
    have "wp (\<lambda>s. if st_risk s = RiskStartAttempted then
              bind_program (attempt (db_quarantine w l)) (\<lambda>confirmed.
              bind_program (if confirmed = Inr True then disarm else return ()) (\<lambda>_. fail e)) s
            else fail e s) (admitted_post w a l) t"
      using that Fails wp_quarantine [OF _ assms(5), of w a t e]
      by (auto simp: acquired_post_def before_start_def after_start_def wp_def fail_def admitted_post_def unresolved_def)
    then show ?thesis using Fails by simp
  qed (use that in \<open>auto simp: acquired_post_def admitted_post_def unresolved_def wp_return\<close>)
  ultimately show ?thesis
    unfolding coordinate_admitted_def wp_bind wp_modify continue_with.simps wp_attempt by (rule wp_mono)
qed

text \<open>The calls up to and including admission.\<close>

fun admitting :: "publication_call \<Rightarrow> bool" where
  "admitting (CallSql (SqlReadResult _ _ _ _)) = True"
| "admitting (CallSql (SqlAdmit _ _ _ _ _ _ _ _ _ _ _ _)) = True"
| "admitting AcquireGuard = True"
| "admitting RetainGuard = True"
| "admitting FsObservePrior = True"
| "admitting (RuntimeObservePrior _) = True"
| "admitting _ = False"

lemma admitting_call: "admitting c \<Longrightarrow> allowed w a prev c \<and> reversible_call c \<and> \<not> is_entry auth c"
  by (induction c rule: admitting.induct) (auto simp: allowed_def)

lemma admitting_calls:
  assumes "list_all admitting cs"
  shows "trace_ok w a cs \<and> list_all reversible_call cs \<and> entries_accepted w l cs = 0"
  using assms by (induction cs rule: rev_induct) (auto simp: admitting_call)

lemma quiet_observe_admitting [quiet_rules]: "quiet admitting (observe_bound_prior w g)"
  unfolding observe_bound_prior_def fs_observe_prior_def runtime_observe_prior_def
  by (intro quiet_rules | (auto split: if_splits intro!: quiet_rules)[1])+

definition ended :: "publication_world \<Rightarrow> publication_admission_request \<Rightarrow> publication_call list \<Rightarrow> bool" where
  "ended w a cs \<longleftrightarrow> list_all reversible_call cs \<or>
     (\<exists>l. granted w a l cs \<and> CallSql (SqlStart (authority_of l)) \<in> set cs \<and>
       (quarantined w l cs \<or> last cs = ScheduleQuarantine l))"

lemma unresolved_dropped:
  assumes "unresolved w a l t"
  shows "trace_ok w a (st_calls (drop_cancellation t)) \<and> ended w a (st_calls (drop_cancellation t))"
proof -
  consider (before) n where "before_start w a l n t" | (after) "after_start w a l t"
    | (confirmed) "trace_ok w a (st_calls t)" "granted w a l (st_calls t)"
        "CallSql (SqlStart (authority_of l)) \<in> set (st_calls t)" "quarantined w l (st_calls t)"
        "disarmed (st_cancellation t)"
    using assms by (auto simp: unresolved_def)
  then show ?thesis
  proof cases
    case before
    then show ?thesis by (simp add: before_start_def drop_cancellation_def ended_def)
  next
    case after
    then show ?thesis
      by (auto simp: after_start_def drop_cancellation_def ended_def allowed_def intro!: exI [of _ l])
  next
    case confirmed
    then have "st_calls (drop_cancellation t) = st_calls t"
      by (auto simp: drop_cancellation_def split: option.split)
    with confirmed show ?thesis by (auto simp: ended_def)
  qed
qed

definition coordinated_post ::
  "publication_world \<Rightarrow> publication_admission_request
     \<Rightarrow> (driver_error, publication_lease \<times> observed_publication_evidence) outcome \<Rightarrow> publication_state \<Rightarrow> bool" where
  "coordinated_post w a r t \<longleftrightarrow>
     (case r of
        Done (l, ev) \<Rightarrow> after_start w a l t \<and> oe_observed ev = sg_selector (oe_sealed ev) \<and> observe_accepted w l (st_calls t)
      | _ \<Rightarrow> trace_ok w a (st_calls t) \<and> ended w a (st_calls t))"

lemma wp_dropped_unless_done:
  assumes "wp m (\<lambda>r t. case r of Done x \<Rightarrow> Q (Done x) t | Fails e \<Rightarrow> Q (Fails e) (drop_cancellation t)
    | Cancelled \<Rightarrow> Q Cancelled (drop_cancellation t)) s"
  shows "wp (dropped_unless_done m) Q s"
  using assms by (auto simp: wp_def dropped_unless_done_def split: prod.splits outcome.splits)

text \<open>Before admission nothing is held that a drop would act on.\<close>

definition not_admitted :: "publication_state \<Rightarrow> bool" where
  "not_admitted s \<longleftrightarrow> list_all admitting (st_calls s) \<and> st_cancellation s = None"

lemma not_admitted_extends: "not_admitted s \<Longrightarrow> extends admitting s t \<Longrightarrow> not_admitted t"
  by (auto simp: not_admitted_def extends_def)

lemma not_admitted_ended:
  assumes "not_admitted t"
  shows "trace_ok w a (st_calls (drop_cancellation t)) \<and> ended w a (st_calls (drop_cancellation t))"
  using assms admitting_calls [of "st_calls t" w a] by (simp add: not_admitted_def drop_cancellation_def ended_def)

abbreviation coordinating where
  "coordinating w a \<equiv> (\<lambda>r t. case r of Done x \<Rightarrow> coordinated_post w a (Done x) t
     | Fails e \<Rightarrow> coordinated_post w a (Fails e) (drop_cancellation t)
     | Cancelled \<Rightarrow> coordinated_post w a Cancelled (drop_cancellation t))"

lemma wp_bind_admitting:
  assumes "quiet admitting m" and "not_admitted s" and "\<And>x t. not_admitted t \<Longrightarrow> wp (f x) (coordinating w a) t"
  shows "wp (bind_program m f) (coordinating w a) s"
  unfolding wp_bind
proof (rule wp_mono)
  show "wp m (\<lambda>_ t. extends admitting s t) s" using assms(1) by (simp add: quiet_def)
  fix r t assume "extends admitting s t"
  then show "continue_with f (coordinating w a) r t"
    using assms(3) not_admitted_extends [OF assms(2), of t] not_admitted_ended [of t w a]
    by (cases r) (auto simp: coordinated_post_def)
qed

lemma wp_coordinate:
  assumes "not_admitted s"
  shows "wp (coordinate_route_set_publication w plan) (coordinated_post w (pp_admission plan)) s"
proof -
  let ?a = "pp_admission plan"
  have granted: "wp (bind_program (coordinate_admitted w plan l preflight) (\<lambda>evidence. return (l, evidence)))
      (coordinating w ?a) t"
    if "trace_ok w ?a (st_calls t)" "granted w ?a l (st_calls t)" "list_all reversible_call (st_calls t)"
      "entries_accepted w l (st_calls t) = 0" "lease_validate l = Inr ()" for l preflight t
    unfolding wp_bind
  proof (rule wp_mono [OF wp_coordinate_admitted [OF that]])
    fix r u assume u: "admitted_post w ?a l r u"
    then show "continue_with (\<lambda>evidence. return (l, evidence)) (coordinating w ?a) r u"
      using unresolved_dropped [of w ?a l u]
      by (cases r) (auto simp: admitted_post_def wp_return coordinated_post_def)
  qed
  have admit: "wp (bind_program (db_admit w ?a) (\<lambda>admission. case admission of
           AdmissionAcquired l \<Rightarrow>
             bind_program (coordinate_admitted w plan l preflight) (\<lambda>evidence. return (l, evidence))
         | AdmissionReplay _ \<Rightarrow> fail (failure PhaseAdmission)
         | AdmissionRefused _ \<Rightarrow> fail (failure PhaseAdmission))) (coordinating w ?a) t"
      (is "wp (bind_program _ ?k) _ _")
    if t: "not_admitted t" for preflight t
    unfolding wp_bind db_admit_def
  proof (rule wp_statementI)
    fix q row admission
    assume q: "admit_sql ?a = Inr q" "sq_admission (w_sql w) (st_calls t @ [CallSql q]) = Some row"
      "admit_reply ?a row = Inr admission"
    let ?t = "t\<lparr>st_calls := st_calls t @ [CallSql q]\<rparr>"
    have adm: "admitting (CallSql q)" "is_admit (CallSql q)"
      using q(1) by (auto simp: admit_sql_def and_then_Inr)
    then have na: "not_admitted ?t" using t by (simp add: not_admitted_def)
    show "continue_with ?k (coordinating w ?a) (Done admission) ?t"
    proof (cases admission)
      case (AdmissionAcquired l)
      have "granted w ?a l (st_calls ?t)"
        using q(2,3) adm(2) AdmissionAcquired by (simp add: grants_def)
      then show ?thesis
        using granted [of ?t l preflight] admitting_calls [of "st_calls ?t" w ?a l] na
          admitted_lease(1) [OF q(3) [unfolded AdmissionAcquired]] AdmissionAcquired
        by (simp add: not_admitted_def)
    qed (use not_admitted_ended [OF na] in \<open>simp_all add: wp_fail coordinated_post_def\<close>)
  next
    fix q assume "admit_sql ?a = Inr q"
    then have "not_admitted (t\<lparr>st_calls := st_calls t @ [CallSql q]\<rparr>)"
      using t by (auto simp: not_admitted_def admit_sql_def and_then_Inr)
    note ended = not_admitted_ended [OF this]
    show "continue_with ?k (coordinating w ?a) Cancelled
        (t\<lparr>st_calls := st_calls t @ [CallSql q]\<rparr>)"
      using ended by (simp add: coordinated_post_def)
    show "continue_with ?k (coordinating w ?a) (Fails e)
        (t\<lparr>st_calls := st_calls t @ [CallSql q]\<rparr>)" for e
      using ended by (simp add: coordinated_post_def)
  qed (use not_admitted_ended [OF t] in \<open>simp add: coordinated_post_def\<close>)
  show ?thesis
    unfolding coordinate_route_set_publication_def
    by (intro wp_dropped_unless_done wp_bind_admitting [OF quiet_require assms]
        wp_bind_admitting [OF quiet_call_async] wp_bind_admitting [OF quiet_call_sync]
        wp_bind_admitting [OF quiet_observe_admitting]; (assumption | rule admit | simp)+)
qed



section \<open>Finalisation and the whole run\<close>

text \<open>The read of a completed result, and the finish, that return a response.\<close>

definition read_confirms ::
  "publication_world \<Rightarrow> publication_admission_request \<Rightarrow> publication_response \<Rightarrow> publication_call list \<Rightarrow> bool" where
  "read_confirms w a response cs =
     (case sq_result (w_sql w) cs of
        None \<Rightarrow> False
      | Some row \<Rightarrow>
          (case parse_publication_result_row (lf_parse_uuid (w_lib w)) (from_admission a) row of
             Inr (ResultCompleted _ _ r) \<Rightarrow> r = response
           | _ \<Rightarrow> False))"

definition finish_confirms ::
  "publication_world \<Rightarrow> publication_lease \<Rightarrow> sealed_route_set_generation \<Rightarrow> route_set_seal_evidence
     \<Rightarrow> publication_response \<Rightarrow> publication_call list \<Rightarrow> bool" where
  "finish_confirms w l g e response cs =
     (case sq_finish (w_sql w) cs of
        None \<Rightarrow> False
      | Some row \<Rightarrow> finish_reply (lf_parse_uuid (w_lib w)) l g e row \<in> {Inr (FinishCompleted response), Inr (FinishReplay response)})"

definition finished ::
  "publication_world \<Rightarrow> publication_admission_request \<Rightarrow> publication_lease \<Rightarrow> sealed_route_set_generation
     \<Rightarrow> route_set_seal_evidence \<Rightarrow> publication_response \<Rightarrow> publication_call list \<Rightarrow> bool" where
  "finished w a l g e response cs \<longleftrightarrow> granted w a l cs \<and> response = publication_receipt l g e \<and>
     answered (finish_confirms w l g e response) (\<lambda>c. c = CallSql (SqlFinish (authority_of l))) cs \<and>
     answered (\<lambda>cs. hp_runtime_candidate (w_host w) cs = Inr (sg_identity g)) is_runtime_candidate cs \<and>
     answered (\<lambda>cs. hp_fs_candidate (w_host w) cs = Inr (sg_selector g, sg_identity g)) (\<lambda>c. c = FsObserveCandidate) cs"

definition confirmed ::
  "publication_world \<Rightarrow> publication_admission_request \<Rightarrow> publication_response \<Rightarrow> publication_call list \<Rightarrow> bool" where
  "confirmed w a response cs \<longleftrightarrow> answered (read_confirms w a response) is_read_result cs \<or>
     (\<exists>l g e. finished w a l g e response cs)"

definition finished_or_ambiguous ::
  "publication_world \<Rightarrow> publication_admission_request \<Rightarrow> publication_lease
     \<Rightarrow> (driver_error, publication_response) outcome \<Rightarrow> publication_state \<Rightarrow> bool" where
  "finished_or_ambiguous w a l r t \<longleftrightarrow> after_start w a l t \<and> (\<forall>x. r = Done x \<longrightarrow> confirmed w a x (st_calls t))"

lemma unfinished:
  "after_start w a l t \<Longrightarrow> finished_or_ambiguous w a l (Fails e) t"
  "after_start w a l t \<Longrightarrow> finished_or_ambiguous w a l Cancelled t"
  by (simp_all add: finished_or_ambiguous_def)

lemma finish_reply_receipt:
  assumes "finish_reply parse_uuid l g e row \<in> {Inr (FinishCompleted r), Inr (FinishReplay r)}"
  shows "r = publication_receipt l g e"
proof -
  obtain outcome response where row: "row = (outcome, response)" by (cases row)
  have "validate_publication_response_for_lease r l g e = Inr ()"
  proof (cases "outcome = ''completed'' \<or> outcome = ''replay''")
    case True
    with assms row show ?thesis by (auto simp: finish_reply_def and_then_Inr split: if_splits)
  next
    case False
    with assms row show ?thesis by (simp add: finish_reply_def split: if_splits)
  qed
  then show ?thesis by (rule receipt_unique)
qed

lemma wp_finish_observed:
  assumes "after_start w a l s" and "observe_accepted w l (st_calls s)"
  shows "wp (finish_observed w l ev) (finished_or_ambiguous w a l) s"
proof -
  let ?g = "oe_sealed ev"
  let ?e = "oe_target_evidence ev"
  let ?running = "answered (\<lambda>cs. hp_runtime_candidate (w_host w) cs = Inr (sg_identity ?g)) is_runtime_candidate"
  let ?disk = "answered (\<lambda>cs. hp_fs_candidate (w_host w) cs = Inr (sg_selector ?g, sg_identity ?g)) (\<lambda>c. c = FsObserveCandidate)"
  have finish: "wp (bind_program (db_finish w l ?g ?e) (\<lambda>outcome. case outcome of
         FinishCompleted response \<Rightarrow> return response
       | FinishReplay response \<Rightarrow> return response
       | _ \<Rightarrow> fail (failure PhaseFinalization))) (finished_or_ambiguous w a l) t"
    if t: "after_start w a l t" "observe_accepted w l (st_calls t)" "?running (st_calls t)" "?disk (st_calls t)" for t
    unfolding db_finish_def
  proof (rule wp_bind_statement_step [OF t(1) _ unfinished(1,2)])
    fix q assume "finish_sql l ?g ?e = Inr q"
    then show "allowed w a (st_calls t) (CallSql q)"
      using t(1,2) by (auto simp: finish_sql_def and_then_Inr allowed_def after_start_def)
  next
    fix q row outcome u
    assume u: "after_start w a l u" "finish_sql l ?g ?e = Inr q" "st_calls u = st_calls t @ [CallSql q]"
      "sq_finish (w_sql w) (st_calls u) = Some row" "finish_reply (lf_parse_uuid (w_lib w)) l ?g ?e row = Inr outcome"
    have q: "q = SqlFinish (authority_of l)" using u(2) by (auto simp: finish_sql_def and_then_Inr)
    have "finished w a l ?g ?e r (st_calls u)" if "outcome = FinishCompleted r \<or> outcome = FinishReplay r" for r
      using u t(3,4) q that finish_reply_receipt [of _ l ?g ?e row r]
      by (auto simp: finished_def finish_confirms_def after_start_def)
    then show "wp (case outcome of FinishCompleted response \<Rightarrow> return response
        | FinishReplay response \<Rightarrow> return response | _ \<Rightarrow> fail (failure PhaseFinalization))
        (finished_or_ambiguous w a l) u"
      using u(1) by (cases outcome) (auto simp: wp_return wp_fail finished_or_ambiguous_def confirmed_def)
  qed
  have disk: "wp (bind_program (fs_observe_candidate w) (\<lambda>(selected, filesystem_identity).
     bind_program (require (selected = oe_observed ev \<and> selected = sg_selector ?g \<and>
         filesystem_identity = sg_identity ?g) (failure PhaseFinalization)) (\<lambda>_.
     bind_program (db_finish w l ?g ?e) (\<lambda>outcome. case outcome of
         FinishCompleted response \<Rightarrow> return response
       | FinishReplay response \<Rightarrow> return response
       | _ \<Rightarrow> fail (failure PhaseFinalization))))) (finished_or_ambiguous w a l) t"
    if t: "after_start w a l t" "observe_accepted w l (st_calls t)" "?running (st_calls t)" for t
    unfolding fs_observe_candidate_def bind_program_assoc
    by (rule wp_bind_generation_mut [OF t(1)], erule unfinished(1), rule wp_bind_sync_step [OF t(1)])
       (use t in \<open>auto simp: allowed_def wp_bind_require intro!: finish unfinished\<close>)
  show ?thesis
    unfolding finish_observed_def
  proof (subst wp_bind_require, intro conjI impI, goal_cases)
    case 1
    show ?case
      by (rule wp_bind_async_step [OF assms(1)])
         (use assms in \<open>auto simp: allowed_def wp_bind_require intro!: unfinished disk\<close>)
  qed (rule unfinished(1) [OF assms(1)])
qed

text \<open>The postcondition of a run.\<close>

definition run_post ::
  "publication_world \<Rightarrow> publication_admission_request \<Rightarrow> (driver_error, publication_response) outcome
     \<Rightarrow> publication_state \<Rightarrow> bool" where
  "run_post w a r t \<longleftrightarrow> trace_ok w a (st_calls t) \<and>
     (case r of Done response \<Rightarrow> confirmed w a response (st_calls t) | _ \<Rightarrow> ended w a (st_calls t))"

lemma wp_dropped_after: "wp m (\<lambda>r t. Q r (drop_cancellation t)) s \<Longrightarrow> wp (dropped_after m) Q s"
  by (simp add: wp_def dropped_after_def split_beta)

lemma ambiguous_dropped:
  assumes "after_start w a l t"
  shows "run_post w a (Fails e) (drop_cancellation t)" "run_post w a Cancelled (drop_cancellation t)"
  using unresolved_dropped [of w a l t] assms by (simp_all add: run_post_def unresolved_def)

lemma wp_disarmed:
  assumes "after_start w a l t" and "confirmed w a x (st_calls t)"
  shows "wp (bind_program disarm (\<lambda>_. return x)) (\<lambda>r t. run_post w a r (drop_cancellation t)) t"
  using assms by (simp add: disarm_def wp_rules run_post_def after_start_def drop_cancellation_def)

lemma read_result_sql_Inr: "read_result_sql r = Inr q \<Longrightarrow> is_read_result (CallSql q) \<and> admitting (CallSql q)"
  by (auto simp: read_result_sql_def and_then_Inr)

lemma confirmed_by_read:
  assumes "read_result_sql r = Inr q" and "sq_result (w_sql w) (cs @ [CallSql q]) = Some row"
    and "parse_publication_result_row (lf_parse_uuid (w_lib w)) (from_admission a) row = Inr (ResultCompleted i j x)"
  shows "confirmed w a x (cs @ [CallSql q])"
  using assms read_result_sql_Inr [OF assms(1)] by (simp add: confirmed_def read_confirms_def)

lemma wp_finalize:
  assumes "after_start w a l s" and "observe_accepted w l (st_calls s)"
  shows "wp (finalize w (from_admission a) l ev) (run_post w a) s"
proof -
  let ?Q = "\<lambda>r t. run_post w a r (drop_cancellation t)"
  have reread: "wp (bind_program (attempt (db_read_result w (from_admission a))) (\<lambda>read. case read of
      Inr (ResultCompleted _ _ response) \<Rightarrow> bind_program disarm (\<lambda>_. return response) | _ \<Rightarrow> fail source)) ?Q t"
      (is "wp (bind_program _ ?k) _ _")
    if t: "after_start w a l t" for t source
    unfolding wp_bind wp_attempt db_read_result_def
  proof (rule wp_statementI)
    fix q row x
    assume q: "read_result_sql (from_admission a) = Inr q" "sq_result (w_sql w) (st_calls t @ [CallSql q]) = Some row"
      "parse_publication_result_row (lf_parse_uuid (w_lib w)) (from_admission a) row = Inr x"
    have u: "after_start w a l (t\<lparr>st_calls := st_calls t @ [CallSql q]\<rparr>)"
      using after_start_call [OF t] admitting_call read_result_sql_Inr [OF q(1)] by blast
    show "continue_with ?k ?Q (attempted (Done x)) (t\<lparr>st_calls := st_calls t @ [CallSql q]\<rparr>)"
    proof (cases x)
      case (ResultCompleted i j r)
      then show ?thesis using wp_disarmed [OF u] confirmed_by_read [OF q(1,2)] q(3) by simp
    qed (use ambiguous_dropped [OF u] in \<open>simp_all add: wp_fail\<close>)
  next
    fix q assume q: "read_result_sql (from_admission a) = Inr q"
    have u: "after_start w a l (t\<lparr>st_calls := st_calls t @ [CallSql q]\<rparr>)"
      using after_start_call [OF t] admitting_call read_result_sql_Inr [OF q] by blast
    show "continue_with ?k ?Q (attempted Cancelled) (t\<lparr>st_calls := st_calls t @ [CallSql q]\<rparr>)"
      using ambiguous_dropped [OF u] by simp
    show "continue_with ?k ?Q (attempted (Fails e)) (t\<lparr>st_calls := st_calls t @ [CallSql q]\<rparr>)" for e
      using ambiguous_dropped [OF u] by (simp add: wp_fail)
  qed (use ambiguous_dropped [OF t] in \<open>simp add: wp_fail\<close>)
  have "wp (with_publication_heartbeat w (finish_observed w l ev)) (finished_or_ambiguous w a l) s"
    by (intro wp_heartbeat wp_finish_observed [OF assms] unfinished(1) [OF assms(1)])
  moreover have "continue_with (\<lambda>result. case result of
        Inr response \<Rightarrow> bind_program disarm (\<lambda>_. return response)
      | Inl source \<Rightarrow> bind_program (attempt (db_read_result w (from_admission a))) (\<lambda>read. case read of
          Inr (ResultCompleted _ _ response) \<Rightarrow> bind_program disarm (\<lambda>_. return response) | _ \<Rightarrow> fail source))
      ?Q (attempted r) t" if "finished_or_ambiguous w a l r t" for r t
    using that reread [of t] wp_disarmed [of w a l t] ambiguous_dropped(2) [of w a l t]
    by (cases r) (auto simp: finished_or_ambiguous_def)
  ultimately show ?thesis
    unfolding finalize_def by (intro wp_dropped_after) (unfold wp_bind wp_attempt, rule wp_mono)
qed


lemma wp_execute: "wp (execute_route_set_with_ports w a) (run_post w a) initial_publication_state"
proof -
  have start: "not_admitted initial_publication_state"
    by (simp add: not_admitted_def initial_publication_state_def)
  have idle: "run_post w a (Fails e) t" "run_post w a Cancelled t" if "not_admitted t" for t e
    using not_admitted_ended [OF that, of w a] that
    by (simp_all add: run_post_def not_admitted_def drop_cancellation_def)
  have coordinated: "wp (bind_program (coordinate_route_set_publication w (plan_new a)) (\<lambda>(l, evidence).
      finalize w (from_admission a) l evidence)) (run_post w a) t" if "not_admitted t" for t
    unfolding wp_bind
  proof (rule wp_mono [OF wp_coordinate [OF that]])
    fix r u assume u: "coordinated_post w (pp_admission (plan_new a)) r u"
    show "continue_with (\<lambda>(l, evidence). finalize w (from_admission a) l evidence) (run_post w a) r u"
    proof (cases r)
      case (Done x)
      then show ?thesis using u by (cases x) (auto simp: coordinated_post_def plan_new_def intro: wp_finalize)
    qed (use u in \<open>simp_all add: coordinated_post_def plan_new_def run_post_def\<close>)
  qed
  show ?thesis
    unfolding execute_route_set_with_ports_def wp_bind db_read_result_def
  proof (rule wp_statementI)
    fix q row x
    assume q: "read_result_sql (from_admission a) = Inr q"
      "sq_result (w_sql w) (st_calls initial_publication_state @ [CallSql q]) = Some row"
      "parse_publication_result_row (lf_parse_uuid (w_lib w)) (from_admission a) row = Inr x"
    let ?t = "initial_publication_state\<lparr>st_calls := st_calls initial_publication_state @ [CallSql q]\<rparr>"
    have t: "not_admitted ?t"
      using start read_result_sql_Inr [OF q(1)] by (simp add: not_admitted_def)
    then have "trace_ok w a (st_calls ?t)"
      using admitting_calls [of "st_calls ?t"] unfolding not_admitted_def by blast
    with t show "continue_with (\<lambda>result. case result of
         ResultCompleted _ _ response \<Rightarrow> return response
       | ResultAbsent \<Rightarrow> bind_program (coordinate_route_set_publication w (plan_new a)) (\<lambda>(l, evidence).
             finalize w (from_admission a) l evidence)
       | _ \<Rightarrow> fail (failure PhaseAdmission)) (run_post w a) (Done x) ?t"
      using confirmed_by_read [OF q(1,2)] q(3) coordinated [OF t] idle [OF t]
      by (cases x) (simp_all add: wp_return wp_fail run_post_def)
  next
    fix q assume q: "read_result_sql (from_admission a) = Inr q"
    then have t: "not_admitted (initial_publication_state\<lparr>st_calls := st_calls initial_publication_state @ [CallSql q]\<rparr>)"
      using start read_result_sql_Inr [OF q(1)] by (simp add: not_admitted_def)
    note idle = idle [OF t]
    show "continue_with f (run_post w a) Cancelled
        (initial_publication_state\<lparr>st_calls := st_calls initial_publication_state @ [CallSql q]\<rparr>)" for f
      using idle by simp
    show "continue_with f (run_post w a) (Fails e)
        (initial_publication_state\<lparr>st_calls := st_calls initial_publication_state @ [CallSql q]\<rparr>)" for e f
      using idle by simp
  qed (use idle [OF start] in simp)
qed

text \<open>
  C1. The irreversible steps come in order. In every run, whatever the database, the host and the
  gateway answer and wherever the task is interrupted, every call respects the protocol: each lease
  statement carries the authority that admission granted in this run; the seal names as many rows
  as were durably recorded; the start follows an accepted seal; the selector is exchanged only
  after an accepted start and only against the prior that was durably recorded; the gateway is
  reloaded only after that exchange and with the sealed digest; the observation that is recorded is
  the one the gateway and the disk reported after the reload; the finish follows its acceptance; and
  nothing is quarantined that was not started.
\<close>

theorem publication_calls_ordered:
  "trace_ok w a (st_calls (snd (execute_route_set_with_ports w a initial_publication_state)))"
  using wp_execute [of w a] by (simp add: wp_def run_post_def)

text \<open>
  C4. A run that does not return a receipt leaves nothing ambiguous behind. Either none of its calls
  was irreversible - the publication was never started, no selector was exchanged and no gateway
  reloaded - or the publication it started is quarantined: the database confirmed the quarantine, or
  the last thing the run did was to hand the lease and the host guard to the cleanup task.
\<close>

theorem unfinished_publication_settled:
  "case execute_route_set_with_ports w a initial_publication_state of
     (Done _, t) \<Rightarrow> True
   | (_, t) \<Rightarrow> list_all reversible_call (st_calls t) \<or>
       (\<exists>l. granted w a l (st_calls t) \<and> CallSql (SqlStart (authority_of l)) \<in> set (st_calls t) \<and>
         (quarantined w l (st_calls t) \<or> last (st_calls t) = ScheduleQuarantine l))"
  using wp_execute [of w a]
  by (auto simp: wp_def run_post_def ended_def split: prod.split outcome.split)

text \<open>
  C11. A returned receipt is durable and true. When a run returns a response, then either the database
  reported a completed result with exactly this response for this request, or the response is the
  receipt of the lease granted in this run, of a generation the run sealed, answered to the finish
  statement after both the running gateway and the selected directory had reported that generation.
\<close>

theorem returned_receipt_confirmed:
  "case execute_route_set_with_ports w a initial_publication_state of
     (Done response, t) \<Rightarrow> confirmed w a response (st_calls t)
   | _ \<Rightarrow> True"
  using wp_execute [of w a] by (auto simp: wp_def run_post_def split: prod.split outcome.split)


section \<open>Reading the snapshot\<close>

lemma ascending_append:
  "ascending p (xs @ ys) \<longleftrightarrow> ascending p xs \<and> ascending (if xs = [] then p else Some (last xs)) ys"
  by (induction xs arbitrary: p) auto

definition snapshot_post ::
  "publication_lease \<Rightarrow> nat \<Rightarrow> (driver_error, db_snapshot_item list) outcome \<Rightarrow> publication_state \<Rightarrow> bool" where
  "snapshot_post l n r t \<longleftrightarrow> length (st_calls t) \<le> n \<and>
     (\<forall>items. r = Done items \<longrightarrow> length items = pl_snapshot_count l \<and>
       ascending None (map ds_workshop_id items) \<and> list_all (item_bound l) items)"

lemma snapshot_post_failed:
  "length (st_calls t) \<le> n \<Longrightarrow> snapshot_post l n (Fails e) t"
  "length (st_calls t) \<le> n \<Longrightarrow> snapshot_post l n Cancelled t"
  by (simp_all add: snapshot_post_def)

lemma wp_read_snapshot:
  "wp (db_read_snapshot w l after limit) (\<lambda>r t. length (st_calls t) \<le> Suc (length (st_calls s)) \<and>
     (\<forall>items. r = Done items \<longrightarrow> list_all (item_bound l) items)) s"
  unfolding db_read_snapshot_def
  by (rule wp_statementI)
     (auto simp: validate_snapshot_rows_def and_then_Inr list_all_iff dest!: validate_snapshot_loop_Inr)

lemma wp_renewal_calls: "wp (require_renewal w l phase) (\<lambda>r t. length (st_calls t) \<le> Suc (length (st_calls s))) s"
  unfolding require_renewal_def db_renew_def wp_bind by (rule wp_statementI) (auto simp: wp_rules)

lemma wp_snapshot_loop:
  assumes "length snapshot \<le> pl_snapshot_count l" and "ascending None (map ds_workshop_id snapshot)"
    and "list_all (item_bound l) snapshot" and "after = next_after None snapshot"
    and "length (st_calls s) + 2 * (pl_snapshot_count l - length snapshot) \<le> n"
  shows "wp (read_snapshot_loop w l b snapshot after) (snapshot_post l n) s"
  using assms
proof (induction "pl_snapshot_count l - length snapshot" arbitrary: snapshot after s rule: less_induct)
  case less
  let ?k = "\<lambda>batch. if \<not> (batch = [] \<or> length batch > min b (pl_snapshot_count l - length snapshot) \<or>
      length batch > pl_snapshot_count l - length snapshot)
    then (if ascending after (map ds_workshop_id batch)
      then read_snapshot_loop w l b (snapshot @ batch) (next_after after batch)
      else fail (failure PhaseSnapshotRead))
    else fail (failure PhaseSnapshotRead)"
  show ?case
  proof (cases "length snapshot < pl_snapshot_count l")
    case True
    have batch: "wp (?k batch) (snapshot_post l n) u"
      if u: "length (st_calls u) \<le> length (st_calls s) + 2" "list_all (item_bound l) batch" for batch u
    proof (cases "\<not> (batch = [] \<or> length batch > min b (pl_snapshot_count l - length snapshot) \<or>
        length batch > pl_snapshot_count l - length snapshot) \<and> ascending after (map ds_workshop_id batch)")
      case c: True
      have shorter: "pl_snapshot_count l - length (snapshot @ batch) < pl_snapshot_count l - length snapshot"
        using c True by (auto simp: neq_Nil_conv)
      have room: "2 * (pl_snapshot_count l - length (snapshot @ batch)) + 2 \<le> 2 * (pl_snapshot_count l - length snapshot)"
        using shorter by linarith
      have "wp (read_snapshot_loop w l b (snapshot @ batch) (next_after after batch)) (snapshot_post l n) u"
      proof (rule less.hyps [OF shorter])
        show "ascending None (map ds_workshop_id (snapshot @ batch))"
          using less.prems(2,4) c by (auto simp: ascending_append next_after_def last_map)
        show "next_after after batch = next_after None (snapshot @ batch)"
          using less.prems(4) c by (auto simp: next_after_def)
      qed (use c less.prems u room in auto)
      with c show ?thesis by simp
    next
      case False
      then show ?thesis using u(1) True less.prems(5) by (auto simp: wp_fail intro!: snapshot_post_failed)
    qed
    have "wp (bind_program (db_read_snapshot w l after (min b (pl_snapshot_count l - length snapshot))) ?k)
        (snapshot_post l n) t" if t: "length (st_calls t) \<le> Suc (length (st_calls s))" for t
      unfolding wp_bind
    proof (rule wp_mono [OF wp_read_snapshot])
      fix r :: "(driver_error, db_snapshot_item list) outcome" and u :: publication_state
      assume u: "length (st_calls u) \<le> Suc (length (st_calls t)) \<and>
          (\<forall>items. r = Done items \<longrightarrow> list_all (item_bound l) items)"
      show "continue_with ?k (snapshot_post l n) r u"
        using u t batch True less.prems(5) by (cases r) (auto intro!: snapshot_post_failed)
    qed
    then have "continue_with (\<lambda>_. bind_program (db_read_snapshot w l after
        (min b (pl_snapshot_count l - length snapshot))) ?k) (snapshot_post l n) r t"
      if "length (st_calls t) \<le> Suc (length (st_calls s))" for r t
      using that True less.prems(5) by (cases r) (auto intro!: snapshot_post_failed)
    then show ?thesis
      using True by (subst read_snapshot_loop_unfold) (auto simp: wp_bind intro: wp_mono [OF wp_renewal_calls])
  next
    case False
    with less.prems show ?thesis
      by (subst read_snapshot_loop_unfold) (auto simp: wp_return snapshot_post_def)
  qed
qed

text \<open>
  C19. The snapshot is read completely, in order, and in bounded time. Reading ends after at most two
  calls per row of the frozen snapshot, whatever the database answers; and if it succeeds, it returns
  exactly as many rows as the lease promised, in strictly ascending workshop order and each bound to
  the lease.
\<close>

theorem snapshot_read_exact:
  "case read_complete_snapshot w l b s of
     (r, t) \<Rightarrow> length (st_calls t) \<le> length (st_calls s) + 2 * pl_snapshot_count l \<and>
       (case r of
          Done items \<Rightarrow> length items = pl_snapshot_count l \<and> sorted_wrt (<) (map ds_workshop_id items) \<and>
            list_all (item_bound l) items
        | _ \<Rightarrow> True)"
proof -
  have "wp (read_complete_snapshot w l b) (snapshot_post l (length (st_calls s) + 2 * pl_snapshot_count l)) s"
    unfolding read_complete_snapshot_def by (rule wp_snapshot_loop) (simp_all add: next_after_def)
  then show ?thesis
    by (auto simp: wp_def snapshot_post_def ascending_None split: prod.split outcome.split)
qed




section \<open>The cleanup task\<close>

definition resolved_by_read ::
  "publication_world \<Rightarrow> publication_result_request \<Rightarrow> publication_call list \<Rightarrow> bool" where
  "resolved_by_read w request cs =
     (case sq_result (w_sql w) cs of
        None \<Rightarrow> False
      | Some row \<Rightarrow>
          (case parse_publication_result_row (lf_parse_uuid (w_lib w)) request row of
             Inr (ResultCompleted _ _ _) \<Rightarrow> True
           | Inr (ResultNotApplied _) \<Rightarrow> True
           | _ \<Rightarrow> False))"

definition durably_resolved ::
  "publication_world \<Rightarrow> publication_lease \<Rightarrow> publication_result_request \<Rightarrow> publication_call list \<Rightarrow> bool" where
  "durably_resolved w l request cs \<longleftrightarrow> quarantined w l cs \<or> answered (resolved_by_read w request) is_read_result cs"

definition turn_post ::
  "publication_world \<Rightarrow> publication_lease \<Rightarrow> publication_result_request \<Rightarrow> publication_call list
     \<Rightarrow> (driver_error, cleanup_decision) outcome \<Rightarrow> publication_state \<Rightarrow> bool" where
  "turn_post w l request cs r t \<longleftrightarrow> length cs < length (st_calls t) \<and>
     (r = Done CleanupDurable \<longrightarrow> durably_resolved w l request (st_calls t)) \<and> (\<forall>e. r \<noteq> Fails e)"

lemma wp_cleanup_turn:
  assumes "lease_validate l = Inr ()"
  shows "wp (cleanup_turn w l request) (turn_post w l request (st_calls s)) s"
proof -
  have sql: "quarantine_sql l = Inr (SqlQuarantine (authority_of l) ''route_set_publication_outcome_unknown'')"
    using assms by (simp add: quarantine_sql_def)
  have read: "wp (bind_program (attempt (db_read_result w request))
      (\<lambda>r. return (case r of Inr x \<Rightarrow> Some x | Inl _ \<Rightarrow> None))) (\<lambda>r u. length cs < length (st_calls u) \<and> (\<forall>e. r \<noteq> Fails e) \<and>
        (\<forall>x. r = Done (Some x) \<and> (case x of ResultCompleted _ _ _ \<Rightarrow> True | ResultNotApplied _ \<Rightarrow> True | _ \<Rightarrow> False)
          \<longrightarrow> answered (resolved_by_read w request) is_read_result (st_calls u))) t"
    if "length cs < length (st_calls t)" for t cs
    unfolding wp_bind wp_attempt db_read_result_def
    by (rule wp_statementI)
       (use that in \<open>auto simp: wp_return resolved_by_read_def split: read_result.splits dest!: read_result_sql_Inr\<close>)
  show ?thesis
    unfolding cleanup_turn_def wp_bind wp_attempt db_quarantine_def
  proof (rule wp_statementI)
    fix q row x
    assume q: "quarantine_sql l = Inr q" "sq_flag (w_sql w) (st_calls s @ [CallSql q]) = Some row" "Inr row = Inr x"
    let ?t = "s\<lparr>st_calls := st_calls s @ [CallSql q]\<rparr>"
    show "continue_with (\<lambda>quarantine. bind_program (if quarantine = Inr False
         then bind_program (attempt (db_read_result w request)) (\<lambda>r. return (case r of Inr x \<Rightarrow> Some x | Inl _ \<Rightarrow> None))
         else return None) (\<lambda>result. return (cleanup_decision_of (map_err (\<lambda>_. ()) quarantine) result)))
        (turn_post w l request (st_calls s)) (attempted (Done x)) ?t"
    proof (cases x)
      case True
      then show ?thesis
        using q sql by (auto simp: wp_rules turn_post_def durably_resolved_def quarantined_def)
    next
      case False
      have "length (st_calls s) < length (st_calls ?t)" by simp
      note read = read [OF this]
      have "wp (bind_program (bind_program (attempt (db_read_result w request))
          (\<lambda>r. return (case r of Inr x \<Rightarrow> Some x | Inl _ \<Rightarrow> None)))
          (\<lambda>result. return (cleanup_decision_of (Inr False) result))) (turn_post w l request (st_calls s)) ?t"
        unfolding wp_bind [of _ "\<lambda>result. return (cleanup_decision_of (Inr False) result)"]
      proof (rule wp_mono [OF read], goal_cases)
        case (1 r u)
        then show ?case
          by (cases r) (auto simp: wp_return turn_post_def cleanup_decision_of_def durably_resolved_def
              split: option.splits read_result.splits)
      qed
      then show ?thesis using False by simp
    qed
  qed (use sql in \<open>auto simp: wp_rules turn_post_def cleanup_decision_of_def\<close>)
qed


lemma cleanup_turn_cases:
  assumes "lease_validate l = Inr ()" and "cleanup_turn w l request s = (r, t)"
  shows "length (st_calls s) < length (st_calls t) \<and>
    (r = Done CleanupDurable \<longrightarrow> durably_resolved w l request (st_calls t)) \<and> (\<forall>e. r \<noteq> Fails e)"
  using wp_cleanup_turn [OF assms(1), of w request s] assms(2) by (simp add: wp_def turn_post_def)

lemma cleanup_loop_durable:
  assumes "cleanup_loop w l request n s = Some (Done (), t)" and "lease_validate l = Inr ()"
  shows "durably_resolved w l request (st_calls t)"
proof -
  have "fst r = Done () \<longrightarrow> lease_validate l = Inr () \<longrightarrow> durably_resolved w l request (st_calls (snd r))"
    if "cleanup_loop w l request n s = Some r" for r
    using that
  proof (rule cleanup_loop.raw_induct [where P = "\<lambda>w l request n s r. fst r = Done () \<longrightarrow>
      lease_validate l = Inr () \<longrightarrow> durably_resolved w l request (st_calls (snd r))", rotated], goal_cases)
    case (1 loop w l request n s r)
    then show ?case
      using cleanup_turn_cases [of l w request s] by (auto split: prod.splits outcome.splits cleanup_decision.splits)
  qed
  from this [OF assms(1)] assms(2) show ?thesis by simp
qed

lemma cleanup_turn_accepted:
  assumes "lease_validate l = Inr ()" and "\<forall>cs. k \<le> length cs \<longrightarrow> sq_flag (w_sql w) cs = Some True"
    and "\<forall>cs. w_interrupt w cs \<noteq> Some Dropped" and "k \<le> Suc (length (st_calls s))"
  shows "fst (cleanup_turn w l request s) = Done CleanupDurable"
  using assms
  by (auto simp: cleanup_turn_def bind_program_def attempt_def db_quarantine_def statement_def quarantine_sql_def
      lift_result_def return_def call_async_def async_call_def Let_def cleanup_decision_of_def
      split: option.splits interruption.splits)

lemma cleanup_turn_not_cancelled:
  assumes "\<forall>cs. w_interrupt w cs \<noteq> Some Dropped"
  shows "fst (cleanup_turn w l request s) \<noteq> Cancelled"
  using assms
  by (auto simp: cleanup_turn_def bind_program_def attempt_def db_quarantine_def db_read_result_def statement_def
      lift_result_def return_def fail_def call_async_def async_call_def Let_def
      split: option.splits interruption.splits sum.splits if_splits prod.splits outcome.splits)

text \<open>
  C28. A cancelled publication is cleaned up in the end. For a valid lease, the cleanup task never
  reports success unless the quarantine was confirmed or the publication turned out completed or
  resolved; and if the database accepts the quarantine from some point on and the task is not stopped,
  the task does return.
\<close>

theorem cleanup_reaches_durable:
  assumes "lease_validate l = Inr ()"
    and "\<forall>cs. k \<le> length cs \<longrightarrow> sq_flag (w_sql w) cs = Some True"
    and "\<forall>cs. w_interrupt w cs \<noteq> Some Dropped"
  shows "\<exists>t. cleanup_loop w l request n s = Some (Done (), t) \<and> durably_resolved w l request (st_calls t)"
proof -
  have "\<exists>t. cleanup_loop w l request n s = Some (Done (), t)"
  proof (induction "k - length (st_calls s)" arbitrary: n s rule: less_induct)
    case less
    obtain r t where turn: "cleanup_turn w l request s = (r, t)" by fastforce
    note cases = cleanup_turn_cases [OF assms(1) turn]
    consider (durable) "r = Done CleanupDurable" | (retry) "r = Done CleanupRetry"
      using cases cleanup_turn_not_cancelled [OF assms(3), of l request s] turn
      by (cases r) (auto intro: cleanup_decision.exhaust)
    then show ?case
    proof cases
      case durable
      then show ?thesis using turn by (subst cleanup_loop.simps) simp
    next
      case retry
      then have "\<not> k \<le> Suc (length (st_calls s))"
        using cleanup_turn_accepted [OF assms, of s request] turn by auto
      then have "k - length (st_calls t) < k - length (st_calls s)" using cases by linarith
      from less.hyps [OF this] retry turn show ?thesis by (subst cleanup_loop.simps) simp
    qed
  qed
  then show ?thesis using cleanup_loop_durable [OF _ assms(1)] by blast
qed


definition sample_sql_ports :: sql_ports where
  "sample_sql_ports =
     \<lparr>sq_admission = (\<lambda>_. None), sq_flag = (\<lambda>cs. if length cs < 3 then None else Some True),
      sq_snapshot = (\<lambda>_. None), sq_text = (\<lambda>_. None), sq_finish = (\<lambda>_. None), sq_result = (\<lambda>_. None)\<rparr>"

definition sample_host_ports :: host_ports where
  "sample_host_ports =
     \<lparr>hp_acquire = (\<lambda>_. Inr ()), hp_retain = (\<lambda>_. Inr ()), hp_observe_prior = (\<lambda>_. Inl DriverPanic),
      hp_runtime_prior = (\<lambda>_. Inr ()), hp_active_odoo = (\<lambda>_. Inr ''odoo''), hp_create_generation = (\<lambda>_. Inr ()),
      hp_begin_seal = (\<lambda>_. Inr ([], [])), hp_finish_seal = (\<lambda>_. Inr (1, 2)), hp_publish = (\<lambda>_. Inl DriverPanic),
      hp_reload = (\<lambda>_. Inr ()), hp_runtime_candidate = (\<lambda>_. Inl DriverPanic), hp_fs_candidate = (\<lambda>_. Inl DriverPanic)\<rparr>"

definition sample_library :: library_functions where
  "sample_library =
     \<lparr>lf_jcs = (\<lambda>_. None), lf_sha256_hex = sample_sha256_hex, lf_parse_uuid = (\<lambda>s. Some (uuid_of_text s)),
      lf_evidence_to_vec = sample_to_vec, lf_json_to_vec = (\<lambda>_. []), lf_paperless_resource = (\<lambda>_. ''paperless'')\<rparr>"

definition sample_world :: publication_world where
  "sample_world =
     \<lparr>w_sql = sample_sql_ports, w_host = sample_host_ports, w_lib = sample_library,
      w_interrupt = (\<lambda>_. None), w_heartbeat = (\<lambda>_. None)\<rparr>"

definition sample_result_request :: publication_result_request where
  "sample_result_request =
     \<lparr>rq_control_operation_id = 3, rq_workshop_id = 1, rq_idempotency_key = ''k'', rq_request_digest = [],
      rq_expected_generation = 7, rq_expected_projection_digest = sample_digest,
      rq_expected_disposition = AppliedPresent\<rparr>"

theorem cleanup_reaches_durable_witness:
  "\<exists>t. cleanup_loop sample_world sample_lease sample_result_request 0 initial_publication_state = Some (Done (), t)"
  using cleanup_reaches_durable [OF sample_lease_valid, of 3 sample_world sample_result_request 0 initial_publication_state]
  by (auto simp: sample_world_def sample_sql_ports_def)

end
