(* ===== verification/Publication_Tables.thy ===== *)
theory Publication_Tables
  imports Route_Set_Publication_Db Operation_Queue
begin

text \<open>
  The tables of the route-set publication ledger, which
  \<open>migrations/0027_route_set_publication_admission.sql\<close> creates and later migrations up to
  \<open>0034_route_set_startup_publications.sql\<close> alter, with the SQL functions that only read them: the
  shape tests for selectors and loaded identities, the digest of a publication, and the test for
  its authority.

  A table is the list of its rows. Columns that a \<open>CHECK\<close> constraint makes null together are one
  optional record. Bookkeeping columns (\<open>created_at\<close>, \<open>updated_at\<close>, \<open>heartbeat_at\<close>,
  \<open>retention_not_before\<close>, the trace columns) and the claim columns of interrupted recovery are left
  out. \<open>sha256_hex\<close> stands for SHA-256 in hexadecimal and \<open>column_size\<close> for \<open>pg_column_size\<close>.
\<close>

section \<open>Null and \<open>jsonb\<close>\<close>

text \<open>
  A comparison with null is not true. A disjunction is true when one of its parts is, and a
  conjunction when all are, so in the conditions below a comparison can be read as "is true".
\<close>

definition sql_eq :: "'a option \<Rightarrow> 'a option \<Rightarrow> bool" where
  "sql_eq a b \<longleftrightarrow> a \<noteq> None \<and> a = b"

definition sql_ne :: "'a option \<Rightarrow> 'a option \<Rightarrow> bool" where
  "sql_ne a b \<longleftrightarrow> a \<noteq> None \<and> b \<noteq> None \<and> a \<noteq> b"

definition unexpired :: "int option \<Rightarrow> int \<Rightarrow> bool" where
  "unexpired t now \<longleftrightarrow> (case t of None \<Rightarrow> False | Some e \<Rightarrow> e > now)"

definition expired :: "int option \<Rightarrow> int \<Rightarrow> bool" where
  "expired t now \<longleftrightarrow> (case t of None \<Rightarrow> False | Some e \<Rightarrow> e \<le> now)"

text \<open>\<open>coalesce(t <= now(), true)\<close>.\<close>

definition expired_or_null :: "int option \<Rightarrow> int \<Rightarrow> bool" where
  "expired_or_null t now \<longleftrightarrow> (case t of None \<Rightarrow> True | Some e \<Rightarrow> e \<le> now)"

text \<open>A \<open>jsonb\<close> value forgets the order in which the members of an object were written.\<close>

fun jsonb :: "json \<Rightarrow> json" where
  "jsonb (JArray xs) = JArray (map jsonb xs)"
| "jsonb (JObject ms) = JObject (sort_key fst (map (\<lambda>(k, v). (k, jsonb v)) ms))"
| "jsonb v = v"


section \<open>Tables\<close>

datatype ledger_phase =
    PhaseStaging | PhaseSealed | PhaseStarted | PhaseObserved | PhaseCompleted | PhaseQuarantined

datatype lease_state = LeaseUninitialized | LeaseIdle | LeaseHeld | LeaseMaintenance | LeaseQuarantined

datatype protocol_mode = FlatV1 | ActivatingV1 | GenerationV1

datatype driver_state = DriverInProgress | DriverSucceeded | DriverFailed

record protocol_row =
  pr_mode :: protocol_mode
  pr_normal_ready :: bool
  pr_recovery_ready :: bool
  pr_startup_ready :: bool
  pr_release_ready :: bool

text \<open>The lease row of \<open>runtime/shared-odoo\<close>; the table's key admits no other row.\<close>

record global_lease_row =
  gl_state :: lease_state
  gl_authority_kind :: "str option"
  gl_driver_operation_id :: "uuid option"
  gl_effect_run_id :: "uuid option"
  gl_publication_id :: "uuid option"
  gl_fence_token :: i64
  gl_lease_owner :: "uuid option"
  gl_lease_token :: "uuid option"
  gl_lease_expires_at :: "int option"
  gl_quarantined_at :: "int option"
  gl_safe_error :: "str option"

record route_lease_row =
  rl_workshop_id :: uuid
  rl_state :: lease_state
  rl_initialization_required :: bool
  rl_authority_kind :: "str option"
  rl_driver_operation_id :: "uuid option"
  rl_effect_run_id :: "uuid option"
  rl_release_publication_id :: "uuid option"
  rl_publication_id :: "uuid option"
  rl_fence_token :: i64
  rl_generation :: "i64 option"
  rl_projection_digest :: "str option"
  rl_lease_owner :: "uuid option"
  rl_lease_token :: "uuid option"
  rl_lease_expires_at :: "int option"
  rl_quarantined_at :: "int option"
  rl_safe_error :: "str option"

record driver_row =
  dr_id :: uuid
  dr_idempotency_key :: str
  dr_workshop_id :: "uuid option"
  dr_action :: str
  dr_request_digest :: str
  dr_state :: driver_state
  dr_response :: "json option"
  dr_safe_error :: "str option"
  dr_control_operation_id :: "uuid option"
  dr_control_operation_attempt :: "int option"
  dr_control_operation_lease_owner :: "str option"
  dr_target_key :: "str option"
  dr_execution_token :: "uuid option"
  dr_lease_expires_at :: "int option"
  dr_execution_attempt :: int
  dr_route_generation :: "i64 option"
  dr_route_projection_digest :: "str option"
  dr_route_fence_token :: "i64 option"

record effect_row =
  ef_id :: uuid
  ef_kind :: str
  ef_workshop_id :: "uuid option"
  ef_control_operation_id :: "uuid option"
  ef_control_operation_attempt :: "int option"
  ef_control_operation_lease_owner :: "str option"
  ef_state :: str
  ef_instance_owner :: "uuid option"
  ef_execution_token :: "uuid option"
  ef_route_lease_token :: "uuid option"
  ef_lease_expires_at :: "int option"

record projection_row =
  pj_workshop_id :: uuid
  pj_generation :: i64
  pj_projection_digest :: str
  pj_disposition :: str
  pj_projection :: json

text \<open>The \<open>applied_\<close> columns of a workshop, which a publication copies as its baseline.\<close>

record applied_head =
  ah_generation :: i64
  ah_digest :: str
  ah_disposition :: str
  ah_rendered_digest :: str
  ah_driver_operation_id :: "uuid option"
  ah_effect_run_id :: "uuid option"
  ah_fence_token :: i64

record desired_head =
  dh_generation :: i64
  dh_digest :: str
  dh_disposition :: str

record projection_state_row =
  ps_workshop_id :: uuid
  ps_desired :: "desired_head option"
  ps_applied :: "applied_head option"

record prior_columns =
  pc_selector :: str
  pc_directory_device :: i64
  pc_directory_inode :: i64
  pc_loaded_identity :: "json option"
  pc_recorded_at :: int

record seal_columns =
  sc_count :: int
  sc_present_count :: int
  sc_route_set_digest :: str
  sc_directory_device :: i64
  sc_directory_inode :: i64

record observation_columns =
  oc_selector :: str
  oc_loaded_identity :: json
  oc_observed_at :: int

text \<open>The columns that terminal recovery fills; of these functions only the result reader looks at them.\<close>

record terminal_columns =
  tc_kind :: str
  tc_response :: json

record publication_row =
  pb_publication_id :: uuid
  pb_protocol_version :: int
  pb_kind :: route_set_publication_kind
  pb_driver_operation_id :: "uuid option"
  pb_recovery_effect_run_id :: "uuid option"
  pb_control_operation_id :: "uuid option"
  pb_control_operation_attempt :: "int option"
  pb_control_operation_lease_owner :: "str option"
  pb_instance_owner :: uuid
  pb_execution_token :: uuid
  pb_global_lease_token :: uuid
  pb_route_lease_token :: uuid
  pb_global_fence_token :: i64
  pb_target_workshop_id :: "uuid option"
  pb_selector :: str
  pb_snapshot_count :: int
  pb_phase :: ledger_phase
  pb_interrupted_phase :: "ledger_phase option"
  pb_prior :: "prior_columns option"
  pb_seal :: "seal_columns option"
  pb_started_at :: "int option"
  pb_observation :: "observation_columns option"
  pb_finished_at :: "int option"
  pb_final_response :: "json option"
  pb_quarantined_at :: "int option"
  pb_safe_error :: "str option"
  pb_terminal :: "terminal_columns option"

record target_row =
  tg_publication_id :: uuid
  tg_workshop_id :: uuid
  tg_prior :: applied_head
  tg_generation :: i64
  tg_projection_digest :: str
  tg_disposition :: str
  tg_route_fence_token :: i64

record snapshot_table_row =
  sn_publication_id :: uuid
  sn_workshop_id :: uuid
  sn_generation :: i64
  sn_projection_digest :: str
  sn_disposition :: str
  sn_canonical_projection :: json
  sn_baseline :: "applied_head option"
  sn_is_target :: bool

record publication_record_row =
  rr_publication_id :: uuid
  rr_workshop_id :: uuid
  rr_generation :: i64
  rr_projection_digest :: str
  rr_disposition :: str
  rr_applied_rendered_digest :: "str option"
  rr_rendered_digest :: str

record ledger =
  lg_operations :: "json operation_row list"
  lg_workshops :: "uuid list"
  lg_projections :: "projection_row list"
  lg_states :: "projection_state_row list"
  lg_effects :: "effect_row list"
  lg_protocol :: protocol_row
  lg_global :: global_lease_row
  lg_routes :: "route_lease_row list"
  lg_drivers :: "driver_row list"
  lg_publications :: "publication_row list"
  lg_targets :: "target_row list"
  lg_snapshot :: "snapshot_table_row list"
  lg_records :: "publication_record_row list"

definition find_publication :: "ledger \<Rightarrow> uuid \<Rightarrow> publication_row option" where
  "find_publication l p = find (\<lambda>r. pb_publication_id r = p) (lg_publications l)"

definition find_target :: "ledger \<Rightarrow> uuid \<Rightarrow> target_row option" where
  "find_target l p = find (\<lambda>r. tg_publication_id r = p) (lg_targets l)"

definition find_route_lease :: "ledger \<Rightarrow> uuid option \<Rightarrow> route_lease_row option" where
  "find_route_lease l w = find (\<lambda>r. Some (rl_workshop_id r) = w) (lg_routes l)"

definition find_driver :: "ledger \<Rightarrow> uuid option \<Rightarrow> driver_row option" where
  "find_driver l d = find (\<lambda>r. Some (dr_id r) = d) (lg_drivers l)"

definition find_operation :: "ledger \<Rightarrow> uuid option \<Rightarrow> json operation_row option" where
  "find_operation l i = find (\<lambda>r. Some (op_id r) = i) (lg_operations l)"

definition find_state :: "ledger \<Rightarrow> uuid option \<Rightarrow> projection_state_row option" where
  "find_state l w = find (\<lambda>r. Some (ps_workshop_id r) = w) (lg_states l)"

definition records_of :: "ledger \<Rightarrow> uuid \<Rightarrow> publication_record_row list" where
  "records_of l p = sort_key rr_workshop_id (filter (\<lambda>r. rr_publication_id r = p) (lg_records l))"

definition snapshot_of :: "ledger \<Rightarrow> uuid \<Rightarrow> snapshot_table_row list" where
  "snapshot_of l p = sort_key sn_workshop_id (filter (\<lambda>r. sn_publication_id r = p) (lg_snapshot l))"


section \<open>Shapes of texts and identities\<close>

text \<open>\<open>^generations/[A-Za-z0-9][A-Za-z0-9-]{0,63}$\<close> and the pattern of an RFC 4122 UUID.\<close>

definition selector_text :: "str \<Rightarrow> bool" where
  "selector_text s \<longleftrightarrow>
     (case strip_prefix ''generations/'' s of
        None \<Rightarrow> False
      | Some n \<Rightarrow> n \<noteq> [] \<and> length n \<le> 64 \<and> is_ascii_alphanumeric (hd n) \<and>
                  list_all (\<lambda>c. is_ascii_alphanumeric c \<or> c = CHR ''-'') n)"

definition uuid_text :: "str \<Rightarrow> bool" where
  "uuid_text s \<longleftrightarrow> length s = 36 \<and>
     list_all (\<lambda>i. if i \<in> {8, 13, 18, 23} then s ! i = CHR ''-'' else is_lower_hex (s ! i)) [0..<36] \<and>
     s ! 14 \<in> set ''12345'' \<and> s ! 19 \<in> set ''89ab''"

definition json_keys_are :: "str list \<Rightarrow> json \<Rightarrow> bool" where
  "json_keys_are ks v \<longleftrightarrow>
     (case json_as_object v of None \<Rightarrow> False | Some ms \<Rightarrow> set (map fst ms) = set ks)"

definition text_member :: "(str \<Rightarrow> bool) \<Rightarrow> str \<Rightarrow> json \<Rightarrow> bool" where
  "text_member ok k v \<longleftrightarrow> (case json_get_str k v of None \<Rightarrow> False | Some s \<Rightarrow> ok s)"

text \<open>
  A number whose text matches \<open>^[1-9][0-9]{0,18}$\<close> and does not exceed \<open>9223372036854775807\<close>; the
  text of a fractional number has a point.
\<close>

definition fence_member :: "str \<Rightarrow> json \<Rightarrow> bool" where
  "fence_member k v \<longleftrightarrow>
     (case json_get k v of
        Some (JNumber (PosInt n)) \<Rightarrow> 0 < uint n \<and> uint n < 2 ^ 63
      | _ \<Rightarrow> False)"

definition one_member :: "str \<Rightarrow> json \<Rightarrow> bool" where
  "one_member k v \<longleftrightarrow> json_get k v = Some (JNumber (PosInt 1))"

definition valid_release_route_loaded_identity :: "(json \<Rightarrow> int) \<Rightarrow> json option \<Rightarrow> bool" where
  "valid_release_route_loaded_identity column_size identity \<longleftrightarrow>
     (case identity of
        None \<Rightarrow> True
      | Some v \<Rightarrow> json_as_object v \<noteq> None \<and> column_size v \<le> 4096 \<and>
          ((json_keys_are [''effect_run_id'', ''sealed_digest''] v \<and>
            text_member uuid_text ''effect_run_id'' v \<and> text_member valid_sha256 ''sealed_digest'' v) \<or>
           (json_keys_are [''protocol_version'', ''fleet_run_id'', ''driver_operation_id'',
              ''original_global_fence_token'', ''overlay_kind'', ''route_set_digest'', ''target_slot''] v \<and>
            one_member ''protocol_version'' v \<and> text_member uuid_text ''fleet_run_id'' v \<and>
            text_member uuid_text ''driver_operation_id'' v \<and>
            fence_member ''original_global_fence_token'' v \<and>
            text_member (\<lambda>s. s \<in> {''maintenance'', ''candidate''}) ''overlay_kind'' v \<and>
            text_member valid_sha256 ''route_set_digest'' v \<and>
            text_member (\<lambda>s. s \<in> {''blue'', ''green''}) ''target_slot'' v)))"

definition valid_route_set_loaded_identity :: "(json \<Rightarrow> int) \<Rightarrow> json option \<Rightarrow> bool" where
  "valid_route_set_loaded_identity column_size identity \<longleftrightarrow>
     (case identity of
        None \<Rightarrow> True
      | Some v \<Rightarrow> valid_release_route_loaded_identity column_size identity \<or>
          (json_as_object v \<noteq> None \<and> column_size v \<le> 4096 \<and>
           ((json_keys_are [''protocol_version'', ''publication_id'', ''publication_kind'',
               ''global_fence_token'', ''target_workshop_id'', ''target_route_fence_token'',
               ''route_set_digest''] v \<and>
             text_member (\<lambda>s. s \<in> {''projection'', ''recovery_maintenance'', ''recovery_restore''})
               ''publication_kind'' v \<and>
             text_member uuid_text ''target_workshop_id'' v \<and> fence_member ''target_route_fence_token'' v) \<or>
            (json_keys_are [''protocol_version'', ''publication_id'', ''publication_kind'',
               ''startup_effect_run_id'', ''global_fence_token'', ''route_set_digest''] v \<and>
             text_member (\<lambda>s. s = ''startup'') ''publication_kind'' v \<and>
             text_member uuid_text ''startup_effect_run_id'' v)) \<and>
           one_member ''protocol_version'' v \<and> text_member uuid_text ''publication_id'' v \<and>
           fence_member ''global_fence_token'' v \<and> text_member valid_sha256 ''route_set_digest'' v))"

text \<open>\<open>replace(text, '-', '')\<close>.\<close>

definition without_hyphens :: "str \<Rightarrow> str" where
  "without_hyphens s = filter (\<lambda>c. c \<noteq> CHR ''-'') s"

definition kind_selector_suffix :: "str \<Rightarrow> str option" where
  "kind_selector_suffix k =
     (if k = ''projection'' then Some ''projection''
      else if k = ''recovery_maintenance'' then Some ''recovery-maintenance''
      else if k = ''recovery_restore'' then Some ''recovery-restore''
      else if k = ''startup'' then Some ''startup''
      else None)"

definition valid_route_set_prior_selector_identity :: "(json \<Rightarrow> int) \<Rightarrow> str \<Rightarrow> json option \<Rightarrow> bool" where
  "valid_route_set_prior_selector_identity column_size selector identity \<longleftrightarrow>
     selector_text selector \<and> valid_route_set_loaded_identity column_size identity \<and>
     (case identity of
        None \<Rightarrow> selector = ''generations/boot-live''
      | Some v \<Rightarrow>
          (case json_get_str ''effect_run_id'' v of
             None \<Rightarrow> False | Some r \<Rightarrow> selector = ''generations/startup-'' @ r) \<or>
          (case (json_get_str ''fleet_run_id'' v, json_get_str ''overlay_kind'' v) of
             (Some r, Some k) \<Rightarrow> selector = ''generations/release-'' @ without_hyphens r @ ''-'' @ k
           | _ \<Rightarrow> False) \<or>
          (case (json_get_str ''publication_id'' v,
                 Option.bind (json_get_str ''publication_kind'' v) kind_selector_suffix) of
             (Some p, Some k) \<Rightarrow> selector = ''generations/route-'' @ without_hyphens p @ ''-'' @ k
           | _ \<Rightarrow> False))"


section \<open>The digest of a publication\<close>

definition uuid_send :: "uuid \<Rightarrow> str" where
  "uuid_send u = be_bytes 16 (unat u)"

definition int8send :: "i64 \<Rightarrow> str" where
  "int8send n = be_bytes 8 (unat n)"

definition int4send :: "i32 \<Rightarrow> str" where
  "int4send n = be_bytes 4 (unat n)"

definition text_send :: "str \<Rightarrow> str" where
  "text_send s = int4send (word_of_nat (length s)) @ s"

definition route_set_publication_record_bytes :: "publication_record_row \<Rightarrow> str" where
  "route_set_publication_record_bytes r =
     uuid_send (rr_workshop_id r) @ int8send (rr_generation r) @ text_send (rr_projection_digest r) @
     text_send (rr_disposition r) @
     (case rr_applied_rendered_digest r of None \<Rightarrow> int4send (- 1) | Some d \<Rightarrow> text_send d) @
     text_send (rr_rendered_digest r)"

definition route_set_publication_digest :: "(str \<Rightarrow> str) \<Rightarrow> ledger \<Rightarrow> uuid \<Rightarrow> str" where
  "route_set_publication_digest sha256_hex l p =
     ''sha256:'' @ sha256_hex (''mb-route-set-publication-v1'' @ [CHR 0x00] @
       concat (map route_set_publication_record_bytes (records_of l p)))"


section \<open>Authority\<close>

definition projection_upstream :: "json operation_row \<Rightarrow> bool" where
  "projection_upstream u \<longleftrightarrow>
     (op_kind u = ''tenant.provision'' \<and> op_queue u = ''tenant-provisioning'') \<or>
     (op_kind u \<in> {''tenant.reconcile'', ''module.enable'', ''module.restrict'', ''webshop-domain.reconcile''} \<and>
        op_queue u = ''tenant-reconciliation'') \<or>
     (op_kind u = ''tenant.lifecycle'' \<and> op_queue u = ''tenant-lifecycle'')"

abbreviation route_set_authority :: "str option" where
  "route_set_authority \<equiv> Some ''route-set-publication''"

definition live_phases :: "ledger_phase set" where
  "live_phases = {PhaseStaging, PhaseSealed, PhaseStarted, PhaseObserved}"

definition original_authority :: "publication_row \<Rightarrow> lease_authority \<Rightarrow> bool" where
  "original_authority p a \<longleftrightarrow>
     pb_instance_owner p = la_instance_owner a \<and> pb_execution_token p = la_execution_token a \<and>
     pb_global_lease_token p = la_global_lease_token a \<and> pb_route_lease_token p = la_route_lease_token a \<and>
     pb_global_fence_token p = la_global_fence_token a"

definition global_authority :: "int \<Rightarrow> global_lease_row \<Rightarrow> lease_authority \<Rightarrow> bool" where
  "global_authority now g a \<longleftrightarrow>
     gl_state g = LeaseHeld \<and> gl_authority_kind g = route_set_authority \<and>
     gl_publication_id g = Some (la_publication_id a) \<and> gl_lease_owner g = Some (la_instance_owner a) \<and>
     gl_lease_token g = Some (la_global_lease_token a) \<and> gl_fence_token g = la_global_fence_token a \<and>
     unexpired (gl_lease_expires_at g) now"

definition route_authority :: "int \<Rightarrow> route_lease_row \<Rightarrow> target_row \<Rightarrow> lease_authority \<Rightarrow> bool" where
  "route_authority now r t a \<longleftrightarrow>
     rl_state r = LeaseHeld \<and> rl_authority_kind r = route_set_authority \<and>
     rl_publication_id r = Some (la_publication_id a) \<and> rl_lease_owner r = Some (la_instance_owner a) \<and>
     rl_lease_token r = Some (la_route_lease_token a) \<and>
     rl_fence_token r = la_target_route_fence_token a \<and> unexpired (rl_lease_expires_at r) now \<and>
     rl_generation r = Some (tg_generation t) \<and> rl_projection_digest r = Some (tg_projection_digest t)"

definition upstream_authority :: "int \<Rightarrow> publication_row \<Rightarrow> json operation_row \<Rightarrow> bool" where
  "upstream_authority now p u \<longleftrightarrow>
     op_state u = InFlight \<and> sql_eq (op_workshop_id u) (pb_target_workshop_id p) \<and>
     pb_control_operation_attempt p = Some (op_attempt u) \<and>
     sql_eq (op_leased_by u) (pb_control_operation_lease_owner p) \<and> unexpired (op_lease_expires_at u) now"

definition driver_authority :: "int \<Rightarrow> driver_row \<Rightarrow> lease_authority \<Rightarrow> bool" where
  "driver_authority now d a \<longleftrightarrow>
     dr_state d = DriverInProgress \<and> dr_safe_error d = None \<and>
     dr_execution_token d = Some (la_execution_token a) \<and> unexpired (dr_lease_expires_at d) now"

definition recovery_effect_state :: "route_set_publication_kind \<Rightarrow> str" where
  "recovery_effect_state k = (if k = RecoveryMaintenance then ''reserved'' else ''restore_started'')"

definition effect_authority :: "int \<Rightarrow> publication_row \<Rightarrow> effect_row \<Rightarrow> lease_authority \<Rightarrow> bool" where
  "effect_authority now p e a \<longleftrightarrow>
     ef_kind e = ''recovery-maintenance'' \<and> sql_eq (ef_workshop_id e) (pb_target_workshop_id p) \<and>
     sql_eq (ef_control_operation_id e) (pb_control_operation_id p) \<and>
     sql_eq (ef_control_operation_attempt e) (pb_control_operation_attempt p) \<and>
     sql_eq (ef_control_operation_lease_owner e) (pb_control_operation_lease_owner p) \<and>
     ef_state e = recovery_effect_state (pb_kind p) \<and>
     ef_instance_owner e = Some (la_instance_owner a) \<and> ef_execution_token e = Some (la_execution_token a) \<and>
     ef_route_lease_token e = Some (la_route_lease_token a) \<and> unexpired (ef_lease_expires_at e) now"

text \<open>
  \<open>has_route_set_publication_authority\<close>: the join of a publication, its target, its upstream
  operation, the owner of its kind and its two leases.
\<close>

definition has_route_set_publication_authority :: "int \<Rightarrow> ledger \<Rightarrow> lease_authority \<Rightarrow> bool" where
  "has_route_set_publication_authority now l a \<longleftrightarrow>
     (\<exists>p \<in> set (lg_publications l). \<exists>t \<in> set (lg_targets l). \<exists>u \<in> set (lg_operations l).
      \<exists>r \<in> set (lg_routes l).
        pb_publication_id p = la_publication_id a \<and> tg_publication_id t = pb_publication_id p \<and>
        pb_control_operation_id p = Some (op_id u) \<and> pb_target_workshop_id p = Some (rl_workshop_id r) \<and>
        pb_phase p \<in> live_phases \<and> pr_mode (lg_protocol l) = GenerationV1 \<and> original_authority p a \<and>
        upstream_authority now p u \<and>
        ((pb_kind p = Projection \<and> projection_upstream u \<and>
          (\<exists>d \<in> set (lg_drivers l). pb_driver_operation_id p = Some (dr_id d) \<and> driver_authority now d a)) \<or>
         (pb_kind p \<in> {RecoveryMaintenance, RecoveryRestore} \<and> pr_recovery_ready (lg_protocol l) \<and>
          op_kind u = ''tenant.lifecycle'' \<and> op_queue u = ''tenant-lifecycle'' \<and>
          (\<exists>e \<in> set (lg_effects l). pb_recovery_effect_run_id p = Some (ef_id e) \<and>
             effect_authority now p e a))) \<and>
        global_authority now (lg_global l) a \<and> route_authority now r t a \<and>
        tg_route_fence_token t = la_target_route_fence_token a)"

text \<open>\<open>lock_route_set_publication_authority\<close> takes the row locks and asks the same question.\<close>

definition lock_route_set_publication_authority :: "int \<Rightarrow> ledger \<Rightarrow> lease_authority \<Rightarrow> bool" where
  "lock_route_set_publication_authority now l a \<longleftrightarrow>
     find_publication l (la_publication_id a) \<noteq> None \<and> has_route_set_publication_authority now l a"

end
