(* ===== verification/Publication_Ledger.thy ===== *)
theory Publication_Ledger
  imports Publication_Tables
begin

text \<open>
  The PL/pgSQL functions of the publication ledger, in their last version and for publications of
  the kind \<open>projection\<close>: the other side of the statements of
  \<open>src/docker_driver/route_set_publication_db.rs\<close>.

  A function is a transaction: it takes the transaction time \<open>now()\<close> and the tables and returns its
  result with the new tables, or an error that rolls everything back, so row locks have no
  counterpart. Uniqueness, foreign keys and the shape constraints of the lease tables are left out:
  the functions have just tested or written what they demand. \<open>finish\<close>, \<open>quarantine\<close> and \<open>admit\<close> are the functions that migration 0033 renamed to
  \<open>_projection_v1\<close>; for a projection its wrappers only forward to them.
\<close>

section \<open>Updates of a publication row\<close>

definition nullable_json :: "('a \<Rightarrow> json) \<Rightarrow> 'a option \<Rightarrow> json" where
  "nullable_json f v = (case v of None \<Rightarrow> JNull | Some x \<Rightarrow> f x)"

definition int_json :: "int \<Rightarrow> json" where
  "int_json n = JNumber (if n \<ge> 0 then PosInt (word_of_int n) else NegInt (word_of_int n))"

text \<open>The identity a gateway has to report, built by \<open>jsonb_build_object\<close>.\<close>

definition expected_identity :: "publication_row \<Rightarrow> i64 option \<Rightarrow> json" where
  "expected_identity p route_fence =
     jsonb (JObject [(''protocol_version'', int_json 1), (''publication_id'', uuid_json (pb_publication_id p)),
       (''publication_kind'', JString (publication_kind_as_str (pb_kind p))),
       (''global_fence_token'', i64_json (pb_global_fence_token p)),
       (''target_workshop_id'', nullable_json uuid_json (pb_target_workshop_id p)),
       (''target_route_fence_token'', nullable_json i64_json route_fence),
       (''route_set_digest'', nullable_json JString (map_option sc_route_set_digest (pb_seal p)))])"

definition expected_response :: "publication_row \<Rightarrow> target_row \<Rightarrow> publication_record_row \<Rightarrow> json" where
  "expected_response p t r =
     jsonb (JObject [(''outcome'', JString ''applied''), (''workshop_id'', uuid_json (tg_workshop_id t)),
       (''route_evidence'', JObject [
         (''driver_operation_id'', nullable_json uuid_json (pb_driver_operation_id p)),
         (''workshop_id'', uuid_json (tg_workshop_id t)), (''route_generation'', i64_json (tg_generation t)),
         (''projection_digest'', JString (tg_projection_digest t)),
         (''disposition'', JString (tg_disposition t)), (''rendered_digest'', JString (rr_rendered_digest r)),
         (''route_fence_token'', i64_json (tg_route_fence_token t))]),
       (''route_set_evidence'', JObject [
         (''protocol_version'', int_json (pb_protocol_version p)),
         (''publication_id'', uuid_json (pb_publication_id p)),
         (''publication_kind'', JString (publication_kind_as_str (pb_kind p))),
         (''selector'', JString (pb_selector p)),
         (''route_set_digest'', nullable_json JString (map_option sc_route_set_digest (pb_seal p))),
         (''snapshot_count'', int_json (pb_snapshot_count p)),
         (''present_count'', nullable_json int_json (map_option sc_present_count (pb_seal p))),
         (''global_fence_token'', i64_json (pb_global_fence_token p)),
         (''directory_device'', nullable_json i64_json (map_option sc_directory_device (pb_seal p))),
         (''directory_inode'', nullable_json i64_json (map_option sc_directory_inode (pb_seal p)))])])"

text \<open>The trigger \<open>validate_route_set_publication_parent_update\<close>: the identity of a publication is fixed.\<close>

definition parent_update_allowed :: "publication_row \<Rightarrow> publication_row \<Rightarrow> bool" where
  "parent_update_allowed old new \<longleftrightarrow>
     pb_publication_id new = pb_publication_id old \<and> pb_protocol_version new = pb_protocol_version old \<and>
     pb_kind new = pb_kind old \<and> pb_driver_operation_id new = pb_driver_operation_id old \<and>
     pb_recovery_effect_run_id new = pb_recovery_effect_run_id old \<and>
     pb_control_operation_id new = pb_control_operation_id old \<and>
     pb_control_operation_attempt new = pb_control_operation_attempt old \<and>
     pb_control_operation_lease_owner new = pb_control_operation_lease_owner old \<and>
     pb_instance_owner new = pb_instance_owner old \<and> pb_execution_token new = pb_execution_token old \<and>
     pb_global_lease_token new = pb_global_lease_token old \<and>
     pb_route_lease_token new = pb_route_lease_token old \<and>
     pb_global_fence_token new = pb_global_fence_token old \<and>
     pb_target_workshop_id new = pb_target_workshop_id old \<and> pb_selector new = pb_selector old \<and>
     pb_snapshot_count new = pb_snapshot_count old"

definition phase_step_allowed :: "ledger_phase \<Rightarrow> ledger_phase \<Rightarrow> bool" where
  "phase_step_allowed old new \<longleftrightarrow> new = old \<or>
     (old = PhaseStaging \<and> new \<in> {PhaseSealed, PhaseQuarantined}) \<or>
     (old = PhaseSealed \<and> new \<in> {PhaseStarted, PhaseQuarantined}) \<or>
     (old = PhaseStarted \<and> new \<in> {PhaseObserved, PhaseQuarantined}) \<or>
     (old = PhaseObserved \<and> new \<in> {PhaseCompleted, PhaseQuarantined})"

text \<open>Evidence once written stays.\<close>

definition evidence_kept :: "publication_row \<Rightarrow> publication_row \<Rightarrow> bool" where
  "evidence_kept old new \<longleftrightarrow>
     (pb_prior old \<noteq> None \<longrightarrow> pb_prior new = pb_prior old) \<and>
     (pb_seal old \<noteq> None \<longrightarrow> pb_seal new = pb_seal old) \<and>
     (pb_started_at old \<noteq> None \<longrightarrow> pb_started_at new = pb_started_at old) \<and>
     (pb_observation old \<noteq> None \<longrightarrow> pb_observation new = pb_observation old) \<and>
     (pb_finished_at old \<noteq> None \<longrightarrow>
        pb_finished_at new = pb_finished_at old \<and> pb_final_response new = pb_final_response old) \<and>
     (pb_quarantined_at old \<noteq> None \<longrightarrow>
        pb_interrupted_phase new = pb_interrupted_phase old \<and>
        pb_quarantined_at new = pb_quarantined_at old \<and> pb_safe_error new = pb_safe_error old)"

definition head_of_target :: "publication_row \<Rightarrow> target_row \<Rightarrow> publication_record_row \<Rightarrow> applied_head" where
  "head_of_target p t r =
     \<lparr>ah_generation = tg_generation t, ah_digest = tg_projection_digest t,
      ah_disposition = tg_disposition t, ah_rendered_digest = rr_rendered_digest r,
      ah_driver_operation_id = pb_driver_operation_id p, ah_effect_run_id = None,
      ah_fence_token = tg_route_fence_token t\<rparr>"

definition desired_of_target :: "target_row \<Rightarrow> desired_head" where
  "desired_of_target t =
     \<lparr>dh_generation = tg_generation t, dh_digest = tg_projection_digest t, dh_disposition = tg_disposition t\<rparr>"

definition global_released :: "global_lease_row \<Rightarrow> i64 \<Rightarrow> bool" where
  "global_released g fence \<longleftrightarrow>
     gl_state g = LeaseIdle \<and> gl_authority_kind g = None \<and> gl_publication_id g = None \<and>
     gl_driver_operation_id g = None \<and> gl_effect_run_id g = None \<and> gl_lease_owner g = None \<and>
     gl_lease_token g = None \<and> gl_lease_expires_at g = None \<and> gl_fence_token g = fence"

definition route_released :: "route_lease_row \<Rightarrow> i64 \<Rightarrow> bool" where
  "route_released r fence \<longleftrightarrow>
     rl_state r = LeaseIdle \<and> rl_authority_kind r = None \<and> rl_publication_id r = None \<and>
     rl_driver_operation_id r = None \<and> rl_effect_run_id r = None \<and> rl_release_publication_id r = None \<and>
     rl_lease_owner r = None \<and> rl_lease_token r = None \<and> rl_lease_expires_at r = None \<and>
     rl_fence_token r = fence"

definition driver_receipt :: "driver_row \<Rightarrow> json \<Rightarrow> bool" where
  "driver_receipt d response \<longleftrightarrow>
     dr_state d = DriverSucceeded \<and> dr_response d = Some response \<and>
     dr_execution_token d = None \<and> dr_lease_expires_at d = None"

definition find_record :: "ledger \<Rightarrow> uuid \<Rightarrow> uuid option \<Rightarrow> publication_record_row option" where
  "find_record l p w =
     find (\<lambda>r. rr_publication_id r = p \<and> Some (rr_workshop_id r) = w) (lg_records l)"

text \<open>
  What the trigger demands of a completed projection: the response, the driver's receipt, the
  workshop's applied head and both released leases agree with the publication.
\<close>

definition completed_receipt_exact :: "ledger \<Rightarrow> publication_row \<Rightarrow> bool" where
  "completed_receipt_exact l p \<longleftrightarrow>
     (case (find_target l (pb_publication_id p), find_record l (pb_publication_id p) (pb_target_workshop_id p)) of
        (Some t, Some r) \<Rightarrow>
          pb_kind p = Projection \<and> pb_final_response p = Some (expected_response p t r) \<and>
          (\<exists>d \<in> set (lg_drivers l). pb_driver_operation_id p = Some (dr_id d) \<and>
             driver_receipt d (expected_response p t r)) \<and>
          (\<exists>s \<in> set (lg_states l). ps_workshop_id s = tg_workshop_id t \<and>
             ps_desired s = Some (desired_of_target t) \<and> ps_applied s = Some (head_of_target p t r)) \<and>
          global_released (lg_global l) (pb_global_fence_token p) \<and>
          (\<exists>r \<in> set (lg_routes l). rl_workshop_id r = tg_workshop_id t \<and>
             route_released r (tg_route_fence_token t))
      | _ \<Rightarrow> False)"

text \<open>
  The trigger \<open>validate_route_set_publication_phase_transition\<close>. Its branch for completed recovery
  publications, which only the recovery functions reach, is left out.
\<close>

definition phase_transition_allowed :: "ledger \<Rightarrow> publication_row \<Rightarrow> publication_row \<Rightarrow> bool" where
  "phase_transition_allowed l old new \<longleftrightarrow>
     (pb_phase old = PhaseCompleted \<longrightarrow> new = old) \<and> phase_step_allowed (pb_phase old) (pb_phase new) \<and>
     evidence_kept old new \<and>
     (case pb_observation new of
        None \<Rightarrow> True
      | Some ob \<Rightarrow> oc_selector ob = pb_selector new \<and>
          oc_loaded_identity ob = expected_identity new
            (map_option tg_route_fence_token (find_target l (pb_publication_id new)))) \<and>
     (pb_phase new = PhaseCompleted \<longrightarrow> completed_receipt_exact l new)"


text \<open>The \<open>CHECK\<close> constraints of the table on evidence and phases.\<close>

definition phase_evidence :: "ledger_phase \<Rightarrow> publication_row \<Rightarrow> bool" where
  "phase_evidence phase p \<longleftrightarrow>
     (phase = PhaseStaging \<and> pb_seal p = None \<and> pb_started_at p = None \<and> pb_observation p = None) \<or>
     (phase = PhaseSealed \<and> pb_prior p \<noteq> None \<and> pb_seal p \<noteq> None \<and> pb_started_at p = None \<and>
        pb_observation p = None) \<or>
     (phase = PhaseStarted \<and> pb_prior p \<noteq> None \<and> pb_seal p \<noteq> None \<and> pb_started_at p \<noteq> None \<and>
        pb_observation p = None) \<or>
     (phase \<in> {PhaseObserved, PhaseCompleted} \<and> pb_prior p \<noteq> None \<and> pb_seal p \<noteq> None \<and>
        pb_started_at p \<noteq> None \<and> pb_observation p \<noteq> None)"

definition publication_check :: "(json \<Rightarrow> int) \<Rightarrow> publication_row \<Rightarrow> bool" where
  "publication_check column_size p \<longleftrightarrow>
     (case pb_prior p of
        None \<Rightarrow> True
      | Some c \<Rightarrow> sint (pc_directory_device c) > 0 \<and> sint (pc_directory_inode c) > 0 \<and>
          valid_route_set_prior_selector_identity column_size (pc_selector c) (pc_loaded_identity c)) \<and>
     (case pb_seal p of
        None \<Rightarrow> True
      | Some c \<Rightarrow> sc_count c = pb_snapshot_count p \<and> 0 \<le> sc_present_count c \<and>
          sc_present_count c \<le> sc_count c \<and> valid_sha256 (sc_route_set_digest c) \<and>
          sint (sc_directory_device c) > 0 \<and> sint (sc_directory_inode c) > 0) \<and>
     (case pb_observation p of
        None \<Rightarrow> True
      | Some c \<Rightarrow> oc_selector c = pb_selector p \<and> json_as_object (oc_loaded_identity c) \<noteq> None \<and>
          column_size (oc_loaded_identity c) \<le> 4096) \<and>
     (case pb_final_response p of
        None \<Rightarrow> True
      | Some v \<Rightarrow> json_as_object v \<noteq> None \<and> column_size v \<le> 16384) \<and>
     (pb_phase p = PhaseQuarantined \<longleftrightarrow> pb_quarantined_at p \<noteq> None) \<and>
     (pb_phase p = PhaseQuarantined \<longleftrightarrow> pb_interrupted_phase p \<noteq> None) \<and>
     (pb_phase p = PhaseCompleted \<longleftrightarrow> pb_finished_at p \<noteq> None) \<and>
     (pb_phase p = PhaseCompleted \<longleftrightarrow> pb_final_response p \<noteq> None) \<and>
     (if pb_phase p = PhaseQuarantined
      then pb_safe_error p = Some ''route_set_publication_outcome_unknown'' else pb_safe_error p = None) \<and>
     (case pb_interrupted_phase p of
        None \<Rightarrow> phase_evidence (pb_phase p) p
      | Some i \<Rightarrow> i \<in> live_phases \<and> phase_evidence i p)"

text \<open>An update of the rows with a condition, under both triggers and the constraints.\<close>

definition update_publications ::
  "(json \<Rightarrow> int) \<Rightarrow> (publication_row \<Rightarrow> bool) \<Rightarrow> (publication_row \<Rightarrow> publication_row) \<Rightarrow> ledger
     \<Rightarrow> db_error + nat \<times> ledger" where
  "update_publications column_size c f l =
     and_then (ensure (list_all (\<lambda>p. c p \<longrightarrow> parent_update_allowed p (f p) \<and> phase_transition_allowed l p (f p))
         (lg_publications l)) (Bail ''55000'')) (\<lambda>_.
     and_then (checked_update (publication_check column_size) c f (lg_publications l)) (\<lambda>(n, ps).
       Inr (n, l\<lparr>lg_publications := ps\<rparr>)))"

text \<open>An update by key whose row count the function does not read.\<close>

definition set_publication ::
  "(json \<Rightarrow> int) \<Rightarrow> uuid \<Rightarrow> (publication_row \<Rightarrow> publication_row) \<Rightarrow> ledger \<Rightarrow> db_error + ledger" where
  "set_publication column_size i f l =
     and_then (update_publications column_size (\<lambda>p. pb_publication_id p = i) f l) (\<lambda>(_, l'). Inr l')"

text \<open>
  The publication row after \<open>lock_route_set_publication_authority\<close> returned true, or
  \<^const>\<open>None\<close> when it returned false.
\<close>

definition authorised :: "int \<Rightarrow> ledger \<Rightarrow> lease_authority \<Rightarrow> publication_row option" where
  "authorised now l a =
     (if lock_route_set_publication_authority now l a then find_publication l (la_publication_id a) else None)"


section \<open>Evidence transitions\<close>

definition record_route_set_publication_prior_identity_v1 ::
  "(json \<Rightarrow> int) \<Rightarrow> int \<Rightarrow> ledger \<Rightarrow> lease_authority \<Rightarrow> str \<Rightarrow> i64 \<Rightarrow> i64 \<Rightarrow> json option
     \<Rightarrow> db_error + str \<times> ledger" where
  "record_route_set_publication_prior_identity_v1 column_size now l a selector dev ino identity =
     (case authorised now l a of
        None \<Rightarrow> Inr (''authority_lost'', l)
      | Some p \<Rightarrow>
          (case pb_prior p of
             Some c \<Rightarrow>
               Inr (if pc_selector c = selector \<and> pc_directory_device c = dev \<and> pc_directory_inode c = ino \<and>
                       pc_loaded_identity c = identity then ''replay'' else ''conflict'', l)
           | None \<Rightarrow>
               if pb_phase p \<noteq> PhaseStaging then Inr (''wrong_phase'', l)
               else if \<not> selector_text selector \<or> sint dev \<le> 0 \<or> sint ino \<le> 0 \<or> selector = pb_selector p \<or>
                       \<not> valid_route_set_prior_selector_identity column_size selector identity
               then Inr (''invalid'', l)
               else and_then (set_publication column_size (la_publication_id a) (\<lambda>p. p\<lparr>pb_prior := Some
                      \<lparr>pc_selector = selector, pc_directory_device = dev, pc_directory_inode = ino,
                       pc_loaded_identity = identity, pc_recorded_at = now\<rparr>\<rparr>) l) (\<lambda>l'.
                    Inr (''recorded'', l'))))"

text \<open>A projection has to start from a generation that has an identity.\<close>

definition record_route_set_publication_prior ::
  "(json \<Rightarrow> int) \<Rightarrow> int \<Rightarrow> ledger \<Rightarrow> lease_authority \<Rightarrow> str \<Rightarrow> i64 \<Rightarrow> i64 \<Rightarrow> json option
     \<Rightarrow> db_error + str \<times> ledger" where
  "record_route_set_publication_prior column_size now l a selector dev ino identity =
     (if selector = ''generations/boot-live'' \<or> identity = None then Inr (''invalid'', l)
      else record_route_set_publication_prior_identity_v1 column_size now l a selector dev ino identity)"

definition has_record :: "ledger \<Rightarrow> uuid \<Rightarrow> uuid \<Rightarrow> bool" where
  "has_record l p w \<longleftrightarrow> (\<exists>r \<in> set (lg_records l). rr_publication_id r = p \<and> rr_workshop_id r = w)"

definition next_expected :: "ledger \<Rightarrow> uuid \<Rightarrow> uuid option" where
  "next_expected l p =
     map_option sn_workshop_id (find (\<lambda>s. \<not> has_record l p (sn_workshop_id s)) (snapshot_of l p))"

definition record_row_check :: "publication_record_row \<Rightarrow> bool" where
  "record_row_check r \<longleftrightarrow>
     sint (rr_generation r) > 0 \<and> valid_sha256 (rr_projection_digest r) \<and>
     rr_disposition r \<in> {''present'', ''absent''} \<and>
     (case rr_applied_rendered_digest r of None \<Rightarrow> True | Some d \<Rightarrow> valid_sha256 d) \<and>
     valid_sha256 (rr_rendered_digest r)"

definition record_route_set_publication_entry ::
  "int \<Rightarrow> ledger \<Rightarrow> lease_authority \<Rightarrow> uuid \<Rightarrow> i64 \<Rightarrow> str \<Rightarrow> str \<Rightarrow> str option \<Rightarrow> str \<Rightarrow> db_error + str \<times> ledger" where
  "record_route_set_publication_entry now l a w generation digest disposition applied rendered =
     (if \<not> valid_sha256 rendered then Inr (''invalid'', l)
      else case authorised now l a of
        None \<Rightarrow> Inr (''authority_lost'', l)
      | Some p \<Rightarrow>
          (case find_record l (la_publication_id a) (Some w) of
             Some r \<Rightarrow>
               Inr (if rr_generation r = generation \<and> rr_projection_digest r = digest \<and>
                       rr_disposition r = disposition \<and> sql_eq (rr_applied_rendered_digest r) applied \<and>
                       rr_rendered_digest r = rendered then ''replay'' else ''conflict'', l)
           | None \<Rightarrow>
               if pb_phase p \<noteq> PhaseStaging then Inr (''wrong_phase'', l)
               else if pb_prior p = None then Inr (''prior_absent'', l)
               else if next_expected l (la_publication_id a) \<noteq> Some w then Inr (''out_of_order'', l)
               else case find (\<lambda>s. sn_publication_id s = la_publication_id a \<and> sn_workshop_id s = w \<and>
                        sn_generation s = generation \<and> sn_projection_digest s = digest \<and>
                        sn_disposition s = disposition \<and>
                        sql_eq (map_option ah_rendered_digest (sn_baseline s)) applied) (lg_snapshot l) of
                  None \<Rightarrow> Inr (''snapshot_drift'', l)
                | Some s \<Rightarrow>
                    if (\<not> sn_is_target s \<and> sql_ne (Some rendered) (map_option ah_rendered_digest (sn_baseline s))) \<or>
                       (disposition = ''absent'' \<and> rendered \<noteq> EMPTY_RENDERED_DIGEST) \<or>
                       (sn_is_target s \<and> pb_kind p = RecoveryMaintenance \<and> disposition \<noteq> ''present'')
                    then Inr (''render_invariant_mismatch'', l)
                    else let r = \<lparr>rr_publication_id = la_publication_id a, rr_workshop_id = w,
                           rr_generation = generation, rr_projection_digest = digest,
                           rr_disposition = disposition, rr_applied_rendered_digest = applied,
                           rr_rendered_digest = rendered\<rparr>
                         in if record_row_check r
                            then Inr (''recorded'', l\<lparr>lg_records := lg_records l @ [r]\<rparr>)
                            else Inl CheckViolation))"

definition present_count :: "ledger \<Rightarrow> uuid \<Rightarrow> int" where
  "present_count l p = int (length (filter (\<lambda>r. rr_disposition r = ''present'') (records_of l p)))"

definition seal_route_set_publication ::
  "(str \<Rightarrow> str) \<Rightarrow> (json \<Rightarrow> int) \<Rightarrow> int \<Rightarrow> ledger \<Rightarrow> lease_authority \<Rightarrow> str \<Rightarrow> i64 \<Rightarrow> i64 \<Rightarrow> i32 \<Rightarrow> i32 \<Rightarrow> str
     \<Rightarrow> db_error + str \<times> ledger" where
  "seal_route_set_publication sha256_hex column_size now l a selector dev ino entries present digest =
     (case authorised now l a of
        None \<Rightarrow> Inr (''authority_lost'', l)
      | Some p \<Rightarrow>
          if pb_phase p \<noteq> PhaseStaging then
            Inr (case pb_seal p of
                   None \<Rightarrow> ''wrong_phase''
                 | Some c \<Rightarrow>
                     if sc_count c = sint entries \<and> sc_present_count c = sint present \<and>
                        sc_route_set_digest c = digest \<and> pb_selector p = selector \<and>
                        sc_directory_device c = dev \<and> sc_directory_inode c = ino
                     then ''replay'' else ''wrong_phase'', l)
          else case pb_prior p of
            None \<Rightarrow> Inr (''prior_absent'', l)
          | Some c \<Rightarrow>
              if selector \<noteq> pb_selector p \<or> sint dev \<le> 0 \<or> sint ino \<le> 0 \<or>
                 sint entries \<noteq> pb_snapshot_count p \<or> \<not> (0 \<le> sint present \<and> sint present \<le> sint entries) \<or>
                 \<not> valid_sha256 digest
              then Inr (''invalid'', l)
              else if dev = pc_directory_device c \<and> ino = pc_directory_inode c
              then Inr (''prior_directory_reused'', l)
              else if int (length (records_of l (la_publication_id a))) \<noteq> sint entries
              then Inr (''count_mismatch'', l)
              else if present_count l (la_publication_id a) \<noteq> sint present
              then Inr (''present_count_mismatch'', l)
              else if route_set_publication_digest sha256_hex l (la_publication_id a) \<noteq> digest
              then Inr (''digest_mismatch'', l)
              else and_then (set_publication column_size (la_publication_id a)
                     (\<lambda>p. p\<lparr>pb_phase := PhaseSealed, pb_seal := Some
                       \<lparr>sc_count = sint entries, sc_present_count = sint present, sc_route_set_digest = digest,
                        sc_directory_device = dev, sc_directory_inode = ino\<rparr>\<rparr>) l) (\<lambda>l'.
                   Inr (''sealed'', l')))"

definition start_route_set_publication ::
  "(json \<Rightarrow> int) \<Rightarrow> int \<Rightarrow> ledger \<Rightarrow> lease_authority \<Rightarrow> db_error + str \<times> ledger" where
  "start_route_set_publication column_size now l a =
     (case authorised now l a of
        None \<Rightarrow> Inr (''authority_lost'', l)
      | Some p \<Rightarrow>
          if pb_phase p \<in> {PhaseStarted, PhaseObserved} then Inr (''replay'', l)
          else if pb_phase p \<noteq> PhaseSealed then Inr (''wrong_phase'', l)
          else and_then (set_publication column_size (la_publication_id a)
                 (\<lambda>p. p\<lparr>pb_phase := PhaseStarted, pb_started_at := Some now\<rparr>) l) (\<lambda>l'. Inr (''started'', l')))"

definition observe_route_set_publication ::
  "(json \<Rightarrow> int) \<Rightarrow> int \<Rightarrow> ledger \<Rightarrow> lease_authority \<Rightarrow> str \<Rightarrow> i64 \<Rightarrow> i64 \<Rightarrow> json \<Rightarrow> db_error + str \<times> ledger" where
  "observe_route_set_publication column_size now l a selector dev ino identity =
     (case authorised now l a of
        None \<Rightarrow> Inr (''authority_lost'', l)
      | Some p \<Rightarrow>
          if selector \<noteq> pb_selector p \<or> Some dev \<noteq> map_option sc_directory_device (pb_seal p) \<or>
             Some ino \<noteq> map_option sc_directory_inode (pb_seal p) \<or>
             identity \<noteq> expected_identity p (Some (la_target_route_fence_token a))
          then Inr (''observation_mismatch'', l)
          else if pb_phase p = PhaseObserved then Inr (''replay'', l)
          else if pb_phase p \<noteq> PhaseStarted then Inr (''wrong_phase'', l)
          else and_then (set_publication column_size (la_publication_id a)
                 (\<lambda>p. p\<lparr>pb_phase := PhaseObserved, pb_observation := Some
                   \<lparr>oc_selector = selector, oc_loaded_identity = identity, oc_observed_at = now\<rparr>\<rparr>) l) (\<lambda>l'.
               Inr (''observed'', l')))"


section \<open>Leases\<close>

text \<open>The triggers \<open>normalize_global_route_authority\<close> and \<open>normalize_workshop_route_authority\<close>.\<close>

definition normalize_global_route_authority :: "global_lease_row \<Rightarrow> global_lease_row" where
  "normalize_global_route_authority g =
     (if gl_state g = LeaseIdle
      then g\<lparr>gl_authority_kind := None, gl_effect_run_id := None, gl_publication_id := None\<rparr>
      else if gl_driver_operation_id g \<noteq> None \<and> gl_effect_run_id g = None \<and> gl_publication_id g = None \<and>
              gl_authority_kind g = None
      then g\<lparr>gl_authority_kind := Some ''release''\<rparr>
      else g)"

definition maintenance_stolen :: "ledger \<Rightarrow> route_lease_row \<Rightarrow> route_lease_row \<Rightarrow> bool" where
  "maintenance_stolen l old new \<longleftrightarrow>
     rl_state old = LeaseMaintenance \<and> rl_state new = LeaseHeld \<and>
     \<not> ((rl_authority_kind new = Some ''recovery-maintenance'' \<and> rl_effect_run_id new = rl_effect_run_id old) \<or>
        (rl_authority_kind new = route_set_authority \<and> rl_effect_run_id new = None \<and>
         rl_publication_id new \<noteq> None \<and> rl_fence_token new = rl_fence_token old \<and>
         (\<exists>p \<in> set (lg_publications l). \<exists>t \<in> set (lg_targets l).
            tg_publication_id t = pb_publication_id p \<and> rl_publication_id new = Some (pb_publication_id p) \<and>
            pb_kind p = RecoveryRestore \<and> sql_eq (pb_recovery_effect_run_id p) (rl_effect_run_id old) \<and>
            pb_target_workshop_id p = Some (rl_workshop_id new) \<and> tg_workshop_id t = rl_workshop_id new \<and>
            tg_route_fence_token t = rl_fence_token new)))"

definition normalize_workshop_route_authority :: "route_lease_row \<Rightarrow> route_lease_row" where
  "normalize_workshop_route_authority r =
     (if rl_state r \<in> {LeaseIdle, LeaseUninitialized}
      then r\<lparr>rl_authority_kind := None, rl_effect_run_id := None, rl_release_publication_id := None,
             rl_publication_id := None\<rparr>
      else if rl_driver_operation_id r \<noteq> None \<and> rl_effect_run_id r = None \<and>
              rl_release_publication_id r = None \<and> rl_publication_id r = None \<and> rl_authority_kind r = None
      then r\<lparr>rl_authority_kind := Some (if rl_generation r = None then ''legacy'' else ''projection'')\<rparr>
      else r)"

definition update_global ::
  "(global_lease_row \<Rightarrow> bool) \<Rightarrow> (global_lease_row \<Rightarrow> global_lease_row) \<Rightarrow> ledger \<Rightarrow> nat \<times> ledger" where
  "update_global c f l =
     (if c (lg_global l) then (1, l\<lparr>lg_global := normalize_global_route_authority (f (lg_global l))\<rparr>) else (0, l))"

definition update_routes ::
  "(route_lease_row \<Rightarrow> bool) \<Rightarrow> (route_lease_row \<Rightarrow> route_lease_row) \<Rightarrow> ledger \<Rightarrow> db_error + nat \<times> ledger" where
  "update_routes c f l =
     (if list_ex (\<lambda>r. c r \<and> maintenance_stolen l r (f r)) (lg_routes l) then Inl (Bail ''55000'')
      else case update_where c (\<lambda>r. normalize_workshop_route_authority (f r)) (lg_routes l) of
        (n, rs) \<Rightarrow> Inr (n, l\<lparr>lg_routes := rs\<rparr>))"

definition update_drivers ::
  "(driver_row \<Rightarrow> bool) \<Rightarrow> (driver_row \<Rightarrow> driver_row) \<Rightarrow> ledger \<Rightarrow> nat \<times> ledger" where
  "update_drivers c f l =
     (case update_where c f (lg_drivers l) of (n, ds) \<Rightarrow> (n, l\<lparr>lg_drivers := ds\<rparr>))"

definition update_effects ::
  "(effect_row \<Rightarrow> bool) \<Rightarrow> (effect_row \<Rightarrow> effect_row) \<Rightarrow> ledger \<Rightarrow> nat \<times> ledger" where
  "update_effects c f l =
     (case update_where c f (lg_effects l) of (n, es) \<Rightarrow> (n, l\<lparr>lg_effects := es\<rparr>))"

text \<open>
  \<open>renew_route_set_publication\<close> returns false as soon as one of its three updates does not change
  exactly one row; the updates before it stay.
\<close>

definition renew_route_set_publication ::
  "int \<Rightarrow> ledger \<Rightarrow> lease_authority \<Rightarrow> i32 \<Rightarrow> db_error + bool \<times> ledger" where
  "renew_route_set_publication now l a ttl =
     (if \<not> (60 \<le> sint ttl \<and> sint ttl \<le> 1200) then Inr (False, l)
      else case authorised now l a of
        None \<Rightarrow> Inr (False, l)
      | Some p \<Rightarrow>
          let expires = now + seconds (sint ttl);
              (owners, l1) =
                (if pb_driver_operation_id p \<noteq> None then
                   update_drivers (\<lambda>d. Some (dr_id d) = pb_driver_operation_id p \<and> dr_state d = DriverInProgress \<and>
                       dr_execution_token d = Some (la_execution_token a) \<and> unexpired (dr_lease_expires_at d) now)
                     (\<lambda>d. d\<lparr>dr_lease_expires_at := Some expires\<rparr>) l
                 else
                   update_effects (\<lambda>e. Some (ef_id e) = pb_recovery_effect_run_id p \<and>
                       ef_state e = recovery_effect_state (pb_kind p) \<and>
                       ef_instance_owner e = Some (la_instance_owner a) \<and>
                       ef_execution_token e = Some (la_execution_token a) \<and>
                       ef_route_lease_token e = Some (la_route_lease_token a) \<and>
                       unexpired (ef_lease_expires_at e) now)
                     (\<lambda>e. e\<lparr>ef_lease_expires_at := Some expires\<rparr>) l)
          in if owners \<noteq> 1 then Inr (False, l1)
             else let (globals, l2) =
               update_global (\<lambda>g. gl_state g = LeaseHeld \<and> gl_authority_kind g = route_set_authority \<and>
                   gl_publication_id g = Some (la_publication_id a) \<and>
                   gl_lease_token g = Some (la_global_lease_token a) \<and> gl_fence_token g = la_global_fence_token a)
                 (\<lambda>g. g\<lparr>gl_lease_expires_at := Some expires\<rparr>) l1
             in if globals \<noteq> 1 then Inr (False, l2)
                else and_then (update_routes (\<lambda>r. (\<exists>t \<in> set (lg_targets l2).
                       tg_publication_id t = la_publication_id a \<and> rl_workshop_id r = tg_workshop_id t) \<and>
                       rl_state r = LeaseHeld \<and> rl_authority_kind r = route_set_authority \<and>
                       rl_publication_id r = Some (la_publication_id a) \<and>
                       rl_lease_token r = Some (la_route_lease_token a) \<and>
                       rl_fence_token r = la_target_route_fence_token a)
                     (\<lambda>r. r\<lparr>rl_lease_expires_at := Some expires\<rparr>) l2) (\<lambda>(routes, l3).
                     Inr (routes = 1, l3)))"

text \<open>Text of a batch row; the baseline columns are null for some startup rows.\<close>

type_synonym snapshot_batch_row = "uuid \<times> i64 \<times> str \<times> str \<times> json \<times> str option \<times> bool"

definition snapshot_batch_of :: "snapshot_table_row \<Rightarrow> snapshot_batch_row" where
  "snapshot_batch_of s =
     (sn_workshop_id s, sn_generation s, sn_projection_digest s, sn_disposition s, sn_canonical_projection s,
      map_option ah_rendered_digest (sn_baseline s), sn_is_target s)"

definition read_route_set_publication_snapshot_batch ::
  "int \<Rightarrow> ledger \<Rightarrow> lease_authority \<Rightarrow> uuid option \<Rightarrow> i32 \<Rightarrow> snapshot_batch_row list" where
  "read_route_set_publication_snapshot_batch now l a cursor limit =
     (if \<not> (1 \<le> sint limit \<and> sint limit \<le> 500) then []
      else if \<not> lock_route_set_publication_authority now l a then []
      else map snapshot_batch_of (take (nat (sint limit))
        (filter (\<lambda>s. case cursor of None \<Rightarrow> True | Some w \<Rightarrow> sn_workshop_id s > w)
          (snapshot_of l (la_publication_id a)))))"


section \<open>Quarantine\<close>

definition UNKNOWN_OUTCOME :: str where
  "UNKNOWN_OUTCOME = ''route_set_publication_outcome_unknown''"

text \<open>The test whether an earlier quarantine of the same authority is complete.\<close>

definition quarantine_complete ::
  "lease_authority \<Rightarrow> target_row \<Rightarrow> global_lease_row \<Rightarrow> route_lease_row option \<Rightarrow> driver_row option \<Rightarrow> bool" where
  "quarantine_complete a t g route driver \<longleftrightarrow>
     gl_state g = LeaseQuarantined \<and> gl_authority_kind g = route_set_authority \<and>
     gl_publication_id g = Some (la_publication_id a) \<and> gl_lease_owner g = Some (la_instance_owner a) \<and>
     gl_fence_token g = la_global_fence_token a \<and> gl_lease_token g = None \<and> gl_lease_expires_at g = None \<and>
     gl_quarantined_at g \<noteq> None \<and> gl_safe_error g = Some ''runtime_outcome_unknown'' \<and>
     (case route of
        None \<Rightarrow> False
      | Some r \<Rightarrow> rl_state r = LeaseQuarantined \<and> rl_authority_kind r = route_set_authority \<and>
          rl_publication_id r = Some (la_publication_id a) \<and> rl_lease_owner r = Some (la_instance_owner a) \<and>
          rl_fence_token r = la_target_route_fence_token a \<and> rl_lease_token r = None \<and>
          rl_lease_expires_at r = None \<and> rl_quarantined_at r \<noteq> None \<and>
          rl_safe_error r = Some UNKNOWN_OUTCOME \<and> rl_generation r = Some (tg_generation t) \<and>
          rl_projection_digest r = Some (tg_projection_digest t)) \<and>
     (case driver of
        None \<Rightarrow> False
      | Some d \<Rightarrow> dr_state d = DriverInProgress \<and> dr_safe_error d = Some ''runtime_outcome_unknown'' \<and>
          dr_execution_token d = None \<and> dr_lease_expires_at d = None)"

definition quarantine_authority ::
  "lease_authority \<Rightarrow> target_row \<Rightarrow> global_lease_row \<Rightarrow> route_lease_row option \<Rightarrow> driver_row option \<Rightarrow> bool" where
  "quarantine_authority a t g route driver \<longleftrightarrow>
     gl_state g = LeaseHeld \<and> gl_authority_kind g = route_set_authority \<and>
     gl_publication_id g = Some (la_publication_id a) \<and> gl_lease_owner g = Some (la_instance_owner a) \<and>
     gl_lease_token g = Some (la_global_lease_token a) \<and> gl_fence_token g = la_global_fence_token a \<and>
     (case route of
        None \<Rightarrow> False
      | Some r \<Rightarrow> rl_state r = LeaseHeld \<and> rl_authority_kind r = route_set_authority \<and>
          rl_publication_id r = Some (la_publication_id a) \<and> rl_lease_owner r = Some (la_instance_owner a) \<and>
          rl_lease_token r = Some (la_route_lease_token a) \<and> rl_fence_token r = la_target_route_fence_token a \<and>
          rl_generation r = Some (tg_generation t) \<and> rl_projection_digest r = Some (tg_projection_digest t)) \<and>
     (case driver of
        None \<Rightarrow> False
      | Some d \<Rightarrow> dr_state d = DriverInProgress \<and> dr_execution_token d = Some (la_execution_token a))"

definition some_lease_expired ::
  "int \<Rightarrow> json operation_row option \<Rightarrow> driver_row option \<Rightarrow> global_lease_row \<Rightarrow> route_lease_row option \<Rightarrow> bool" where
  "some_lease_expired now upstream driver g route \<longleftrightarrow>
     expired_or_null (Option.bind upstream op_lease_expires_at) now \<or>
     expired_or_null (Option.bind driver dr_lease_expires_at) now \<or>
     expired_or_null (gl_lease_expires_at g) now \<or>
     expired_or_null (Option.bind route rl_lease_expires_at) now"

text \<open>The four updates, each of which has to change exactly one row.\<close>

definition quarantine_updates ::
  "(json \<Rightarrow> int) \<Rightarrow> int \<Rightarrow> ledger \<Rightarrow> lease_authority \<Rightarrow> publication_row \<Rightarrow> target_row \<Rightarrow> str \<Rightarrow> db_error + ledger" where
  "quarantine_updates column_size now l a p t safe_error =
     (let (globals, l1) = update_global (\<lambda>g. gl_publication_id g = Some (la_publication_id a))
            (\<lambda>g. g\<lparr>gl_state := LeaseQuarantined, gl_lease_token := None, gl_lease_expires_at := None,
                    gl_quarantined_at := Some now, gl_safe_error := Some ''runtime_outcome_unknown''\<rparr>) l
      in and_then (ensure (globals = 1) (Bail ''40001'')) (\<lambda>_.
         and_then (update_routes (\<lambda>r. rl_workshop_id r = tg_workshop_id t \<and>
              rl_publication_id r = Some (la_publication_id a))
            (\<lambda>r. r\<lparr>rl_state := LeaseQuarantined, rl_lease_token := None, rl_lease_expires_at := None,
                    rl_quarantined_at := Some now, rl_safe_error := Some UNKNOWN_OUTCOME\<rparr>) l1) (\<lambda>(routes, l2).
         and_then (ensure (routes = 1) (Bail ''40001'')) (\<lambda>_.
           let (drivers, l3) = update_drivers (\<lambda>d. Some (dr_id d) = pb_driver_operation_id p \<and>
                 dr_state d = DriverInProgress)
               (\<lambda>d. d\<lparr>dr_safe_error := Some ''runtime_outcome_unknown'', dr_execution_token := None,
                       dr_lease_expires_at := None\<rparr>) l2
           in and_then (ensure (drivers = 1) (Bail ''40001'')) (\<lambda>_.
              set_publication column_size (la_publication_id a)
                (\<lambda>p. p\<lparr>pb_interrupted_phase := Some (pb_phase p), pb_phase := PhaseQuarantined,
                        pb_quarantined_at := Some now, pb_safe_error := Some safe_error\<rparr>) l3)))))"

definition quarantine_route_set_publication ::
  "(json \<Rightarrow> int) \<Rightarrow> int \<Rightarrow> ledger \<Rightarrow> lease_authority \<Rightarrow> str \<Rightarrow> db_error + bool \<times> ledger" where
  "quarantine_route_set_publication column_size now l a safe_error =
     (if safe_error \<noteq> UNKNOWN_OUTCOME then Inr (False, l)
      else case find_publication l (la_publication_id a) of
        None \<Rightarrow> Inr (False, l)
      | Some p \<Rightarrow>
          (case find_target l (la_publication_id a) of
             None \<Rightarrow> Inr (False, l)
           | Some t \<Rightarrow>
               let route = find_route_lease l (Some (tg_workshop_id t));
                   driver = find_driver l (pb_driver_operation_id p);
                   upstream = find_operation l (pb_control_operation_id p);
                   g = lg_global l
               in if \<not> original_authority p a \<or> tg_route_fence_token t \<noteq> la_target_route_fence_token a
                  then Inr (False, l)
                  else if pb_phase p = PhaseQuarantined
                  then Inr (quarantine_complete a t g route driver, l)
                  else if pb_phase p \<notin> live_phases then Inr (False, l)
                  else if \<not> quarantine_authority a t g route driver then Inr (False, l)
                  else if pb_phase p \<in> {PhaseStaging, PhaseSealed} \<and>
                          \<not> some_lease_expired now upstream driver g route
                  then Inr (False, l)
                  else and_then (quarantine_updates column_size now l a p t safe_error) (\<lambda>l'. Inr (True, l'))))"


section \<open>Finalization\<close>

text \<open>The reasons for which a finish with the right tokens is still refused as \<open>authority_lost\<close>.\<close>

definition finish_upstream_lost :: "int \<Rightarrow> publication_row \<Rightarrow> json operation_row option \<Rightarrow> bool" where
  "finish_upstream_lost now p u \<longleftrightarrow>
     sql_ne (map_option op_state u) (Some InFlight) \<or>
     sql_ne (map_option op_attempt u) (pb_control_operation_attempt p) \<or>
     Option.bind u op_workshop_id \<noteq> pb_target_workshop_id p \<or>
     Option.bind u op_leased_by \<noteq> pb_control_operation_lease_owner p \<or>
     expired (Option.bind u op_lease_expires_at) now \<or>
     (case u of None \<Rightarrow> False | Some u \<Rightarrow> \<not> projection_upstream u)"

definition route_target_key :: "uuid option \<Rightarrow> str option" where
  "route_target_key w = (case w of None \<Rightarrow> None | Some i \<Rightarrow> Some (''route/'' @ uuid_hyphenated i))"

definition finish_driver_lost ::
  "int \<Rightarrow> publication_row \<Rightarrow> target_row \<Rightarrow> driver_row option \<Rightarrow> lease_authority \<Rightarrow> bool" where
  "finish_driver_lost now p t d a \<longleftrightarrow>
     sql_ne (map_option dr_state d) (Some DriverInProgress) \<or> Option.bind d dr_safe_error \<noteq> None \<or>
     sql_ne (map_option dr_action d) (Some ''route-project'') \<or>
     Option.bind d dr_workshop_id \<noteq> pb_target_workshop_id p \<or>
     Option.bind d dr_control_operation_id \<noteq> pb_control_operation_id p \<or>
     Option.bind d dr_control_operation_attempt \<noteq> pb_control_operation_attempt p \<or>
     Option.bind d dr_control_operation_lease_owner \<noteq> pb_control_operation_lease_owner p \<or>
     Option.bind d dr_target_key \<noteq> route_target_key (pb_target_workshop_id p) \<or>
     Option.bind d dr_execution_token \<noteq> Some (la_execution_token a) \<or>
     expired (Option.bind d dr_lease_expires_at) now \<or>
     Option.bind d dr_route_generation \<noteq> Some (tg_generation t) \<or>
     Option.bind d dr_route_projection_digest \<noteq> Some (tg_projection_digest t) \<or>
     Option.bind d dr_route_fence_token \<noteq> Some (la_target_route_fence_token a)"

definition finish_global_lost :: "int \<Rightarrow> global_lease_row \<Rightarrow> lease_authority \<Rightarrow> bool" where
  "finish_global_lost now g a \<longleftrightarrow>
     gl_state g \<noteq> LeaseHeld \<or> sql_ne (gl_authority_kind g) route_set_authority \<or>
     gl_publication_id g \<noteq> Some (la_publication_id a) \<or> gl_lease_owner g \<noteq> Some (la_instance_owner a) \<or>
     gl_lease_token g \<noteq> Some (la_global_lease_token a) \<or> gl_fence_token g \<noteq> la_global_fence_token a \<or>
     expired (gl_lease_expires_at g) now"

definition finish_route_lost ::
  "int \<Rightarrow> target_row \<Rightarrow> route_lease_row option \<Rightarrow> lease_authority \<Rightarrow> bool" where
  "finish_route_lost now t r a \<longleftrightarrow>
     sql_ne (map_option rl_state r) (Some LeaseHeld) \<or>
     sql_ne (Option.bind r rl_authority_kind) route_set_authority \<or>
     Option.bind r rl_publication_id \<noteq> Some (la_publication_id a) \<or>
     Option.bind r rl_lease_owner \<noteq> Some (la_instance_owner a) \<or>
     Option.bind r rl_lease_token \<noteq> Some (la_route_lease_token a) \<or>
     map_option rl_fence_token r \<noteq> Some (la_target_route_fence_token a) \<or>
     expired (Option.bind r rl_lease_expires_at) now \<or>
     Option.bind r rl_generation \<noteq> Some (tg_generation t) \<or>
     Option.bind r rl_projection_digest \<noteq> Some (tg_projection_digest t)"

text \<open>The evidence of the publication does not add up any more.\<close>

definition finish_evidence_drifted ::
  "(str \<Rightarrow> str) \<Rightarrow> ledger \<Rightarrow> publication_row \<Rightarrow> target_row \<Rightarrow> publication_record_row option \<Rightarrow> lease_authority \<Rightarrow> bool" where
  "finish_evidence_drifted sha256_hex l p t rec a \<longleftrightarrow>
     (let n = int (length (records_of l (la_publication_id a))) in
      n \<noteq> pb_snapshot_count p \<or> sql_ne (Some n) (map_option sc_count (pb_seal p)) \<or>
      sql_ne (Some (present_count l (la_publication_id a))) (map_option sc_present_count (pb_seal p))) \<or>
     Some (route_set_publication_digest sha256_hex l (la_publication_id a)) \<noteq>
       map_option sc_route_set_digest (pb_seal p) \<or>
     map_option oc_selector (pb_observation p) \<noteq> Some (pb_selector p) \<or>
     map_option oc_loaded_identity (pb_observation p) \<noteq>
       Some (expected_identity (p\<lparr>pb_target_workshop_id := Some (tg_workshop_id t)\<rparr>)
         (Some (la_target_route_fence_token a))) \<or>
     (case rec of
        None \<Rightarrow> True
      | Some r \<Rightarrow> rr_generation r \<noteq> tg_generation t \<or> rr_projection_digest r \<noteq> tg_projection_digest t \<or>
          rr_disposition r \<noteq> tg_disposition t \<or>
          rr_applied_rendered_digest r \<noteq> Some (ah_rendered_digest (tg_prior t)))"

text \<open>
  The compare-and-swap of the workshop's applied head. Its triggers look the disposition up again
  when the generation or the digest changes, and demand that the driver operation is bound to
  exactly this generation, digest and fence; the alternative binding of a release is left out.
\<close>

definition projection_disposition :: "ledger \<Rightarrow> uuid \<Rightarrow> i64 \<Rightarrow> str \<Rightarrow> str option" where
  "projection_disposition l w generation digest =
     map_option pj_disposition (find (\<lambda>j. pj_workshop_id j = w \<and> pj_generation j = generation \<and>
       pj_projection_digest j = digest) (lg_projections l))"

definition applied_driver_bound :: "ledger \<Rightarrow> uuid \<Rightarrow> applied_head \<Rightarrow> bool" where
  "applied_driver_bound l w h \<longleftrightarrow>
     (case ah_driver_operation_id h of
        None \<Rightarrow> True
      | Some i \<Rightarrow> \<exists>d \<in> set (lg_drivers l). dr_id d = i \<and> dr_workshop_id d = Some w \<and>
          dr_route_generation d = Some (ah_generation h) \<and> dr_route_projection_digest d = Some (ah_digest h) \<and>
          dr_route_fence_token d = Some (ah_fence_token h))"

definition normalize_head :: "ledger \<Rightarrow> uuid \<Rightarrow> applied_head option \<Rightarrow> applied_head \<Rightarrow> db_error + applied_head" where
  "normalize_head l w old new =
     (if old \<noteq> None \<and> map_option ah_generation old = Some (ah_generation new) \<and>
         map_option ah_digest old = Some (ah_digest new)
      then Inr new
      else and_then (ok_or (projection_disposition l w (ah_generation new) (ah_digest new)) RowNotFound) (\<lambda>d.
        Inr (new\<lparr>ah_disposition := d\<rparr>)))"

definition target_head_current :: "target_row \<Rightarrow> projection_state_row \<Rightarrow> bool" where
  "target_head_current t s \<longleftrightarrow>
     ps_workshop_id s = tg_workshop_id t \<and> ps_desired s = Some (desired_of_target t) \<and>
     ps_applied s = Some (tg_prior t)"

definition apply_target_head ::
  "ledger \<Rightarrow> publication_row \<Rightarrow> target_row \<Rightarrow> publication_record_row \<Rightarrow> db_error + nat \<times> ledger" where
  "apply_target_head l p t r =
     (if \<not> list_ex (target_head_current t) (lg_states l) then Inr (0, l)
      else and_then (normalize_head l (tg_workshop_id t) (Some (tg_prior t)) (head_of_target p t r)) (\<lambda>h.
        and_then (ensure (applied_driver_bound l (tg_workshop_id t) h) (Bail ''55000'')) (\<lambda>_.
          case update_where (target_head_current t) (\<lambda>s. s\<lparr>ps_applied := Some h\<rparr>) (lg_states l) of
            (n, states) \<Rightarrow> Inr (n, l\<lparr>lg_states := states\<rparr>))))"

definition release_route :: "route_lease_row \<Rightarrow> route_lease_row" where
  "release_route r = r\<lparr>rl_state := LeaseIdle, rl_initialization_required := False,
     rl_driver_operation_id := None, rl_generation := None, rl_projection_digest := None,
     rl_lease_owner := None, rl_lease_token := None, rl_lease_expires_at := None,
     rl_quarantined_at := None, rl_safe_error := None\<rparr>"

definition release_global :: "global_lease_row \<Rightarrow> global_lease_row" where
  "release_global g = g\<lparr>gl_state := LeaseIdle, gl_driver_operation_id := None, gl_lease_owner := None,
     gl_lease_token := None, gl_lease_expires_at := None, gl_quarantined_at := None, gl_safe_error := None\<rparr>"

text \<open>The five updates of a finish, each of which has to change exactly one row.\<close>

definition finish_updates ::
  "(json \<Rightarrow> int) \<Rightarrow> int \<Rightarrow> ledger \<Rightarrow> lease_authority \<Rightarrow> publication_row \<Rightarrow> target_row \<Rightarrow> publication_record_row \<Rightarrow> json
     \<Rightarrow> db_error + ledger" where
  "finish_updates column_size now l a p t r response =
     (let (drivers, l1) = update_drivers (\<lambda>d. Some (dr_id d) = pb_driver_operation_id p \<and>
            dr_state d = DriverInProgress \<and> dr_execution_token d = Some (la_execution_token a) \<and>
            unexpired (dr_lease_expires_at d) now \<and> dr_route_generation d = Some (tg_generation t) \<and>
            dr_route_projection_digest d = Some (tg_projection_digest t) \<and>
            dr_route_fence_token d = Some (la_target_route_fence_token a))
          (\<lambda>d. d\<lparr>dr_state := DriverSucceeded, dr_response := Some response, dr_safe_error := None,
                  dr_execution_token := None, dr_lease_expires_at := None\<rparr>) l
      in and_then (ensure (drivers = 1) (Bail ''40001'')) (\<lambda>_.
         and_then (apply_target_head l1 p t r) (\<lambda>(heads, l2).
         and_then (ensure (heads = 1) (Bail ''40001'')) (\<lambda>_.
         and_then (update_routes (\<lambda>r. rl_workshop_id r = tg_workshop_id t \<and> rl_state r = LeaseHeld \<and>
              rl_authority_kind r = route_set_authority \<and> rl_publication_id r = Some (la_publication_id a) \<and>
              rl_lease_owner r = Some (la_instance_owner a) \<and> rl_lease_token r = Some (la_route_lease_token a) \<and>
              rl_fence_token r = la_target_route_fence_token a) release_route l2) (\<lambda>(routes, l3).
         and_then (ensure (routes = 1) (Bail ''40001'')) (\<lambda>_.
           let (globals, l4) = update_global (\<lambda>g. gl_state g = LeaseHeld \<and>
                 gl_authority_kind g = route_set_authority \<and> gl_publication_id g = Some (la_publication_id a) \<and>
                 gl_lease_owner g = Some (la_instance_owner a) \<and>
                 gl_lease_token g = Some (la_global_lease_token a) \<and> gl_fence_token g = la_global_fence_token a)
               release_global l3
           in and_then (ensure (globals = 1) (Bail ''40001'')) (\<lambda>_.
              and_then (update_publications column_size (\<lambda>p. pb_publication_id p = la_publication_id a \<and>
                   pb_phase p = PhaseObserved \<and> pb_finished_at p = None \<and> pb_final_response p = None)
                 (\<lambda>p. p\<lparr>pb_phase := PhaseCompleted, pb_finished_at := Some now,
                         pb_final_response := Some response\<rparr>) l4) (\<lambda>(publications, l5).
              and_then (ensure (publications = 1) (Bail ''40001'')) (\<lambda>_. Inr l5)))))))))"

definition finish_route_set_publication ::
  "(str \<Rightarrow> str) \<Rightarrow> (json \<Rightarrow> int) \<Rightarrow> int \<Rightarrow> ledger \<Rightarrow> lease_authority \<Rightarrow> db_error + (str \<times> json option) \<times> ledger" where
  "finish_route_set_publication sha256_hex column_size now l a =
     (if sint (la_global_fence_token a) \<le> 0 \<or> sint (la_target_route_fence_token a) \<le> 0
      then Inr ((''invalid'', None), l)
      else case find_publication l (la_publication_id a) of
        None \<Rightarrow> Inr ((''invalid'', None), l)
      | Some p \<Rightarrow>
          and_then (ok_or (find_target l (la_publication_id a)) RowNotFound) (\<lambda>t.
            if \<not> original_authority p a \<or> tg_route_fence_token t \<noteq> la_target_route_fence_token a
            then Inr ((if pb_phase p = PhaseCompleted then ''conflict'' else ''authority_lost'', None), l)
            else if pb_phase p = PhaseCompleted then Inr ((''replay'', pb_final_response p), l)
            else if pb_kind p \<noteq> Projection then Inr ((''invalid'', None), l)
            else if pb_phase p \<noteq> PhaseObserved then Inr ((''wrong_phase'', None), l)
            else let rec = find_record l (la_publication_id a) (pb_target_workshop_id p)
                 in if pr_mode (lg_protocol l) \<noteq> GenerationV1 \<or>
                       finish_upstream_lost now p (find_operation l (pb_control_operation_id p)) \<or>
                       finish_driver_lost now p t (find_driver l (pb_driver_operation_id p)) a \<or>
                       finish_global_lost now (lg_global l) a \<or>
                       finish_route_lost now t (find_route_lease l (pb_target_workshop_id p)) a \<or>
                       finish_evidence_drifted sha256_hex l p t rec a
                    then Inr ((''authority_lost'', None), l)
                    else case rec of
                      None \<Rightarrow> Inr ((''authority_lost'', None), l)
                    | Some r \<Rightarrow>
                        let response = expected_response p t r
                        in and_then (finish_updates column_size now l a p t r response) (\<lambda>l'.
                             Inr ((''completed'', Some response), l'))))"

definition read_route_set_publication_result ::
  "ledger \<Rightarrow> uuid \<Rightarrow> uuid \<Rightarrow> str \<Rightarrow> str \<Rightarrow> publication_result_row" where
  "read_route_set_publication_result l control w key digest =
     (if \<not> (1 \<le> char_count key \<and> char_count key \<le> 180) \<or> \<not> hex_digest digest 64 64
      then (''absent'', None, None, None)
      else case find (\<lambda>d. dr_workshop_id d = Some w \<and> dr_action d = ''route-project'' \<and>
                   dr_idempotency_key d = key) (lg_drivers l) of
        None \<Rightarrow> (''absent'', None, None, None)
      | Some d \<Rightarrow>
          (case find (\<lambda>p. pb_driver_operation_id p = Some (dr_id d)) (lg_publications l) of
             None \<Rightarrow> (''conflict'', None, None, None)
           | Some p \<Rightarrow>
               if dr_control_operation_id d \<noteq> Some control \<or> dr_request_digest d \<noteq> digest
               then (''conflict'', None, None, None)
               else if pb_phase p = PhaseCompleted
               then (''completed'', Some (pb_publication_id p), Some (dr_id d), pb_final_response p)
               else case pb_terminal p of
                 None \<Rightarrow> (''pending'', Some (pb_publication_id p), Some (dr_id d), None)
               | Some c \<Rightarrow>
                   if tc_kind c = ''candidate'' \<and> dr_state d = DriverSucceeded \<and> dr_response d \<noteq> None \<and>
                      json_get ''driver_response'' (tc_response c) = dr_response d
                   then (''completed'', Some (pb_publication_id p), Some (dr_id d), dr_response d)
                   else if tc_kind c \<in> {''prior'', ''unstarted''} \<and> dr_state d = DriverFailed \<and>
                      dr_safe_error d = Some ''route_set_publication_not_applied'' \<and> dr_response d = None
                   then (''not_applied'', Some (pb_publication_id p), Some (dr_id d),
                     Some (jsonb (JObject [(''outcome'', JString ''not_applied''),
                       (''publication_id'', uuid_json (pb_publication_id p)),
                       (''driver_operation_id'', uuid_json (dr_id d)),
                       (''resolution_kind'', JString (tc_kind c)),
                       (''safe_error'', nullable_json JString (dr_safe_error d))])))
                   else (''conflict'', None, None, None)))"


section \<open>Admission\<close>

definition admission_refused :: "str \<Rightarrow> admission_row" where
  "admission_refused outcome = (outcome, None, None, None, None, None, None)"

text \<open>The arguments of an admission, in the order of the statement.\<close>

record admission_call =
  ac_control :: control_operation_lease
  ac_workshop_id :: uuid
  ac_kind :: str
  ac_idempotency_key :: str
  ac_request_digest :: str
  ac_generation :: i64
  ac_projection_digest :: str
  ac_instance_owner :: uuid
  ac_execution_token :: uuid
  ac_global_lease_token :: uuid
  ac_route_lease_token :: uuid
  ac_ttl_seconds :: i32

definition admission_call_invalid :: "admission_call \<Rightarrow> bool" where
  "admission_call_invalid c \<longleftrightarrow>
     ac_kind c \<noteq> ''projection'' \<or> sint (co_attempt (ac_control c)) \<le> 0 \<or>
     btrim_empty (co_owner (ac_control c)) \<or>
     \<not> (1 \<le> char_count (ac_idempotency_key c) \<and> char_count (ac_idempotency_key c) \<le> 180) \<or>
     \<not> hex_digest (ac_request_digest c) 64 64 \<or> sint (ac_generation c) \<le> 0 \<or>
     \<not> valid_sha256 (ac_projection_digest c) \<or> \<not> (60 \<le> sint (ac_ttl_seconds c) \<and> sint (ac_ttl_seconds c) \<le> 1200)"

definition admission_upstream_lost :: "int \<Rightarrow> admission_call \<Rightarrow> json operation_row option \<Rightarrow> bool" where
  "admission_upstream_lost now c u \<longleftrightarrow>
     (case u of
        None \<Rightarrow> True
      | Some u \<Rightarrow> op_workshop_id u \<noteq> Some (ac_workshop_id c) \<or> op_state u \<noteq> InFlight \<or>
          op_attempt u \<noteq> sint (co_attempt (ac_control c)) \<or> op_leased_by u \<noteq> Some (co_owner (ac_control c)) \<or>
          expired (op_lease_expires_at u) now \<or> \<not> projection_upstream u)"

definition protocol_active :: "protocol_row \<Rightarrow> bool" where
  "protocol_active r \<longleftrightarrow> pr_mode r = GenerationV1 \<and> pr_normal_ready r \<and> pr_recovery_ready r \<and>
     pr_startup_ready r \<and> pr_release_ready r"

text \<open>The driver operation of the same key, or else the first one of the same projection.\<close>

definition admission_driver_by_key :: "ledger \<Rightarrow> admission_call \<Rightarrow> driver_row option" where
  "admission_driver_by_key l c =
     find (\<lambda>d. dr_workshop_id d = Some (ac_workshop_id c) \<and> dr_action d = ''route-project'' \<and>
       dr_idempotency_key d = ac_idempotency_key c) (lg_drivers l)"

definition admission_driver_by_projection :: "ledger \<Rightarrow> admission_call \<Rightarrow> driver_row option" where
  "admission_driver_by_projection l c =
     find (\<lambda>d. dr_workshop_id d = Some (ac_workshop_id c) \<and> dr_route_generation d = Some (ac_generation c) \<and>
       dr_route_projection_digest d = Some (ac_projection_digest c)) (sort_key dr_id (lg_drivers l))"

definition call_authority :: "admission_call \<Rightarrow> publication_row \<Rightarrow> target_row \<Rightarrow> lease_authority" where
  "call_authority c p t =
     \<lparr>la_publication_id = pb_publication_id p, la_instance_owner = ac_instance_owner c,
      la_execution_token = ac_execution_token c, la_global_lease_token = ac_global_lease_token c,
      la_route_lease_token = ac_route_lease_token c, la_global_fence_token = pb_global_fence_token p,
      la_target_route_fence_token = tg_route_fence_token t\<rparr>"

text \<open>
  An admission that meets an earlier driver operation is a replay only when every part of the
  request is the same and the authority still holds.
\<close>

definition admission_conflict ::
  "admission_call \<Rightarrow> bool \<Rightarrow> driver_row \<Rightarrow> publication_row \<Rightarrow> target_row \<Rightarrow> bool" where
  "admission_conflict c exact_key d p t \<longleftrightarrow>
     \<not> exact_key \<or> dr_request_digest d \<noteq> ac_request_digest c \<or> dr_action d \<noteq> ''route-project'' \<or>
     sql_ne (dr_route_generation d) (Some (ac_generation c)) \<or>
     sql_ne (dr_route_projection_digest d) (Some (ac_projection_digest c)) \<or>
     publication_kind_as_str (pb_kind p) \<noteq> ac_kind c \<or>
     sql_ne (pb_control_operation_id p) (Some (co_id (ac_control c))) \<or>
     sql_ne (pb_control_operation_attempt p) (Some (sint (co_attempt (ac_control c)))) \<or>
     sql_ne (pb_control_operation_lease_owner p) (Some (co_owner (ac_control c))) \<or>
     sql_ne (pb_target_workshop_id p) (Some (ac_workshop_id c)) \<or> tg_generation t \<noteq> ac_generation c \<or>
     tg_projection_digest t \<noteq> ac_projection_digest c \<or> pb_instance_owner p \<noteq> ac_instance_owner c \<or>
     pb_execution_token p \<noteq> ac_execution_token c \<or> pb_global_lease_token p \<noteq> ac_global_lease_token c \<or>
     pb_route_lease_token p \<noteq> ac_route_lease_token c"

definition admission_existing ::
  "int \<Rightarrow> ledger \<Rightarrow> admission_call \<Rightarrow> bool \<Rightarrow> driver_row \<Rightarrow> db_error + admission_row" where
  "admission_existing now l c exact_key d =
     (case find (\<lambda>p. pb_driver_operation_id p = Some (dr_id d)) (lg_publications l) of
        None \<Rightarrow> Inr (''legacy_receipt'', None, Some (dr_id d), None, None, None, None)
      | Some p \<Rightarrow>
          and_then (ok_or (find_target l (pb_publication_id p)) RowNotFound) (\<lambda>t.
            Inr (if admission_conflict c exact_key d p t
                 then (''conflict'', Some (pb_publication_id p), Some (dr_id d),
                   Some (pb_global_fence_token p), None, Some (pb_selector p),
                   Some (word_of_int (pb_snapshot_count p)))
                 else (if has_route_set_publication_authority now l (call_authority c p t)
                       then ''replay'' else ''authority_lost'',
                   Some (pb_publication_id p), Some (dr_id d), Some (pb_global_fence_token p),
                   Some (tg_route_fence_token t), Some (pb_selector p),
                   Some (word_of_int (pb_snapshot_count p))))))"

text \<open>The projection a workshop contributes: the desired one of the target, the applied one of the others.\<close>

definition selected_head :: "uuid \<Rightarrow> projection_state_row \<Rightarrow> desired_head option" where
  "selected_head w s =
     (if ps_workshop_id s = w then ps_desired s
      else map_option (\<lambda>h. \<lparr>dh_generation = ah_generation h, dh_digest = ah_digest h,
                            dh_disposition = ah_disposition h\<rparr>) (ps_applied s))"

definition selects :: "uuid \<Rightarrow> projection_state_row \<Rightarrow> projection_row \<Rightarrow> bool" where
  "selects w s j \<longleftrightarrow> pj_workshop_id j = ps_workshop_id s \<and>
     selected_head w s = Some \<lparr>dh_generation = pj_generation j, dh_digest = pj_projection_digest j,
                               dh_disposition = pj_disposition j\<rparr>"

definition head_ready :: "applied_head \<Rightarrow> bool" where
  "head_ready h \<longleftrightarrow> sint (ah_fence_token h) > 0 \<and>
     (ah_driver_operation_id h \<noteq> None) \<noteq> (ah_effect_run_id h \<noteq> None)"

definition ready_count :: "ledger \<Rightarrow> nat" where
  "ready_count l = length [(w, r, s). w \<leftarrow> lg_workshops l, r \<leftarrow> lg_routes l, rl_workshop_id r = w,
     rl_state r = LeaseIdle, s \<leftarrow> lg_states l, ps_workshop_id s = w,
     case ps_applied s of None \<Rightarrow> False | Some h \<Rightarrow> head_ready h]"

definition selected_count :: "ledger \<Rightarrow> uuid \<Rightarrow> nat" where
  "selected_count l target = length [(w, s, j). w \<leftarrow> lg_workshops l, s \<leftarrow> lg_states l, ps_workshop_id s = w,
     j \<leftarrow> lg_projections l, selects target s j]"

definition fleet_not_ready :: "ledger \<Rightarrow> admission_call \<Rightarrow> bool" where
  "fleet_not_ready l c \<longleftrightarrow>
     (let n = length (lg_workshops l);
          route = find_route_lease l (Some (ac_workshop_id c));
          state = find_state l (Some (ac_workshop_id c))
      in \<not> (1 \<le> n \<and> n \<le> 500) \<or> length (lg_routes l) \<noteq> n \<or> length (lg_states l) \<noteq> n \<or>
         ready_count l \<noteq> n \<or> selected_count l (ac_workshop_id c) \<noteq> n \<or>
         sql_ne (map_option rl_state route) (Some LeaseIdle) \<or>
         sql_ne (map_option dh_generation (Option.bind state ps_desired)) (Some (ac_generation c)) \<or>
         sql_ne (map_option dh_digest (Option.bind state ps_desired)) (Some (ac_projection_digest c)) \<or>
         Option.bind state ps_applied = None)"

definition snapshot_rows :: "ledger \<Rightarrow> uuid \<Rightarrow> uuid \<Rightarrow> snapshot_table_row list" where
  "snapshot_rows l publication target =
     [\<lparr>sn_publication_id = publication, sn_workshop_id = ps_workshop_id s, sn_generation = pj_generation j,
       sn_projection_digest = pj_projection_digest j, sn_disposition = pj_disposition j,
       sn_canonical_projection = pj_projection j, sn_baseline = ps_applied s,
       sn_is_target = (ps_workshop_id s = target)\<rparr>.
      s \<leftarrow> sort_key ps_workshop_id (lg_states l), j \<leftarrow> lg_projections l, selects target s j]"

definition snapshot_row_check :: "(json \<Rightarrow> int) \<Rightarrow> snapshot_table_row \<Rightarrow> bool" where
  "snapshot_row_check column_size s \<longleftrightarrow>
     sint (sn_generation s) > 0 \<and> valid_sha256 (sn_projection_digest s) \<and>
     sn_disposition s \<in> {''present'', ''absent''} \<and> json_as_object (sn_canonical_projection s) \<noteq> None \<and>
     column_size (sn_canonical_projection s) \<le> 65536 \<and>
     (case sn_baseline s of
        None \<Rightarrow> True
      | Some h \<Rightarrow> sint (ah_generation h) > 0 \<and> valid_sha256 (ah_digest h) \<and>
          ah_disposition h \<in> {''present'', ''absent''} \<and> valid_sha256 (ah_rendered_digest h) \<and> head_ready h)"

text \<open>\<open>fence + 1\<close> fails on the largest \<open>bigint\<close>.\<close>

definition next_fence :: "i64 \<Rightarrow> db_error + i64" where
  "next_fence f = (if sint f = 2 ^ 63 - 1 then Inl IntegerOutOfRange else Inr (f + 1))"

definition greatest :: "i64 \<Rightarrow> i64 \<Rightarrow> i64" where
  "greatest a b = (if sint a \<ge> sint b then a else b)"

definition admitted_driver :: "int \<Rightarrow> admission_call \<Rightarrow> uuid \<Rightarrow> i64 \<Rightarrow> driver_row" where
  "admitted_driver expires c driver route_fence =
     \<lparr>dr_id = driver, dr_idempotency_key = ac_idempotency_key c, dr_workshop_id = Some (ac_workshop_id c),
      dr_action = ''route-project'', dr_request_digest = ac_request_digest c, dr_state = DriverInProgress,
      dr_response = None, dr_safe_error = None, dr_control_operation_id = Some (co_id (ac_control c)),
      dr_control_operation_attempt = Some (sint (co_attempt (ac_control c))),
      dr_control_operation_lease_owner = Some (co_owner (ac_control c)),
      dr_target_key = route_target_key (Some (ac_workshop_id c)),
      dr_execution_token = Some (ac_execution_token c), dr_lease_expires_at = Some expires,
      dr_execution_attempt = 1, dr_route_generation = Some (ac_generation c),
      dr_route_projection_digest = Some (ac_projection_digest c), dr_route_fence_token = Some route_fence\<rparr>"

definition projection_selector :: "uuid \<Rightarrow> str" where
  "projection_selector p = ''generations/route-'' @ without_hyphens (uuid_hyphenated p) @ ''-projection''"

definition admitted_publication :: "ledger \<Rightarrow> admission_call \<Rightarrow> uuid \<Rightarrow> uuid \<Rightarrow> i64 \<Rightarrow> publication_row" where
  "admitted_publication l c publication driver global_fence =
     \<lparr>pb_publication_id = publication, pb_protocol_version = 1, pb_kind = Projection,
      pb_driver_operation_id = Some driver, pb_recovery_effect_run_id = None,
      pb_control_operation_id = Some (co_id (ac_control c)),
      pb_control_operation_attempt = Some (sint (co_attempt (ac_control c))),
      pb_control_operation_lease_owner = Some (co_owner (ac_control c)),
      pb_instance_owner = ac_instance_owner c, pb_execution_token = ac_execution_token c,
      pb_global_lease_token = ac_global_lease_token c, pb_route_lease_token = ac_route_lease_token c,
      pb_global_fence_token = global_fence, pb_target_workshop_id = Some (ac_workshop_id c),
      pb_selector = projection_selector publication, pb_snapshot_count = int (length (lg_workshops l)),
      pb_phase = PhaseStaging, pb_interrupted_phase = None, pb_prior = None, pb_seal = None,
      pb_started_at = None, pb_observation = None, pb_finished_at = None, pb_final_response = None,
      pb_quarantined_at = None, pb_safe_error = None, pb_terminal = None\<rparr>"

definition admitted_target :: "admission_call \<Rightarrow> uuid \<Rightarrow> desired_head \<Rightarrow> applied_head \<Rightarrow> i64 \<Rightarrow> target_row" where
  "admitted_target c publication desired applied route_fence =
     \<lparr>tg_publication_id = publication, tg_workshop_id = ac_workshop_id c, tg_prior = applied,
      tg_generation = dh_generation desired, tg_projection_digest = dh_digest desired,
      tg_disposition = dh_disposition desired, tg_route_fence_token = route_fence\<rparr>"

text \<open>The inserts and the two lease grants of an admission.\<close>

definition admission_grant ::
  "(json \<Rightarrow> int) \<Rightarrow> int \<Rightarrow> ledger \<Rightarrow> admission_call \<Rightarrow> uuid \<Rightarrow> uuid \<Rightarrow> desired_head \<Rightarrow> applied_head \<Rightarrow> i64 \<Rightarrow> i64
     \<Rightarrow> db_error + ledger" where
  "admission_grant column_size now l c publication driver desired applied global_fence route_fence =
     (let expires = now + seconds (sint (ac_ttl_seconds c));
          rows = snapshot_rows l publication (ac_workshop_id c);
          l1 = l\<lparr>lg_drivers := lg_drivers l @ [admitted_driver expires c driver route_fence],
                 lg_publications := lg_publications l @
                   [admitted_publication l c publication driver global_fence],
                 lg_targets := lg_targets l @ [admitted_target c publication desired applied route_fence],
                 lg_snapshot := lg_snapshot l @ rows\<rparr>
      in and_then (ensure (list_all (snapshot_row_check column_size) rows) CheckViolation) (\<lambda>_.
         and_then (ensure (length rows = length (lg_workshops l)) (Bail ''40001'')) (\<lambda>_.
           let (globals, l2) = update_global (\<lambda>g. gl_state g = LeaseIdle)
                 (\<lambda>g. g\<lparr>gl_state := LeaseHeld, gl_authority_kind := route_set_authority,
                    gl_driver_operation_id := None, gl_effect_run_id := None,
                    gl_publication_id := Some publication, gl_fence_token := global_fence,
                    gl_lease_owner := Some (ac_instance_owner c),
                    gl_lease_token := Some (ac_global_lease_token c), gl_lease_expires_at := Some expires\<rparr>) l1
           in and_then (ensure (globals = 1) (Bail ''40001'')) (\<lambda>_.
              and_then (update_routes (\<lambda>r. rl_workshop_id r = ac_workshop_id c \<and> rl_state r = LeaseIdle)
                (\<lambda>r. r\<lparr>rl_state := LeaseHeld, rl_authority_kind := route_set_authority,
                   rl_driver_operation_id := None, rl_effect_run_id := None,
                   rl_release_publication_id := None, rl_publication_id := Some publication,
                   rl_fence_token := route_fence, rl_generation := Some (ac_generation c),
                   rl_projection_digest := Some (ac_projection_digest c),
                   rl_lease_owner := Some (ac_instance_owner c),
                   rl_lease_token := Some (ac_route_lease_token c), rl_lease_expires_at := Some expires\<rparr>) l2)
                (\<lambda>(routes, l3). and_then (ensure (routes \<noteq> 0) (Bail ''40001'')) (\<lambda>_. Inr l3))))))"

definition admit_route_set_publication ::
  "(json \<Rightarrow> int) \<Rightarrow> int \<Rightarrow> uuid \<Rightarrow> uuid \<Rightarrow> ledger \<Rightarrow> admission_call \<Rightarrow> db_error + admission_row \<times> ledger" where
  "admit_route_set_publication column_size now publication driver l c =
     (if admission_call_invalid c then Inr (admission_refused ''invalid'', l)
      else if admission_upstream_lost now c (find_operation l (Some (co_id (ac_control c))))
      then Inr (admission_refused ''upstream_lease_lost'', l)
      else if \<not> protocol_active (lg_protocol l) then Inr (admission_refused ''protocol_inactive'', l)
      else case admission_driver_by_key l c of
        Some d \<Rightarrow> and_then (admission_existing now l c True d) (\<lambda>row. Inr (row, l))
      | None \<Rightarrow>
      (case admission_driver_by_projection l c of
        Some d \<Rightarrow> and_then (admission_existing now l c False d) (\<lambda>row. Inr (row, l))
      | None \<Rightarrow>
          if gl_state (lg_global l) \<noteq> LeaseIdle
          then Inr ((if gl_state (lg_global l) = LeaseQuarantined then ''fleet_quarantined'' else ''fleet_busy'',
                 gl_publication_id (lg_global l), gl_driver_operation_id (lg_global l),
                 Some (gl_fence_token (lg_global l)), None, None, None), l)
          else if fleet_not_ready l c
          then Inr ((''fleet_not_ready'', None, None, None, None, None,
                 Some (word_of_nat (length (lg_workshops l)))), l)
          else case (find_route_lease l (Some (ac_workshop_id c)), find_state l (Some (ac_workshop_id c))) of
            (Some route, Some state) \<Rightarrow>
              (case (ps_desired state, ps_applied state) of
                 (Some desired, Some applied) \<Rightarrow>
                   and_then (next_fence (gl_fence_token (lg_global l))) (\<lambda>global_fence.
                   and_then (next_fence (greatest (rl_fence_token route) (ah_fence_token applied))) (\<lambda>route_fence.
                   and_then (admission_grant column_size now l c publication driver desired applied
                       global_fence route_fence) (\<lambda>l'.
                     Inr ((''acquired'', Some publication, Some driver, Some global_fence, Some route_fence,
                       Some (projection_selector publication),
                       Some (word_of_nat (length (lg_workshops l)))), l'))))
               | _ \<Rightarrow> Inl CheckViolation)
          | _ \<Rightarrow> Inl CheckViolation))"


section \<open>The statements of the driver\<close>

datatype sql_reply =
    ReplyAdmission admission_row
  | ReplyBool bool
  | ReplySnapshot "snapshot_batch_row list"
  | ReplyText str
  | ReplyFinish "str \<times> json option"
  | ReplyResult publication_result_row

definition map_reply :: "('a \<Rightarrow> sql_reply) \<Rightarrow> db_error + 'a \<times> ledger \<Rightarrow> db_error + sql_reply \<times> ledger" where
  "map_reply f x = and_then x (\<lambda>(v, l). Inr (f v, l))"

text \<open>
  One statement of \<open>route_set_publication_db.rs\<close> as one transaction. \<open>publication\<close> and \<open>driver\<close> are
  the values \<open>gen_random_uuid()\<close> would return.
\<close>

fun ledger_execute ::
  "(str \<Rightarrow> str) \<Rightarrow> (json \<Rightarrow> int) \<Rightarrow> int \<Rightarrow> uuid \<Rightarrow> uuid \<Rightarrow> sql_statement \<Rightarrow> ledger \<Rightarrow> db_error + sql_reply \<times> ledger" where
  "ledger_execute sha256_hex column_size now publication driver
     (SqlAdmit co w kind key digest generation projection owner execution global route ttl) l =
     map_reply ReplyAdmission (admit_route_set_publication column_size now publication driver l
       \<lparr>ac_control = co, ac_workshop_id = w, ac_kind = kind, ac_idempotency_key = key,
        ac_request_digest = digest, ac_generation = generation, ac_projection_digest = projection,
        ac_instance_owner = owner, ac_execution_token = execution, ac_global_lease_token = global,
        ac_route_lease_token = route, ac_ttl_seconds = ttl\<rparr>)"
| "ledger_execute sha256_hex column_size now _ _ (SqlRenew a ttl) l =
     map_reply ReplyBool (renew_route_set_publication now l a ttl)"
| "ledger_execute sha256_hex column_size now _ _ (SqlReadSnapshot a cursor limit) l =
     Inr (ReplySnapshot (read_route_set_publication_snapshot_batch now l a cursor limit), l)"
| "ledger_execute sha256_hex column_size now _ _ (SqlRecordPrior a selector dev ino identity) l =
     map_reply ReplyText (record_route_set_publication_prior column_size now l a selector dev ino
       (map_option jsonb identity))"
| "ledger_execute sha256_hex column_size now _ _
     (SqlRecordEntry a w generation digest disposition applied rendered) l =
     map_reply ReplyText (record_route_set_publication_entry now l a w generation digest disposition applied rendered)"
| "ledger_execute sha256_hex column_size now _ _ (SqlSeal a selector dev ino records present digest) l =
     map_reply ReplyText (seal_route_set_publication sha256_hex column_size now l a selector dev ino
       records present digest)"
| "ledger_execute sha256_hex column_size now _ _ (SqlStart a) l =
     map_reply ReplyText (start_route_set_publication column_size now l a)"
| "ledger_execute sha256_hex column_size now _ _ (SqlObserve a selector dev ino identity) l =
     map_reply ReplyText (observe_route_set_publication column_size now l a selector dev ino (jsonb identity))"
| "ledger_execute sha256_hex column_size now _ _ (SqlFinish a) l =
     map_reply ReplyFinish (finish_route_set_publication sha256_hex column_size now l a)"
| "ledger_execute sha256_hex column_size now _ _ (SqlReadResult control w key digest) l =
     Inr (ReplyResult (read_route_set_publication_result l control w key digest), l)"
| "ledger_execute sha256_hex column_size now _ _ (SqlQuarantine a safe_error) l =
     map_reply ReplyBool (quarantine_route_set_publication column_size now l a safe_error)"

end
