(* ===== verification/Publication_Ledger_Invariant.thy ===== *)
theory Publication_Ledger_Invariant
  imports Publication_Ledger Transition_System
begin

text \<open>
  The invariant of the publication ledger and that every statement keeps it: one open publication
  at a time, under a fence that only grows; a publication that is open owns the lease of the shared
  runtime, its target's route and its driver operation; the recorded rows are a prefix of its
  snapshot, a seal is their digest and an observation the identity of its candidate.
\<close>

section \<open>Rows by key\<close>

lemma find_by_key:
  assumes "distinct (map k xs)" and "x \<in> set xs" and "P x" and "\<And>y. P y \<Longrightarrow> k y = k x"
  shows "find P xs = Some x"
proof -
  obtain y where y: "find P xs = Some y" using assms(2,3) by (metis find_None_iff not_None_eq)
  then have "P y" and "y \<in> set xs" by (auto simp: find_Some_iff)
  then have "y = x" using assms(1,2,4) by (metis distinct_key_unique)
  with y show ?thesis by simp
qed

lemma find_SomeD: "find P xs = Some x \<Longrightarrow> x \<in> set xs \<and> P x"
  by (auto simp: find_Some_iff)

lemma find_cong_set: "(\<And>x. x \<in> set xs \<Longrightarrow> P x = Q x) \<Longrightarrow> find P xs = find Q xs"
  by (induction xs) auto

lemma find_append: "find P (xs @ ys) = (case find P xs of None \<Rightarrow> find P ys | Some x \<Rightarrow> Some x)"
  by (induction xs) auto

definition put_publication :: "publication_row \<Rightarrow> ledger \<Rightarrow> ledger" where
  "put_publication q l =
     l\<lparr>lg_publications := map (\<lambda>p. if pb_publication_id p = pb_publication_id q then q else p) (lg_publications l)\<rparr>"

lemma put_publication_simps [simp]:
  "lg_operations (put_publication q l) = lg_operations l" "lg_workshops (put_publication q l) = lg_workshops l"
  "lg_projections (put_publication q l) = lg_projections l" "lg_states (put_publication q l) = lg_states l"
  "lg_effects (put_publication q l) = lg_effects l" "lg_protocol (put_publication q l) = lg_protocol l"
  "lg_global (put_publication q l) = lg_global l" "lg_routes (put_publication q l) = lg_routes l"
  "lg_drivers (put_publication q l) = lg_drivers l" "lg_targets (put_publication q l) = lg_targets l"
  "lg_snapshot (put_publication q l) = lg_snapshot l" "lg_records (put_publication q l) = lg_records l"
  by (simp_all add: put_publication_def)

lemma put_publication_keys [simp]:
  "map pb_publication_id (lg_publications (put_publication q l)) = map pb_publication_id (lg_publications l)"
  by (simp add: put_publication_def)

lemma put_publication_set:
  assumes "p \<in> set (lg_publications l)" and "pb_publication_id q = pb_publication_id p"
  shows "set (lg_publications (put_publication q l)) =
    insert q {x \<in> set (lg_publications l). pb_publication_id x \<noteq> pb_publication_id q}"
  using assms by (auto simp: put_publication_def)

lemma set_publication_put:
  assumes "set_publication column_size i f l = Inr l'" and "distinct (map pb_publication_id (lg_publications l))"
    and "p \<in> set (lg_publications l)" and "pb_publication_id p = i"
  shows "parent_update_allowed p (f p)" "phase_transition_allowed l p (f p)" "publication_check column_size (f p)"
    "l' = put_publication (f p) l"
proof -
  have allowed: "\<And>x. x \<in> set (lg_publications l) \<Longrightarrow> pb_publication_id x = i \<Longrightarrow>
      parent_update_allowed x (f x) \<and> phase_transition_allowed l x (f x) \<and> publication_check column_size (f x)"
    and l': "l' = l\<lparr>lg_publications := snd (update_where (\<lambda>p. pb_publication_id p = i) f (lg_publications l))\<rparr>"
    using assms(1) by (auto simp: set_publication_def update_publications_def result_simps list_all_iff
        update_where_def split: prod.splits)
  from allowed assms(3,4) show a: "parent_update_allowed p (f p)" "phase_transition_allowed l p (f p)"
    "publication_check column_size (f p)" by auto
  then have "pb_publication_id (f p) = i" using assms(4) by (simp add: parent_update_allowed_def)
  moreover have "x = p" if "x \<in> set (lg_publications l)" "pb_publication_id x = i" for x
    using that assms(2-4) by (metis distinct_key_unique)
  ultimately show "l' = put_publication (f p) l"
    unfolding l' put_publication_def update_where_def by (auto intro!: map_cong)
qed


section \<open>The invariant\<close>

definition ledger_keys :: "ledger \<Rightarrow> bool" where
  "ledger_keys l \<longleftrightarrow>
     distinct (map pb_publication_id (lg_publications l)) \<and> distinct (map tg_publication_id (lg_targets l)) \<and>
     distinct (map dr_id (lg_drivers l)) \<and> distinct (map rl_workshop_id (lg_routes l)) \<and>
     distinct (map ps_workshop_id (lg_states l)) \<and>
     distinct (map (\<lambda>j. (pj_workshop_id j, pj_generation j)) (lg_projections l))"

text \<open>Foreign keys: rows of the dependent tables belong to a publication.\<close>

definition ledger_references :: "ledger \<Rightarrow> bool" where
  "ledger_references l \<longleftrightarrow>
     tg_publication_id ` set (lg_targets l) \<subseteq> pb_publication_id ` set (lg_publications l) \<and>
     sn_publication_id ` set (lg_snapshot l) \<subseteq> pb_publication_id ` set (lg_publications l) \<and>
     rr_publication_id ` set (lg_records l) \<subseteq> pb_publication_id ` set (lg_publications l)"

definition target_ok :: "ledger \<Rightarrow> publication_row \<Rightarrow> bool" where
  "target_ok l p \<longleftrightarrow> pb_kind p = Projection \<and>
     (case find_target l (pb_publication_id p) of
        None \<Rightarrow> False
      | Some t \<Rightarrow> pb_target_workshop_id p = Some (tg_workshop_id t) \<and>
          sint (tg_route_fence_token t) > sint (ah_fence_token (tg_prior t)))"

text \<open>The recorded rows are the first rows of the snapshot, in its order.\<close>

definition record_matches :: "publication_record_row \<Rightarrow> snapshot_table_row \<Rightarrow> bool" where
  "record_matches r s \<longleftrightarrow>
     rr_workshop_id r = sn_workshop_id s \<and> rr_generation r = sn_generation s \<and>
     rr_projection_digest r = sn_projection_digest s \<and> rr_disposition r = sn_disposition s \<and>
     rr_applied_rendered_digest r = map_option ah_rendered_digest (sn_baseline s) \<and>
     rr_applied_rendered_digest r \<noteq> None \<and>
     (sn_is_target s \<or> rr_applied_rendered_digest r = Some (rr_rendered_digest r)) \<and> record_row_check r"

definition records_ok :: "ledger \<Rightarrow> publication_row \<Rightarrow> bool" where
  "records_ok l p \<longleftrightarrow>
     int (length (snapshot_of l (pb_publication_id p))) = pb_snapshot_count p \<and>
     distinct (map sn_workshop_id (snapshot_of l (pb_publication_id p))) \<and>
     list_all2 record_matches (records_of l (pb_publication_id p))
       (take (length (records_of l (pb_publication_id p))) (snapshot_of l (pb_publication_id p)))"

definition seal_exact :: "(str \<Rightarrow> str) \<Rightarrow> ledger \<Rightarrow> publication_row \<Rightarrow> bool" where
  "seal_exact sha256_hex l p \<longleftrightarrow>
     (case pb_seal p of
        None \<Rightarrow> True
      | Some c \<Rightarrow> sc_count c = int (length (records_of l (pb_publication_id p))) \<and>
          sc_present_count c = present_count l (pb_publication_id p) \<and>
          sc_route_set_digest c = route_set_publication_digest sha256_hex l (pb_publication_id p))"

definition observation_exact :: "ledger \<Rightarrow> publication_row \<Rightarrow> bool" where
  "observation_exact l p \<longleftrightarrow>
     (case pb_observation p of
        None \<Rightarrow> True
      | Some ob \<Rightarrow> oc_selector ob = pb_selector p \<and>
          oc_loaded_identity ob = expected_identity p
            (map_option tg_route_fence_token (find_target l (pb_publication_id p))))"

definition publication_evidence_ok :: "(str \<Rightarrow> str) \<Rightarrow> (json \<Rightarrow> int) \<Rightarrow> ledger \<Rightarrow> publication_row \<Rightarrow> bool" where
  "publication_evidence_ok sha256_hex column_size l p \<longleftrightarrow>
     publication_check column_size p \<and> seal_exact sha256_hex l p \<and> observation_exact l p"

text \<open>A publication that is not completed owns the shared runtime and its target's route.\<close>

definition owns_global :: "ledger \<Rightarrow> publication_row \<Rightarrow> bool" where
  "owns_global l p \<longleftrightarrow>
     (let g = lg_global l in
      gl_authority_kind g = route_set_authority \<and> gl_publication_id g = Some (pb_publication_id p) \<and>
      gl_fence_token g = pb_global_fence_token p \<and> gl_lease_owner g = Some (pb_instance_owner p) \<and>
      (if pb_phase p = PhaseQuarantined then gl_state g = LeaseQuarantined \<and> gl_lease_token g = None
       else gl_state g = LeaseHeld \<and> gl_lease_token g = Some (pb_global_lease_token p)))"

definition owns_route :: "ledger \<Rightarrow> publication_row \<Rightarrow> bool" where
  "owns_route l p \<longleftrightarrow>
     (\<exists>r \<in> set (lg_routes l). pb_target_workshop_id p = Some (rl_workshop_id r) \<and>
        rl_authority_kind r = route_set_authority \<and> rl_publication_id r = Some (pb_publication_id p) \<and>
        Some (rl_fence_token r) = map_option tg_route_fence_token (find_target l (pb_publication_id p)) \<and>
        rl_generation r = map_option tg_generation (find_target l (pb_publication_id p)) \<and>
        rl_projection_digest r = map_option tg_projection_digest (find_target l (pb_publication_id p)) \<and>
        rl_lease_owner r = Some (pb_instance_owner p) \<and>
        (if pb_phase p = PhaseQuarantined then rl_state r = LeaseQuarantined \<and> rl_lease_token r = None
         else rl_state r = LeaseHeld \<and> rl_lease_token r = Some (pb_route_lease_token p)))"

definition driver_bound :: "ledger \<Rightarrow> publication_row \<Rightarrow> driver_row \<Rightarrow> bool" where
  "driver_bound l p d \<longleftrightarrow>
     dr_action d = ''route-project'' \<and> dr_workshop_id d = pb_target_workshop_id p \<and>
     dr_control_operation_id d = pb_control_operation_id p \<and>
     dr_control_operation_attempt d = pb_control_operation_attempt p \<and>
     dr_control_operation_lease_owner d = pb_control_operation_lease_owner p \<and>
     dr_target_key d = route_target_key (pb_target_workshop_id p) \<and>
     dr_route_generation d = map_option tg_generation (find_target l (pb_publication_id p)) \<and>
     dr_route_projection_digest d = map_option tg_projection_digest (find_target l (pb_publication_id p)) \<and>
     dr_route_fence_token d = map_option tg_route_fence_token (find_target l (pb_publication_id p))"

text \<open>Its driver operation is in progress until it is completed, and then carries its response.\<close>

definition owns_driver :: "ledger \<Rightarrow> publication_row \<Rightarrow> bool" where
  "owns_driver l p \<longleftrightarrow>
     (\<exists>d \<in> set (lg_drivers l). pb_driver_operation_id p = Some (dr_id d) \<and> driver_bound l p d \<and>
        (if pb_phase p = PhaseCompleted then dr_state d = DriverSucceeded \<and> dr_response d = pb_final_response p
         else dr_state d = DriverInProgress \<and> dr_response d = None \<and>
           (if pb_phase p = PhaseQuarantined
            then dr_safe_error d = Some ''runtime_outcome_unknown'' \<and> dr_execution_token d = None
            else dr_safe_error d = None \<and> dr_execution_token d = Some (pb_execution_token p))))"

definition leases_ok :: "ledger \<Rightarrow> publication_row \<Rightarrow> bool" where
  "leases_ok l p \<longleftrightarrow> owns_driver l p \<and> (pb_phase p \<noteq> PhaseCompleted \<longrightarrow> owns_global l p \<and> owns_route l p)"

definition global_owned :: "ledger \<Rightarrow> bool" where
  "global_owned l \<longleftrightarrow>
     (gl_authority_kind (lg_global l) = route_set_authority \<longrightarrow>
        (\<exists>p \<in> set (lg_publications l). pb_phase p \<noteq> PhaseCompleted \<and>
           gl_publication_id (lg_global l) = Some (pb_publication_id p)))"

text \<open>Fences are positive, grow from one publication to the next and never exceed the lease's.\<close>

definition fences_ok :: "ledger \<Rightarrow> bool" where
  "fences_ok l \<longleftrightarrow>
     sorted_wrt (<) (map (\<lambda>p. sint (pb_global_fence_token p)) (lg_publications l)) \<and>
     (\<forall>p \<in> set (lg_publications l). 0 < sint (pb_global_fence_token p) \<and>
        sint (pb_global_fence_token p) \<le> sint (gl_fence_token (lg_global l))) \<and>
     0 \<le> sint (gl_fence_token (lg_global l))"

definition publications_ok :: "(str \<Rightarrow> str) \<Rightarrow> (json \<Rightarrow> int) \<Rightarrow> ledger \<Rightarrow> bool" where
  "publications_ok sha256_hex column_size l \<longleftrightarrow>
     ledger_keys l \<and> ledger_references l \<and> fences_ok l \<and> global_owned l \<and>
     (\<forall>p \<in> set (lg_publications l).
        target_ok l p \<and> records_ok l p \<and> publication_evidence_ok sha256_hex column_size l p \<and> leases_ok l p)"

section \<open>Steps\<close>

text \<open>
  What the rest of the system does to these tables between two statements: operations, workshops,
  projections, heads, effects and the protocol row change freely; a lease that a publication owns
  and its driver operation stay, no other lease becomes one of a publication, and the fence of the
  shared runtime does not fall. Recovery, which releases quarantined leases, is not included.
\<close>

definition environment_change :: "ledger \<Rightarrow> ledger \<Rightarrow> bool" where
  "environment_change l l' \<longleftrightarrow>
     ledger_keys l' \<and> lg_publications l' = lg_publications l \<and> lg_targets l' = lg_targets l \<and>
     lg_snapshot l' = lg_snapshot l \<and> lg_records l' = lg_records l \<and>
     (if gl_authority_kind (lg_global l) = route_set_authority then lg_global l' = lg_global l
      else gl_authority_kind (lg_global l') \<noteq> route_set_authority \<and>
           sint (gl_fence_token (lg_global l)) \<le> sint (gl_fence_token (lg_global l'))) \<and>
     {r \<in> set (lg_routes l'). rl_authority_kind r = route_set_authority} =
       {r \<in> set (lg_routes l). rl_authority_kind r = route_set_authority} \<and>
     (\<forall>d \<in> set (lg_drivers l). Some (dr_id d) \<in> pb_driver_operation_id ` set (lg_publications l) \<longrightarrow>
        d \<in> set (lg_drivers l'))"

datatype publications_event = Statement int sql_statement sql_reply | Environment

inductive publications_step ::
  "(str \<Rightarrow> str) \<Rightarrow> (json \<Rightarrow> int) \<Rightarrow> ledger \<Rightarrow> publications_event \<Rightarrow> ledger \<Rightarrow> bool"
  for sha256_hex :: "str \<Rightarrow> str" and column_size :: "json \<Rightarrow> int" where
  step_statement: "publication \<notin> pb_publication_id ` set (lg_publications l) \<Longrightarrow>
     driver \<notin> dr_id ` set (lg_drivers l) \<Longrightarrow>
     ledger_execute sha256_hex column_size now publication driver s l = Inr (r, l') \<Longrightarrow>
     publications_step sha256_hex column_size l (Statement now s r) l'"
| step_environment: "environment_change l l' \<Longrightarrow> publications_step sha256_hex column_size l Environment l'"

definition publications_init :: "ledger \<Rightarrow> bool" where
  "publications_init l \<longleftrightarrow>
     ledger_keys l \<and> lg_publications l = [] \<and> lg_targets l = [] \<and> lg_snapshot l = [] \<and> lg_records l = [] \<and>
     gl_authority_kind (lg_global l) \<noteq> route_set_authority \<and> 0 \<le> sint (gl_fence_token (lg_global l))"

lemma publications_okD:
  assumes "publications_ok sha256_hex column_size l"
  shows "ledger_keys l" "ledger_references l" "fences_ok l" "global_owned l"
    "p \<in> set (lg_publications l) \<Longrightarrow> target_ok l p" "p \<in> set (lg_publications l) \<Longrightarrow> records_ok l p"
    "p \<in> set (lg_publications l) \<Longrightarrow> publication_evidence_ok sha256_hex column_size l p"
    "p \<in> set (lg_publications l) \<Longrightarrow> leases_ok l p"
  using assms by (simp_all add: publications_ok_def)

lemma init_ok: "publications_init l \<Longrightarrow> publications_ok sha256_hex column_size l"
  by (simp add: publications_init_def publications_ok_def ledger_references_def fences_ok_def global_owned_def)

text \<open>With unique keys the row that a function reads is the row it was asked for.\<close>

lemma find_publication_key:
  "ledger_keys l \<Longrightarrow> p \<in> set (lg_publications l) \<Longrightarrow> find_publication l (pb_publication_id p) = Some p"
  unfolding find_publication_def ledger_keys_def by (rule find_by_key [where k = pb_publication_id]) auto

lemma find_publicationD:
  "find_publication l i = Some p \<Longrightarrow> p \<in> set (lg_publications l) \<and> pb_publication_id p = i"
  unfolding find_publication_def by (auto dest: find_SomeD)

lemma find_targetD: "find_target l i = Some t \<Longrightarrow> t \<in> set (lg_targets l) \<and> tg_publication_id t = i"
  unfolding find_target_def by (auto dest: find_SomeD)

lemma find_target_key:
  "ledger_keys l \<Longrightarrow> t \<in> set (lg_targets l) \<Longrightarrow> find_target l (tg_publication_id t) = Some t"
  unfolding find_target_def ledger_keys_def by (rule find_by_key [where k = tg_publication_id]) auto

lemma find_driver_key:
  "ledger_keys l \<Longrightarrow> d \<in> set (lg_drivers l) \<Longrightarrow> find_driver l (Some (dr_id d)) = Some d"
  unfolding find_driver_def ledger_keys_def by (rule find_by_key [where k = dr_id]) auto

lemma find_route_lease_key:
  "ledger_keys l \<Longrightarrow> r \<in> set (lg_routes l) \<Longrightarrow> find_route_lease l (Some (rl_workshop_id r)) = Some r"
  unfolding find_route_lease_def ledger_keys_def by (rule find_by_key [where k = rl_workshop_id]) auto

lemma find_state_key:
  "ledger_keys l \<Longrightarrow> s \<in> set (lg_states l) \<Longrightarrow> find_state l (Some (ps_workshop_id s)) = Some s"
  unfolding find_state_def ledger_keys_def by (rule find_by_key [where k = ps_workshop_id]) auto

lemma authorisedD:
  assumes "authorised now l a = Some p" and "ledger_keys l"
  shows "p \<in> set (lg_publications l)" "pb_publication_id p = la_publication_id a" "pb_phase p \<in> live_phases"
    "original_authority p a"
    "map_option tg_route_fence_token (find_target l (pb_publication_id p)) = Some (la_target_route_fence_token a)"
proof -
  have p: "find_publication l (la_publication_id a) = Some p" and h: "has_route_set_publication_authority now l a"
    using assms(1) by (auto simp: authorised_def lock_route_set_publication_authority_def split: if_splits)
  show q: "p \<in> set (lg_publications l)" and i: "pb_publication_id p = la_publication_id a"
    using p by (auto dest: find_publicationD)
  obtain x t where x: "x \<in> set (lg_publications l)" "pb_publication_id x = la_publication_id a"
      "pb_phase x \<in> live_phases" "original_authority x a"
    and t: "t \<in> set (lg_targets l)" "tg_publication_id t = pb_publication_id x"
      "tg_route_fence_token t = la_target_route_fence_token a"
    using h unfolding has_route_set_publication_authority_def by blast
  have "x = p" using x q i assms(2) by (metis distinct_key_unique ledger_keys_def)
  with x show "pb_phase p \<in> live_phases" "original_authority p a" by auto
  show "map_option tg_route_fence_token (find_target l (pb_publication_id p)) = Some (la_target_route_fence_token a)"
    using find_target_key [OF assms(2) t(1)] t(2,3) \<open>x = p\<close> by simp
qed


section \<open>An update of one publication\<close>

lemma put_publication_map:
  assumes "distinct (map pb_publication_id (lg_publications l))" and "p \<in> set (lg_publications l)"
    and "pb_publication_id q = pb_publication_id p" and "k q = k p"
  shows "map k (lg_publications (put_publication q l)) = map k (lg_publications l)"
proof -
  have "x = p" if "x \<in> set (lg_publications l)" "pb_publication_id x = pb_publication_id q" for x
    using that assms by (metis distinct_key_unique)
  then show ?thesis using assms(4) by (auto simp: put_publication_def)
qed

lemma find_target_cong: "lg_targets l' = lg_targets l \<Longrightarrow> find_target l' = find_target l"
  by (simp add: find_target_def fun_eq_iff)

lemma records_of_cong: "lg_records l' = lg_records l \<Longrightarrow> records_of l' = records_of l"
  by (simp add: records_of_def fun_eq_iff)

lemma snapshot_of_cong: "lg_snapshot l' = lg_snapshot l \<Longrightarrow> snapshot_of l' = snapshot_of l"
  by (simp add: snapshot_of_def fun_eq_iff)

lemma publication_frame:
  assumes "lg_targets l' = lg_targets l" and "lg_snapshot l' = lg_snapshot l" and "lg_records l' = lg_records l"
  shows "target_ok l' = target_ok l" "records_ok l' = records_ok l"
    "seal_exact sha256_hex l' = seal_exact sha256_hex l" "observation_exact l' = observation_exact l"
    "publication_evidence_ok sha256_hex column_size l' = publication_evidence_ok sha256_hex column_size l" "driver_bound l' = driver_bound l"
  by (simp_all add: fun_eq_iff target_ok_def records_ok_def seal_exact_def observation_exact_def
      publication_evidence_ok_def driver_bound_def present_count_def route_set_publication_digest_def
      find_target_cong [OF assms(1)] snapshot_of_cong [OF assms(2)] records_of_cong [OF assms(3)]
      cong: option.case_cong)

lemma lease_frame:
  assumes "lg_targets l' = lg_targets l" and "lg_global l' = lg_global l" and "lg_routes l' = lg_routes l"
    and "lg_drivers l' = lg_drivers l"
  shows "owns_global l' = owns_global l" "owns_route l' = owns_route l" "owns_driver l' = owns_driver l"
    "leases_ok l' = leases_ok l"
  by (simp_all add: fun_eq_iff owns_global_def owns_route_def owns_driver_def driver_bound_def leases_ok_def
      find_target_cong [OF assms(1)] assms(2-4))

lemma evidence_keptD:
  assumes "phase_transition_allowed l p q"
  shows "evidence_kept p q" "observation_exact l q"
  using assms by (simp_all add: phase_transition_allowed_def observation_exact_def)

text \<open>The row keeps its phase class and everything the leases refer to.\<close>

lemma live_update_ok:
  assumes ok: "publications_ok sha256_hex column_size l" and p: "p \<in> set (lg_publications l)"
    and parent: "parent_update_allowed p q" and phase: "phase_transition_allowed l p q"
    and check: "publication_check column_size q"
    and live: "pb_phase p \<in> live_phases" "pb_phase q \<in> live_phases"
    and seal: "seal_exact sha256_hex l q"
  shows "publications_ok sha256_hex column_size (put_publication q l)"
proof -
  let ?l = "put_publication q l"
  have id: "pb_publication_id q = pb_publication_id p" using parent by (simp add: parent_update_allowed_def)
  have keys: "distinct (map pb_publication_id (lg_publications l))"
    using publications_okD(1) [OF ok] by (simp add: ledger_keys_def)
  have set_l: "set (lg_publications ?l) =
      insert q {x \<in> set (lg_publications l). pb_publication_id x \<noteq> pb_publication_id q}"
    using put_publication_set [OF p id] .
  have ids: "pb_publication_id ` set (lg_publications ?l) = pb_publication_id ` set (lg_publications l)"
    by (metis put_publication_keys list.set_map)
  have open_p: "pb_phase p \<noteq> PhaseCompleted" "pb_phase p \<noteq> PhaseQuarantined"
      "pb_phase q \<noteq> PhaseCompleted" "pb_phase q \<noteq> PhaseQuarantined"
    using live by (auto simp: live_phases_def)
  have fence: "pb_global_fence_token q = pb_global_fence_token p" using parent by (simp add: parent_update_allowed_def)
  have "leases_ok l p" by (rule publications_okD(8) [OF ok p])
  then have "leases_ok l q"
    using parent open_p by (simp add: leases_ok_def owns_driver_def owns_global_def owns_route_def driver_bound_def
        parent_update_allowed_def Let_def)
  moreover have "target_ok l q"
    using publications_okD(5) [OF ok p] parent by (simp add: target_ok_def parent_update_allowed_def cong: option.case_cong)
  moreover have "records_ok l q"
    using publications_okD(6) [OF ok p] parent by (simp add: records_ok_def parent_update_allowed_def)
  moreover have "publication_evidence_ok sha256_hex column_size l q"
    using check seal evidence_keptD(2) [OF phase] by (simp add: publication_evidence_ok_def)
  moreover have "fences_ok ?l"
  proof -
    have "map (\<lambda>p. sint (pb_global_fence_token p)) (lg_publications ?l) =
        map (\<lambda>p. sint (pb_global_fence_token p)) (lg_publications l)"
      by (rule put_publication_map [OF keys p id]) (simp add: fence)
    then show ?thesis using publications_okD(3) [OF ok] p fence set_l by (auto simp: fences_ok_def)
  qed
  moreover have "global_owned ?l"
    using publications_okD(4) [OF ok] p set_l id open_p by (fastforce simp: global_owned_def)
  moreover have "ledger_keys ?l" "ledger_references ?l"
    using publications_okD(1,2) [OF ok] by (simp_all add: ledger_keys_def ledger_references_def ids)
  ultimately show ?thesis
    using publications_okD(5-8) [OF ok] set_l
    by (auto simp: publications_ok_def publication_frame [of ?l l] lease_frame [of ?l l])
qed

text \<open>The four transitions that only write evidence.\<close>

lemma seal_kept: "pb_seal q = pb_seal p \<Longrightarrow> pb_publication_id q = pb_publication_id p \<Longrightarrow>
    publication_evidence_ok sha256_hex column_size l p \<Longrightarrow> seal_exact sha256_hex l q"
  by (simp add: publication_evidence_ok_def seal_exact_def cong: option.case_cong)

lemma set_publication_ok:
  assumes "publications_ok sha256_hex column_size l" and "authorised now l a = Some p"
    and "set_publication column_size (la_publication_id a) f l = Inr l'"
    and "pb_phase (f p) \<in> live_phases" and "seal_exact sha256_hex l (f p)"
  shows "publications_ok sha256_hex column_size l'"
proof -
  note keys = publications_okD(1) [OF assms(1)]
  note p = authorisedD [OF assms(2) keys]
  have "distinct (map pb_publication_id (lg_publications l))" using keys by (simp add: ledger_keys_def)
  note u = set_publication_put [OF assms(3) this p(1,2)]
  show ?thesis unfolding u(4) by (rule live_update_ok [OF assms(1) p(1) u(1-3) p(3) assms(4,5)])
qed

lemma authorised_seal_kept:
  assumes "publications_ok sha256_hex column_size l" and "authorised now l a = Some p"
    and "pb_seal q = pb_seal p" and "pb_publication_id q = pb_publication_id p"
  shows "seal_exact sha256_hex l q"
  by (rule seal_kept [OF assms(3,4) publications_okD(7) [OF assms(1) authorisedD(1) [OF assms(2) publications_okD(1) [OF assms(1)]]]])

lemma record_prior_ok:
  assumes "publications_ok sha256_hex column_size l"
    and "record_route_set_publication_prior column_size now l a selector dev ino identity = Inr (x, l')"
  shows "publications_ok sha256_hex column_size l'"
proof (cases "l' = l")
  case False
  then obtain p f where p: "authorised now l a = Some p" and f: "f = (\<lambda>p. p\<lparr>pb_prior := Some
      \<lparr>pc_selector = selector, pc_directory_device = dev, pc_directory_inode = ino,
       pc_loaded_identity = identity, pc_recorded_at = now\<rparr>\<rparr>)"
      and u: "set_publication column_size (la_publication_id a) f l = Inr l'"
    using assms(2) by (auto simp: record_route_set_publication_prior_def and_then_Inr
        record_route_set_publication_prior_identity_v1_def split: if_splits option.splits)
  show ?thesis
    using authorisedD(3) [OF p publications_okD(1) [OF assms(1)]]
    by (intro set_publication_ok [OF assms(1) p u] authorised_seal_kept [OF assms(1) p]) (simp_all add: f)
qed (use assms in simp)

lemma start_ok:
  assumes "publications_ok sha256_hex column_size l"
    and "start_route_set_publication column_size now l a = Inr (x, l')"
  shows "publications_ok sha256_hex column_size l'"
proof (cases "l' = l")
  case False
  then obtain p f where p: "authorised now l a = Some p"
      and f: "f = (\<lambda>p. p\<lparr>pb_phase := PhaseStarted, pb_started_at := Some now\<rparr>)"
      and u: "set_publication column_size (la_publication_id a) f l = Inr l'"
    using assms(2) by (auto simp: start_route_set_publication_def and_then_Inr split: if_splits option.splits)
  show ?thesis
    by (intro set_publication_ok [OF assms(1) p u] authorised_seal_kept [OF assms(1) p]) (simp_all add: f live_phases_def)
qed (use assms in simp)

lemma observe_ok:
  assumes "publications_ok sha256_hex column_size l"
    and "observe_route_set_publication column_size now l a selector dev ino identity = Inr (x, l')"
  shows "publications_ok sha256_hex column_size l'"
proof (cases "l' = l")
  case False
  then obtain p f where p: "authorised now l a = Some p" and f: "f = (\<lambda>p. p\<lparr>pb_phase := PhaseObserved,
      pb_observation := Some \<lparr>oc_selector = selector, oc_loaded_identity = identity, oc_observed_at = now\<rparr>\<rparr>)"
      and u: "set_publication column_size (la_publication_id a) f l = Inr l'"
    using assms(2) by (auto simp: observe_route_set_publication_def and_then_Inr split: if_splits option.splits)
  show ?thesis
    by (intro set_publication_ok [OF assms(1) p u] authorised_seal_kept [OF assms(1) p]) (simp_all add: f live_phases_def)
qed (use assms in simp)

lemma seal_ok:
  assumes "publications_ok sha256_hex column_size l"
    and "seal_route_set_publication sha256_hex column_size now l a selector dev ino entries present digest = Inr (x, l')"
  shows "publications_ok sha256_hex column_size l'"
proof (cases "l' = l")
  case False
  then obtain p f where p: "authorised now l a = Some p" and f: "f = (\<lambda>p. p\<lparr>pb_phase := PhaseSealed,
      pb_seal := Some \<lparr>sc_count = sint entries, sc_present_count = sint present, sc_route_set_digest = digest,
        sc_directory_device = dev, sc_directory_inode = ino\<rparr>\<rparr>)"
      and u: "set_publication column_size (la_publication_id a) f l = Inr l'"
      and e: "int (length (records_of l (la_publication_id a))) = sint entries"
        "present_count l (la_publication_id a) = sint present"
        "route_set_publication_digest sha256_hex l (la_publication_id a) = digest"
    using assms(2) by (auto simp: seal_route_set_publication_def and_then_Inr split: if_splits option.splits)
  have "seal_exact sha256_hex l (f p)"
    using e authorisedD(2) [OF p publications_okD(1) [OF assms(1)]] by (simp add: f seal_exact_def)
  then show ?thesis
    by (intro set_publication_ok [OF assms(1) p u]) (simp_all add: f live_phases_def)
qed (use assms in simp)


section \<open>Recording a row\<close>

lemma sort_key_snoc:
  assumes "\<And>y. y \<in> set xs \<Longrightarrow> k y < k x"
  shows "sort_key k (xs @ [x]) = sort_key k xs @ [x]"
proof (rule properties_for_sort_key)
  show "mset (sort_key k xs @ [x]) = mset (xs @ [x])" by simp
  show "filter (\<lambda>y. k z = k y) (sort_key k xs @ [x]) = filter (\<lambda>y. k z = k y) (xs @ [x])" for z
    using sort_key_stable [of k "k z" xs] by (simp add: eq_commute)
  show "sorted (map k (sort_key k xs @ [x]))"
    using assms by (auto simp: sorted_append less_imp_le)
qed

text \<open>The first row of the snapshot that has no record is the one after those that have.\<close>

lemma find_first_unmatched:
  assumes "distinct (map k xs)" and "set ks = set (take n (map k xs))" and "n \<le> length xs"
    and "find (\<lambda>x. k x \<notin> set ks) xs = Some x"
  shows "n < length xs \<and> x = xs ! n"
proof -
  obtain i where i: "i < length xs" "k (xs ! i) \<notin> set ks" "x = xs ! i" "\<forall>j < i. k (xs ! j) \<in> set ks"
    using assms(4) by (auto simp: find_Some_iff)
  have in_iff: "k (xs ! j) \<in> set ks \<longleftrightarrow> j < n" if "j < length xs" for j
    using assms(1) that unfolding assms(2)
    by (auto simp: in_set_conv_nth nth_eq_iff_index_eq [OF assms(1), simplified])
      (metis assms(1) length_map nth_eq_iff_index_eq nth_map order_less_trans)
  have "\<not> i < n" using i(1,2) in_iff by blast
  moreover have "\<not> n < i" using i(1,4) in_iff by (meson less_irrefl less_trans)
  ultimately show ?thesis using i(1,3) by force
qed

lemma snapshot_of_set: "set (snapshot_of l p) = {s \<in> set (lg_snapshot l). sn_publication_id s = p}"
  by (auto simp: snapshot_of_def)

lemma records_of_set: "set (records_of l p) = {r \<in> set (lg_records l). rr_publication_id r = p}"
  by (auto simp: records_of_def)

lemma snapshot_of_sorted:
  "distinct (map sn_workshop_id (snapshot_of l p)) \<Longrightarrow> sorted_wrt (<) (map sn_workshop_id (snapshot_of l p))"
  by (simp add: strict_sorted_iff) (simp add: snapshot_of_def)

lemma has_record_iff: "has_record l p w \<longleftrightarrow> w \<in> set (map rr_workshop_id (records_of l p))"
  by (auto simp: has_record_def records_of_set)

lemma records_ok_workshops:
  assumes "records_ok l p"
  shows "map rr_workshop_id (records_of l (pb_publication_id p)) =
      take (length (records_of l (pb_publication_id p))) (map sn_workshop_id (snapshot_of l (pb_publication_id p)))"
    "length (records_of l (pb_publication_id p)) \<le> length (snapshot_of l (pb_publication_id p))"
proof -
  let ?rs = "records_of l (pb_publication_id p)" and ?ss = "snapshot_of l (pb_publication_id p)"
  have m: "list_all2 record_matches ?rs (take (length ?rs) ?ss)" using assms by (simp add: records_ok_def)
  then have "list_all2 (\<lambda>r s. rr_workshop_id r = sn_workshop_id s) ?rs (take (length ?rs) ?ss)"
    by (rule list_all2_mono) (simp add: record_matches_def)
  then show "map rr_workshop_id ?rs = take (length ?rs) (map sn_workshop_id ?ss)"
    by (simp add: list_all2_map1 list_all2_map2 take_map flip: list.rel_eq)
  show "length ?rs \<le> length ?ss" using list_all2_lengthD [OF m] by simp
qed

lemma next_expected_row:
  assumes "records_ok l p" and "next_expected l (pb_publication_id p) = Some w"
  shows "length (records_of l (pb_publication_id p)) < length (snapshot_of l (pb_publication_id p)) \<and>
    w = sn_workshop_id (snapshot_of l (pb_publication_id p) ! length (records_of l (pb_publication_id p)))"
proof -
  let ?rs = "records_of l (pb_publication_id p)" and ?ss = "snapshot_of l (pb_publication_id p)"
  obtain s where s: "find (\<lambda>s. sn_workshop_id s \<notin> set (map rr_workshop_id ?rs)) ?ss = Some s"
      "w = sn_workshop_id s"
    using assms(2) by (auto simp: next_expected_def has_record_iff)
  have "set (map rr_workshop_id ?rs) = set (take (length ?rs) (map sn_workshop_id ?ss))"
    using records_ok_workshops(1) [OF assms(1)] by simp
  then show ?thesis
    using find_first_unmatched [of sn_workshop_id ?ss "map rr_workshop_id ?rs" "length ?rs" s]
      records_ok_workshops(2) [OF assms(1)] assms(1) s by (simp add: records_ok_def)
qed

lemma records_of_snoc_other:
  "rr_publication_id r \<noteq> p \<Longrightarrow> records_of (l\<lparr>lg_records := lg_records l @ [r]\<rparr>) p = records_of l p"
  by (simp add: records_of_def)

lemma records_of_snoc:
  assumes ok: "records_ok l p" and n: "next_expected l (pb_publication_id p) = Some (rr_workshop_id r)"
    and r: "rr_publication_id r = pb_publication_id p"
  shows "records_of (l\<lparr>lg_records := lg_records l @ [r]\<rparr>) (pb_publication_id p) =
    records_of l (pb_publication_id p) @ [r]"
proof -
  let ?rs = "records_of l (pb_publication_id p)" and ?ss = "snapshot_of l (pb_publication_id p)"
  have e: "length ?rs < length ?ss" "rr_workshop_id r = map sn_workshop_id ?ss ! length ?rs"
    using next_expected_row [OF ok n] by auto
  have sorted: "sorted_wrt (<) (map sn_workshop_id ?ss)"
    using ok by (intro snapshot_of_sorted) (simp add: records_ok_def)
  have "rr_workshop_id y < rr_workshop_id r" if "y \<in> set ?rs" for y
  proof -
    have "rr_workshop_id y \<in> set (take (length ?rs) (map sn_workshop_id ?ss))"
      using that records_ok_workshops(1) [OF ok] by (metis image_eqI list.set_map)
    then obtain i where "i < length ?rs" "rr_workshop_id y = map sn_workshop_id ?ss ! i"
      by (auto simp: in_set_conv_nth)
    then show ?thesis using sorted_wrt_nth_less [OF sorted, of i "length ?rs"] e by simp
  qed
  then have "sort_key rr_workshop_id (filter (\<lambda>x. rr_publication_id x = pb_publication_id p) (lg_records l) @ [r]) =
      sort_key rr_workshop_id (filter (\<lambda>x. rr_publication_id x = pb_publication_id p) (lg_records l)) @ [r]"
    by (intro sort_key_snoc) (auto simp: records_of_set)
  then show ?thesis using r by (simp add: records_of_def)
qed

lemma recorded_row_matches:
  assumes ok: "records_ok l p" and n: "next_expected l (pb_publication_id p) = Some (rr_workshop_id r)"
    and s: "s \<in> set (lg_snapshot l)" "sn_publication_id s = pb_publication_id p" and m: "record_matches r s"
  shows "s = snapshot_of l (pb_publication_id p) ! length (records_of l (pb_publication_id p))"
proof -
  let ?rs = "records_of l (pb_publication_id p)" and ?ss = "snapshot_of l (pb_publication_id p)"
  have e: "length ?rs < length ?ss" "rr_workshop_id r = sn_workshop_id (?ss ! length ?rs)"
    using next_expected_row [OF ok n] by auto
  have "s \<in> set ?ss" using s by (simp add: snapshot_of_set)
  moreover have "sn_workshop_id s = sn_workshop_id (?ss ! length ?rs)" using m e(2) by (simp add: record_matches_def)
  moreover have "distinct (map sn_workshop_id ?ss)" using ok by (simp add: records_ok_def)
  ultimately show ?thesis using e(1) by (metis distinct_key_unique nth_mem)
qed

lemma records_ok_snoc:
  assumes ok: "records_ok l p" and n: "next_expected l (pb_publication_id p) = Some (rr_workshop_id r)"
    and r: "rr_publication_id r = pb_publication_id p"
    and s: "s \<in> set (lg_snapshot l)" "sn_publication_id s = pb_publication_id p" and m: "record_matches r s"
  shows "records_ok (l\<lparr>lg_records := lg_records l @ [r]\<rparr>) p"
proof -
  let ?rs = "records_of l (pb_publication_id p)" and ?ss = "snapshot_of l (pb_publication_id p)"
  have "length ?rs < length ?ss" using next_expected_row [OF ok n] by simp
  then have "take (Suc (length ?rs)) ?ss = take (length ?rs) ?ss @ [s]"
    using recorded_row_matches [OF ok n s m] by (simp add: take_Suc_conv_app_nth)
  moreover have "list_all2 record_matches ?rs (take (length ?rs) ?ss)" using ok by (simp add: records_ok_def)
  ultimately show ?thesis
    using ok m unfolding records_ok_def records_of_snoc [OF ok n r]
    by (simp add: snapshot_of_cong [of "l\<lparr>lg_records := lg_records l @ [r]\<rparr>" l] list_all2_appendI)
qed

lemma staging_unsealed:
  assumes "publication_evidence_ok sha256_hex column_size l p" and "pb_phase p = PhaseStaging"
  shows "pb_seal p = None" "pb_observation p = None"
  using assms by (auto simp: publication_evidence_ok_def publication_check_def phase_evidence_def split: option.splits)

lemma record_entry_change:
  assumes "record_route_set_publication_entry now l a w generation digest disposition applied rendered = Inr (x, l')"
    and "l' \<noteq> l"
  obtains p s r where "authorised now l a = Some p" "pb_phase p = PhaseStaging" "pb_prior p \<noteq> None"
    "next_expected l (la_publication_id a) = Some (rr_workshop_id r)" "rr_publication_id r = la_publication_id a"
    "s \<in> set (lg_snapshot l)" "sn_publication_id s = la_publication_id a" "record_matches r s"
    "l' = l\<lparr>lg_records := lg_records l @ [r]\<rparr>"
proof -
  let ?r = "\<lparr>rr_publication_id = la_publication_id a, rr_workshop_id = w, rr_generation = generation,
    rr_projection_digest = digest, rr_disposition = disposition, rr_applied_rendered_digest = applied,
    rr_rendered_digest = rendered\<rparr>"
  let ?m = "\<lambda>s. sn_publication_id s = la_publication_id a \<and> sn_workshop_id s = w \<and>
    sn_generation s = generation \<and> sn_projection_digest s = digest \<and> sn_disposition s = disposition \<and>
    sql_eq (map_option ah_rendered_digest (sn_baseline s)) applied"
  obtain p s where p: "authorised now l a = Some p" "pb_phase p = PhaseStaging" "pb_prior p \<noteq> None"
      "next_expected l (la_publication_id a) = Some w"
    and s: "find ?m (lg_snapshot l) = Some s"
    and t: "sn_is_target s \<or> \<not> sql_ne (Some rendered) (map_option ah_rendered_digest (sn_baseline s))"
    and r: "record_row_check ?r" "l' = l\<lparr>lg_records := lg_records l @ [?r]\<rparr>"
    using assms by (auto simp: record_route_set_publication_entry_def Let_def split: if_splits option.splits)
  have s': "s \<in> set (lg_snapshot l)" "?m s" using find_SomeD [OF s] by blast+
  have "record_matches ?r s"
    using s'(2) t r(1) by (auto simp: record_matches_def sql_eq_def sql_ne_def)
  then show ?thesis using that [of p ?r s] p s' r(2) by simp
qed

lemma record_entry_ok:
  assumes ok: "publications_ok sha256_hex column_size l"
    and "record_route_set_publication_entry now l a w generation digest disposition applied rendered = Inr (x, l')"
  shows "publications_ok sha256_hex column_size l'"
proof (cases "l' = l")
  case False
  obtain p s r where p: "authorised now l a = Some p" "pb_phase p = PhaseStaging"
    and r: "next_expected l (la_publication_id a) = Some (rr_workshop_id r)"
      "rr_publication_id r = la_publication_id a" "s \<in> set (lg_snapshot l)"
      "sn_publication_id s = la_publication_id a" "record_matches r s"
    and l': "l' = l\<lparr>lg_records := lg_records l @ [r]\<rparr>"
    using record_entry_change [OF assms(2) False] by metis
  note keys = publications_okD(1) [OF ok]
  note a = authorisedD [OF p(1) keys]
  have rec: "records_ok l' q \<and> seal_exact sha256_hex l' q" if q: "q \<in> set (lg_publications l)" for q
  proof (cases "pb_publication_id q = la_publication_id a")
    case True
    then have "q = p" using q a(1,2) keys by (metis distinct_key_unique ledger_keys_def)
    have "seal_exact sha256_hex l' p"
      using staging_unsealed(1) [OF publications_okD(7) [OF ok a(1)] p(2)] by (simp add: seal_exact_def)
    moreover have "records_ok l' p"
      unfolding l' using r by (intro records_ok_snoc [OF publications_okD(6) [OF ok a(1)]]) (simp_all add: a(2))
    ultimately show ?thesis by (simp add: \<open>q = p\<close>)
  next
    case False
    then have "records_of l' (pb_publication_id q) = records_of l (pb_publication_id q)"
      unfolding l' using r(2) by (intro records_of_snoc_other) simp
    moreover have "snapshot_of l' = snapshot_of l" unfolding l' by (intro snapshot_of_cong) simp
    ultimately show ?thesis
      using publications_okD(6,7) [OF ok q] by (simp add: records_ok_def publication_evidence_ok_def seal_exact_def present_count_def
          route_set_publication_digest_def cong: option.case_cong)
  qed
  have t: "find_target l' = find_target l" unfolding l' by (intro find_target_cong) simp
  have "leases_ok l' = leases_ok l" unfolding l' by (intro lease_frame(4)) simp_all
  moreover have "target_ok l' = target_ok l" "observation_exact l' = observation_exact l"
    by (simp_all add: fun_eq_iff target_ok_def observation_exact_def t cong: option.case_cong)
  moreover have "ledger_keys l'" "fences_ok l'" "global_owned l'"
    using publications_okD(1,3,4) [OF ok] by (simp_all add: l' ledger_keys_def fences_ok_def global_owned_def)
  moreover have "ledger_references l'"
    using publications_okD(2) [OF ok] r(2) imageI [OF a(1), of pb_publication_id] by (simp add: l' ledger_references_def a(2))
  moreover have "lg_publications l' = lg_publications l" by (simp add: l')
  ultimately show ?thesis
    using publications_okD(5,7,8) [OF ok] rec by (simp add: publications_ok_def publication_evidence_ok_def)
qed (use assms in simp)


section \<open>Extending leases\<close>

definition leases_extended :: "ledger \<Rightarrow> ledger \<Rightarrow> bool" where
  "leases_extended l l' \<longleftrightarrow>
     (\<exists>e f h. lg_global l' = (lg_global l)\<lparr>gl_lease_expires_at := e\<rparr> \<and>
        lg_routes l' = map (\<lambda>r. r\<lparr>rl_lease_expires_at := f r\<rparr>) (lg_routes l) \<and>
        lg_drivers l' = map (\<lambda>d. d\<lparr>dr_lease_expires_at := h d\<rparr>) (lg_drivers l)) \<and>
     lg_states l' = lg_states l \<and> lg_projections l' = lg_projections l \<and>
     lg_publications l' = lg_publications l \<and> lg_targets l' = lg_targets l \<and> lg_snapshot l' = lg_snapshot l \<and>
     lg_records l' = lg_records l"

lemma extended_ok:
  assumes ok: "publications_ok sha256_hex column_size l" and "leases_extended l l'"
  shows "publications_ok sha256_hex column_size l'"
proof -
  obtain e f h where g: "lg_global l' = (lg_global l)\<lparr>gl_lease_expires_at := e\<rparr>"
    and r: "lg_routes l' = map (\<lambda>r. r\<lparr>rl_lease_expires_at := f r\<rparr>) (lg_routes l)"
    and d: "lg_drivers l' = map (\<lambda>d. d\<lparr>dr_lease_expires_at := h d\<rparr>) (lg_drivers l)"
    and same: "lg_states l' = lg_states l" "lg_projections l' = lg_projections l"
      "lg_publications l' = lg_publications l" "lg_targets l' = lg_targets l" "lg_snapshot l' = lg_snapshot l"
      "lg_records l' = lg_records l"
    using assms(2) by (auto simp: leases_extended_def)
  note t = find_target_cong [OF same(4)]
  have "leases_ok l' = leases_ok l"
    by (simp add: fun_eq_iff leases_ok_def owns_global_def owns_route_def owns_driver_def driver_bound_def t g r d Let_def)
  then show ?thesis
    using ok by (simp add: publications_ok_def publication_frame [OF same(4-6)] same ledger_keys_def ledger_references_def
        fences_ok_def global_owned_def g r d comp_def)
qed

lemma extended_refl: "leases_extended l l"
  unfolding leases_extended_def
  by (auto intro!: exI [of _ "gl_lease_expires_at (lg_global l)"] exI [of _ rl_lease_expires_at]
      exI [of _ dr_lease_expires_at])

lemma extended_trans:
  assumes "leases_extended l l1" and "leases_extended l1 l2" shows "leases_extended l l2"
proof -
  obtain e f h where 1: "lg_global l1 = (lg_global l)\<lparr>gl_lease_expires_at := e\<rparr>"
    "lg_routes l1 = map (\<lambda>r. r\<lparr>rl_lease_expires_at := f r\<rparr>) (lg_routes l)"
    "lg_drivers l1 = map (\<lambda>d. d\<lparr>dr_lease_expires_at := h d\<rparr>) (lg_drivers l)"
    using assms(1) by (auto simp: leases_extended_def)
  obtain e' f' h' where 2: "lg_global l2 = (lg_global l1)\<lparr>gl_lease_expires_at := e'\<rparr>"
    "lg_routes l2 = map (\<lambda>r. r\<lparr>rl_lease_expires_at := f' r\<rparr>) (lg_routes l1)"
    "lg_drivers l2 = map (\<lambda>d. d\<lparr>dr_lease_expires_at := h' d\<rparr>) (lg_drivers l1)"
    using assms(2) by (auto simp: leases_extended_def)
  have "lg_global l2 = (lg_global l)\<lparr>gl_lease_expires_at := e'\<rparr>"
    "lg_routes l2 = map (\<lambda>r. r\<lparr>rl_lease_expires_at := f' (r\<lparr>rl_lease_expires_at := f r\<rparr>)\<rparr>) (lg_routes l)"
    "lg_drivers l2 = map (\<lambda>d. d\<lparr>dr_lease_expires_at := h' (d\<lparr>dr_lease_expires_at := h d\<rparr>)\<rparr>) (lg_drivers l)"
    using 1 2 by simp_all
  then show ?thesis using assms by (auto simp: leases_extended_def)
qed

lemma extended_drivers:
  "update_drivers c (\<lambda>d. d\<lparr>dr_lease_expires_at := Some e\<rparr>) l = (n, l') \<Longrightarrow> leases_extended l l'"
  unfolding leases_extended_def update_drivers_def update_where_def
  by (auto intro!: exI [of _ "gl_lease_expires_at (lg_global l)"] exI [of _ rl_lease_expires_at]
      exI [of _ "\<lambda>d. if c d then Some e else dr_lease_expires_at d"])

lemma extended_effects:
  "update_effects c f l = (n, l') \<Longrightarrow> leases_extended l l'"
  unfolding leases_extended_def update_effects_def update_where_def
  by (auto intro!: exI [of _ "gl_lease_expires_at (lg_global l)"] exI [of _ rl_lease_expires_at]
      exI [of _ dr_lease_expires_at])

lemma extended_global:
  assumes "update_global c (\<lambda>g. g\<lparr>gl_lease_expires_at := Some e\<rparr>) l = (n, l')"
    and "\<And>g. c g \<Longrightarrow> gl_state g = LeaseHeld \<and> gl_publication_id g \<noteq> None"
  shows "leases_extended l l'"
proof (cases "c (lg_global l)")
  case True
  then have "l' = l\<lparr>lg_global := (lg_global l)\<lparr>gl_lease_expires_at := Some e\<rparr>\<rparr>"
    using assms by (auto simp: update_global_def normalize_global_route_authority_def)
  then show ?thesis unfolding leases_extended_def
    by (auto intro!: exI [of _ rl_lease_expires_at] exI [of _ dr_lease_expires_at])
next
  case False
  then show ?thesis using assms(1) by (simp add: update_global_def extended_refl)
qed

lemma extended_routes:
  assumes "update_routes c (\<lambda>r. r\<lparr>rl_lease_expires_at := Some e\<rparr>) l = Inr (n, l')"
    and "\<And>r. c r \<Longrightarrow> rl_state r = LeaseHeld \<and> rl_publication_id r \<noteq> None"
  shows "leases_extended l l'"
proof -
  have "(if c r then normalize_workshop_route_authority (r\<lparr>rl_lease_expires_at := Some e\<rparr>) else r) =
      r\<lparr>rl_lease_expires_at := if c r then Some e else rl_lease_expires_at r\<rparr>" for r
    using assms(2) [of r] by (auto simp: normalize_workshop_route_authority_def)
  then show ?thesis using assms(1) unfolding leases_extended_def update_routes_def update_where_def
    by (auto intro!: exI [of _ "gl_lease_expires_at (lg_global l)"] exI [of _ dr_lease_expires_at]
        exI [of _ "\<lambda>r. if c r then Some e else rl_lease_expires_at r"] split: if_splits)
qed

lemma renew_extends:
  assumes "renew_route_set_publication now l a ttl = Inr (b, l')"
  shows "leases_extended l l'"
proof (cases "60 \<le> sint ttl \<and> sint ttl \<le> 1200 \<and> authorised now l a \<noteq> None")
  case False
  then show ?thesis using assms
    by (auto simp: renew_route_set_publication_def extended_refl split: option.splits)
next
  case True
  then obtain p where p: "authorised now l a = Some p" by auto
  let ?e = "now + seconds (sint ttl)"
  obtain n l1 where 1: "(if pb_driver_operation_id p \<noteq> None then
         update_drivers (\<lambda>d. Some (dr_id d) = pb_driver_operation_id p \<and> dr_state d = DriverInProgress \<and>
             dr_execution_token d = Some (la_execution_token a) \<and> unexpired (dr_lease_expires_at d) now)
           (\<lambda>d. d\<lparr>dr_lease_expires_at := Some ?e\<rparr>) l
       else
         update_effects (\<lambda>e. Some (ef_id e) = pb_recovery_effect_run_id p \<and>
             ef_state e = recovery_effect_state (pb_kind p) \<and> ef_instance_owner e = Some (la_instance_owner a) \<and>
             ef_execution_token e = Some (la_execution_token a) \<and>
             ef_route_lease_token e = Some (la_route_lease_token a) \<and> unexpired (ef_lease_expires_at e) now)
           (\<lambda>e. e\<lparr>ef_lease_expires_at := Some ?e\<rparr>) l) = (n, l1)" (is "?owners = _") by force
  have x1: "leases_extended l l1" using 1 by (auto split: if_splits intro: extended_drivers extended_effects)
  obtain m l2 where 2: "update_global (\<lambda>g. gl_state g = LeaseHeld \<and> gl_authority_kind g = route_set_authority \<and>
         gl_publication_id g = Some (la_publication_id a) \<and> gl_lease_token g = Some (la_global_lease_token a) \<and>
         gl_fence_token g = la_global_fence_token a)
       (\<lambda>g. g\<lparr>gl_lease_expires_at := Some ?e\<rparr>) l1 = (m, l2)" by force
  have x2: "leases_extended l l2" by (rule extended_trans [OF x1 extended_global [OF 2]]) auto
  consider "l' = l1" | "l' = l2" | c k where "update_routes c (\<lambda>r. r\<lparr>rl_lease_expires_at := Some ?e\<rparr>) l2 = Inr (k, l')"
      "\<And>r. c r \<Longrightarrow> rl_state r = LeaseHeld \<and> rl_publication_id r \<noteq> None"
    using assms True p 1 2 by (simp add: renew_route_set_publication_def Let_def and_then_Inr split: if_splits) fastforce+
  then show ?thesis
    by cases (use x1 x2 extended_trans [OF x2 extended_routes] in auto)
qed

lemma renew_ok:
  "publications_ok sha256_hex column_size l \<Longrightarrow> renew_route_set_publication now l a ttl = Inr (b, l') \<Longrightarrow>
   publications_ok sha256_hex column_size l'"
  by (rule extended_ok [OF _ renew_extends])

section \<open>The rest of the system\<close>

lemma environment_ok:
  assumes ok: "publications_ok sha256_hex column_size l" and env: "environment_change l l'"
  shows "publications_ok sha256_hex column_size l'"
proof -
  have same: "lg_targets l' = lg_targets l" "lg_snapshot l' = lg_snapshot l" "lg_records l' = lg_records l"
      "lg_publications l' = lg_publications l" and keys: "ledger_keys l'"
    using env by (simp_all add: environment_change_def)
  have routes: "r \<in> set (lg_routes l')" if "r \<in> set (lg_routes l)" "rl_authority_kind r = route_set_authority" for r
    using env that by (auto simp: environment_change_def)
  have drivers: "d \<in> set (lg_drivers l')" if "d \<in> set (lg_drivers l)" "p \<in> set (lg_publications l)"
      "pb_driver_operation_id p = Some (dr_id d)" for d p
    using env that unfolding environment_change_def by (metis image_eqI)
  note t = find_target_cong [OF same(1)]
  have "leases_ok l' p" if p: "p \<in> set (lg_publications l)" for p
  proof -
    have o: "leases_ok l p" by (rule publications_okD(8) [OF ok p])
    then have "owns_driver l' p" using drivers p unfolding leases_ok_def owns_driver_def driver_bound_def t by blast
    moreover have "owns_global l' p \<and> owns_route l' p" if "pb_phase p \<noteq> PhaseCompleted"
    proof -
      have g: "owns_global l p" and r: "owns_route l p" using o that by (simp_all add: leases_ok_def)
      from g have "lg_global l' = lg_global l" using env by (simp add: owns_global_def environment_change_def Let_def)
      with g r show ?thesis using routes unfolding owns_global_def owns_route_def t by auto
    qed
    ultimately show ?thesis by (simp add: leases_ok_def)
  qed
  moreover have "fences_ok l'" "global_owned l'"
    using publications_okD(3,4) [OF ok] env by (auto simp: fences_ok_def global_owned_def environment_change_def same split: if_splits)
  ultimately show ?thesis
    using ok keys by (simp add: publications_ok_def publication_frame [OF same(1-3)] same ledger_references_def)
qed

section \<open>Closing a publication\<close>

text \<open>Open publications own the shared runtime, so there is at most one.\<close>

lemma open_unique:
  assumes "publications_ok sha256_hex column_size l" and "p \<in> set (lg_publications l)" and "q \<in> set (lg_publications l)"
    and "pb_phase p \<noteq> PhaseCompleted" and "pb_phase q \<noteq> PhaseCompleted"
  shows "p = q"
proof -
  have "owns_global l p" "owns_global l q"
    using publications_okD(8) [OF assms(1)] assms(2-5) by (simp_all add: leases_ok_def)
  then have "pb_publication_id p = pb_publication_id q" by (simp add: owns_global_def Let_def)
  then show ?thesis
    using assms(2,3) publications_okD(1) [OF assms(1)] by (metis distinct_key_unique ledger_keys_def)
qed

lemma publication_identity_simps:
  assumes "parent_update_allowed p q"
  shows "pb_publication_id q = pb_publication_id p" "pb_target_workshop_id q = pb_target_workshop_id p"
    "pb_kind q = pb_kind p" "pb_driver_operation_id q = pb_driver_operation_id p"
    "pb_global_fence_token q = pb_global_fence_token p" "pb_snapshot_count q = pb_snapshot_count p"
    "pb_instance_owner q = pb_instance_owner p"
  using assms by (simp_all add: parent_update_allowed_def)

lemma closing_update_ok:
  assumes ok: "publications_ok sha256_hex column_size l" and p: "p \<in> set (lg_publications l)" "pb_phase p \<in> live_phases"
    and parent: "parent_update_allowed p q" and phase: "phase_transition_allowed l0 p q"
    and check: "publication_check column_size q" and seal: "pb_seal q = pb_seal p"
    and pubs: "lg_publications l' = lg_publications (put_publication q l)"
    and same: "lg_targets l0 = lg_targets l" "lg_targets l' = lg_targets l" "lg_snapshot l' = lg_snapshot l"
      "lg_records l' = lg_records l"
    and keys: "ledger_keys l'" and fence: "gl_fence_token (lg_global l') = gl_fence_token (lg_global l)"
    and drivers: "\<And>d. d \<in> set (lg_drivers l) \<Longrightarrow> dr_state d \<noteq> DriverInProgress \<Longrightarrow> d \<in> set (lg_drivers l')"
    and leases: "leases_ok l' q" and owned: "global_owned l'"
  shows "publications_ok sha256_hex column_size l'"
proof -
  note id = publication_identity_simps [OF parent]
  have set_l: "set (lg_publications l') =
      insert q {x \<in> set (lg_publications l). pb_publication_id x \<noteq> pb_publication_id q}"
    unfolding pubs by (rule put_publication_set [OF p(1) id(1)])
  have ids: "pb_publication_id ` set (lg_publications l') = pb_publication_id ` set (lg_publications l)"
    unfolding pubs by (metis put_publication_keys list.set_map)
  have distinct: "distinct (map pb_publication_id (lg_publications l))"
    using publications_okD(1) [OF ok] by (simp add: ledger_keys_def)
  have fences: "fences_ok l'"
  proof -
    have "map (\<lambda>p. sint (pb_global_fence_token p)) (lg_publications l') =
        map (\<lambda>p. sint (pb_global_fence_token p)) (lg_publications l)"
      unfolding pubs by (rule put_publication_map [OF distinct p(1) id(1)]) (simp add: id)
    then show ?thesis using publications_okD(3) [OF ok] p(1) id(5) set_l fence by (auto simp: fences_ok_def)
  qed
  have t: "find_target l0 = find_target l" "find_target l' = find_target l"
    by (rule find_target_cong [OF same(1)], rule find_target_cong [OF same(2)])
  have q: "target_ok l q \<and> records_ok l q \<and> publication_evidence_ok sha256_hex column_size l q"
  proof -
    have "target_ok l q" using publications_okD(5) [OF ok p(1)] by (simp add: target_ok_def id cong: option.case_cong)
    moreover have "records_ok l q" using publications_okD(6) [OF ok p(1)] by (simp add: records_ok_def id)
    moreover have "observation_exact l q"
      using evidence_keptD(2) [OF phase] by (simp add: observation_exact_def t cong: option.case_cong)
    ultimately show ?thesis
      using check seal_kept [OF seal id(1) publications_okD(7) [OF ok p(1)]] by (simp add: publication_evidence_ok_def)
  qed
  have "leases_ok l' x" if x: "x \<in> set (lg_publications l)" "pb_publication_id x \<noteq> pb_publication_id q" for x
  proof -
    have "pb_phase p \<noteq> PhaseCompleted" using p(2) by (auto simp: live_phases_def)
    then have "pb_phase x = PhaseCompleted" using open_unique [OF ok x(1) p(1)] x(2) id(1) by metis
    then show ?thesis
      using publications_okD(8) [OF ok x(1)] drivers unfolding leases_ok_def owns_driver_def driver_bound_def t by force
  qed
  with q leases fences owned keys show ?thesis
    using publications_okD(2,5-7) [OF ok] unfolding publications_ok_def publication_frame [OF same(2-4)] set_l
    by (auto simp: ledger_references_def ids same)
qed

lemma map_if_mem: "x \<in> set xs \<Longrightarrow> c x \<Longrightarrow> f x \<in> set (map (\<lambda>x. if c x then f x else x) xs)"
  and map_if_other: "x \<in> set xs \<Longrightarrow> \<not> c x \<Longrightarrow> x \<in> set (map (\<lambda>x. if c x then f x else x) xs)"
  by auto

lemma original_authorityD:
  assumes "original_authority p a"
  shows "pb_instance_owner p = la_instance_owner a" "pb_execution_token p = la_execution_token a"
    "pb_global_lease_token p = la_global_lease_token a" "pb_route_lease_token p = la_route_lease_token a"
    "pb_global_fence_token p = la_global_fence_token a"
  using assms by (simp_all add: original_authority_def)

text \<open>The state after the four updates of a quarantine.\<close>

definition quarantined_row :: "int \<Rightarrow> str \<Rightarrow> publication_row \<Rightarrow> publication_row" where
  "quarantined_row now safe_error p = p\<lparr>pb_interrupted_phase := Some (pb_phase p), pb_phase := PhaseQuarantined,
     pb_quarantined_at := Some now, pb_safe_error := Some safe_error\<rparr>"

definition quarantined_ledger :: "int \<Rightarrow> uuid \<Rightarrow> publication_row \<Rightarrow> target_row \<Rightarrow> ledger \<Rightarrow> ledger" where
  "quarantined_ledger now i p t l = l\<lparr>
     lg_global := (lg_global l)\<lparr>gl_state := LeaseQuarantined, gl_lease_token := None, gl_lease_expires_at := None,
       gl_quarantined_at := Some now, gl_safe_error := Some ''runtime_outcome_unknown''\<rparr>,
     lg_routes := map (\<lambda>r. if rl_workshop_id r = tg_workshop_id t \<and> rl_publication_id r = Some i
       then r\<lparr>rl_state := LeaseQuarantined, rl_lease_token := None, rl_lease_expires_at := None,
              rl_quarantined_at := Some now, rl_safe_error := Some UNKNOWN_OUTCOME\<rparr> else r) (lg_routes l),
     lg_drivers := map (\<lambda>d. if Some (dr_id d) = pb_driver_operation_id p \<and> dr_state d = DriverInProgress
       then d\<lparr>dr_safe_error := Some ''runtime_outcome_unknown'', dr_execution_token := None,
              dr_lease_expires_at := None\<rparr> else d) (lg_drivers l)\<rparr>"

lemma quarantined_ledger_simps [simp]:
  "lg_publications (quarantined_ledger now i p t l) = lg_publications l"
  "lg_targets (quarantined_ledger now i p t l) = lg_targets l"
  "lg_snapshot (quarantined_ledger now i p t l) = lg_snapshot l"
  "lg_records (quarantined_ledger now i p t l) = lg_records l"
  "lg_states (quarantined_ledger now i p t l) = lg_states l"
  "lg_projections (quarantined_ledger now i p t l) = lg_projections l"
  by (simp_all add: quarantined_ledger_def)

lemma normalize_route_owned:
  "rl_publication_id r \<noteq> None \<Longrightarrow> rl_state r \<notin> {LeaseIdle, LeaseUninitialized} \<Longrightarrow>
   normalize_workshop_route_authority r = r"
  by (auto simp: normalize_workshop_route_authority_def)

lemma normalize_global_owned:
  "gl_publication_id g \<noteq> None \<Longrightarrow> gl_state g \<noteq> LeaseIdle \<Longrightarrow> normalize_global_route_authority g = g"
  by (auto simp: normalize_global_route_authority_def)

text \<open>An update of rows that stay owned by a publication meets no normalization.\<close>

lemma update_routes_owned:
  assumes "\<And>r. c r \<Longrightarrow> rl_publication_id (f r) \<noteq> None \<and> rl_state (f r) \<notin> {LeaseIdle, LeaseUninitialized}"
  shows "update_routes c f l = Inr (n, l') \<longleftrightarrow>
    \<not> list_ex (\<lambda>r. c r \<and> maintenance_stolen l r (f r)) (lg_routes l) \<and> n = length (filter c (lg_routes l)) \<and>
    l' = l\<lparr>lg_routes := map (\<lambda>r. if c r then f r else r) (lg_routes l)\<rparr>"
proof -
  have "(\<lambda>r. if c r then normalize_workshop_route_authority (f r) else r) = (\<lambda>r. if c r then f r else r)"
    using assms by (auto simp: fun_eq_iff normalize_route_owned)
  then show ?thesis by (auto simp: update_routes_def update_where_def)
qed

lemma update_global_owned:
  assumes "gl_publication_id (f (lg_global l)) \<noteq> None" and "gl_state (f (lg_global l)) \<noteq> LeaseIdle"
  shows "update_global c f l = (if c (lg_global l) then (1, l\<lparr>lg_global := f (lg_global l)\<rparr>) else (0, l))"
  using assms by (simp add: update_global_def normalize_global_owned)

lemma quarantine_updates_Inr:
  assumes "quarantine_updates column_size now l a p t safe_error = Inr l'"
    and "gl_publication_id (lg_global l) = Some (la_publication_id a)"
  shows "set_publication column_size (la_publication_id a) (quarantined_row now safe_error)
    (quarantined_ledger now (la_publication_id a) p t l) = Inr l'"
proof -
  let ?g = "l\<lparr>lg_global := (lg_global l)\<lparr>gl_state := LeaseQuarantined, gl_lease_token := None,
      gl_lease_expires_at := None, gl_quarantined_at := Some now,
      gl_safe_error := Some ''runtime_outcome_unknown''\<rparr>\<rparr>"
  let ?c = "\<lambda>r. rl_workshop_id r = tg_workshop_id t \<and> rl_publication_id r = Some (la_publication_id a)"
  let ?f = "\<lambda>r. r\<lparr>rl_state := LeaseQuarantined, rl_lease_token := None, rl_lease_expires_at := None,
      rl_quarantined_at := Some now, rl_safe_error := Some UNKNOWN_OUTCOME\<rparr>"
  obtain n l2 where 2: "update_routes ?c ?f ?g = Inr (n, l2)"
    and 3: "set_publication column_size (la_publication_id a) (quarantined_row now safe_error)
      (l2\<lparr>lg_drivers := map (\<lambda>d. if Some (dr_id d) = pb_driver_operation_id p \<and> dr_state d = DriverInProgress
       then d\<lparr>dr_safe_error := Some ''runtime_outcome_unknown'', dr_execution_token := None,
              dr_lease_expires_at := None\<rparr> else d) (lg_drivers l2)\<rparr>) = Inr l'"
    using assms(1) unfolding quarantine_updates_def
    by (auto simp: update_global_owned assms(2) Let_def update_drivers_def update_where_def
        and_then_Inr ensure_Inr quarantined_row_def [abs_def])
  have "update_routes ?c ?f ?g = Inr (n, l2) \<longleftrightarrow>
      \<not> list_ex (\<lambda>r. ?c r \<and> maintenance_stolen ?g r (?f r)) (lg_routes ?g) \<and> n = length (filter ?c (lg_routes ?g)) \<and>
      l2 = ?g\<lparr>lg_routes := map (\<lambda>r. if ?c r then ?f r else r) (lg_routes ?g)\<rparr>"
    by (rule update_routes_owned) simp
  with 2 have "l2 = ?g\<lparr>lg_routes := map (\<lambda>r. if ?c r then ?f r else r) (lg_routes ?g)\<rparr>" by blast
  with 3 show ?thesis by (simp add: quarantined_ledger_def)
qed

lemma quarantine_change:
  assumes "quarantine_route_set_publication column_size now l a safe_error = Inr (x, l')" and "l' \<noteq> l"
  obtains p t where "find_publication l (la_publication_id a) = Some p" "find_target l (la_publication_id a) = Some t"
    "original_authority p a" "tg_route_fence_token t = la_target_route_fence_token a" "pb_phase p \<in> live_phases"
    "quarantine_authority a t (lg_global l) (find_route_lease l (Some (tg_workshop_id t)))
       (find_driver l (pb_driver_operation_id p))"
    "safe_error = UNKNOWN_OUTCOME"
    "pb_phase p \<in> {PhaseStaging, PhaseSealed} \<Longrightarrow> some_lease_expired now (find_operation l (pb_control_operation_id p))
       (find_driver l (pb_driver_operation_id p)) (lg_global l) (find_route_lease l (Some (tg_workshop_id t)))"
    "quarantine_updates column_size now l a p t safe_error = Inr l'"
  using assms
  by (auto simp: quarantine_route_set_publication_def Let_def and_then_Inr split: if_splits option.splits)

lemma quarantined_leases:
  assumes ok: "publications_ok sha256_hex column_size l" and p: "p \<in> set (lg_publications l)" "pb_phase p \<in> live_phases"
    and t: "find_target l (pb_publication_id p) = Some t"
    and l1: "l1 = quarantined_ledger now (pb_publication_id p) p t l"
  shows "leases_ok l1 (quarantined_row now e p)"
proof -
  have live: "pb_phase p \<noteq> PhaseCompleted" "pb_phase p \<noteq> PhaseQuarantined" using p(2) by (auto simp: live_phases_def)
  have o: "owns_driver l p" "owns_global l p" "owns_route l p"
    using publications_okD(8) [OF ok p(1)] live by (simp_all add: leases_ok_def)
  have tf: "find_target l1 = find_target l" unfolding l1 by (rule find_target_cong) simp
  have w: "pb_target_workshop_id p = Some (tg_workshop_id t)"
    using publications_okD(5) [OF ok p(1)] t by (simp add: target_ok_def)
  obtain d where d: "d \<in> set (lg_drivers l)" "pb_driver_operation_id p = Some (dr_id d)" "driver_bound l p d"
      "dr_state d = DriverInProgress" "dr_response d = None"
    using o(1) live by (auto simp: owns_driver_def)
  let ?d = "d\<lparr>dr_safe_error := Some ''runtime_outcome_unknown'', dr_execution_token := None, dr_lease_expires_at := None\<rparr>"
  have "?d \<in> set (lg_drivers l1)"
    using map_if_mem [OF d(1), of "\<lambda>d. Some (dr_id d) = pb_driver_operation_id p \<and> dr_state d = DriverInProgress"
        "\<lambda>d. d\<lparr>dr_safe_error := Some ''runtime_outcome_unknown'', dr_execution_token := None, dr_lease_expires_at := None\<rparr>"]
    by (simp add: l1 quarantined_ledger_def d(2,4) del: set_map)
  then have "owns_driver l1 (quarantined_row now e p)"
    unfolding owns_driver_def by (rule bexI [rotated])
      (use d in \<open>simp add: driver_bound_def tf quarantined_row_def\<close>)
  moreover obtain r where r: "r \<in> set (lg_routes l)" "pb_target_workshop_id p = Some (rl_workshop_id r)"
      "rl_authority_kind r = route_set_authority" "rl_publication_id r = Some (pb_publication_id p)"
      "rl_fence_token r = tg_route_fence_token t" "rl_generation r = Some (tg_generation t)"
      "rl_projection_digest r = Some (tg_projection_digest t)" "rl_lease_owner r = Some (pb_instance_owner p)"
    using o(3) t by (auto simp: owns_route_def)
  let ?r = "r\<lparr>rl_state := LeaseQuarantined, rl_lease_token := None, rl_lease_expires_at := None,
      rl_quarantined_at := Some now, rl_safe_error := Some UNKNOWN_OUTCOME\<rparr>"
  have "?r \<in> set (lg_routes l1)"
    using map_if_mem [OF r(1), of "\<lambda>r. rl_workshop_id r = tg_workshop_id t \<and>
        rl_publication_id r = Some (pb_publication_id p)" "\<lambda>r. r\<lparr>rl_state := LeaseQuarantined, rl_lease_token := None,
      rl_lease_expires_at := None, rl_quarantined_at := Some now, rl_safe_error := Some UNKNOWN_OUTCOME\<rparr>"] r(2,4) w
    by (simp add: l1 quarantined_ledger_def del: set_map)
  then have "owns_route l1 (quarantined_row now e p)"
    unfolding owns_route_def by (rule bexI [rotated]) (use r t in \<open>simp add: tf quarantined_row_def\<close>)
  moreover have "owns_global l1 (quarantined_row now e p)"
    using o(2) unfolding l1 by (simp add: owns_global_def quarantined_ledger_def quarantined_row_def Let_def)
  ultimately show ?thesis by (simp add: leases_ok_def)
qed

lemma quarantine_ok:
  assumes ok: "publications_ok sha256_hex column_size l"
    and "quarantine_route_set_publication column_size now l a e = Inr (x, l')"
  shows "publications_ok sha256_hex column_size l'"
proof (cases "l' = l")
  case False
  obtain p t where p: "find_publication l (la_publication_id a) = Some p" "pb_phase p \<in> live_phases"
    and t: "find_target l (la_publication_id a) = Some t"
    and g: "quarantine_authority a t (lg_global l) (find_route_lease l (Some (tg_workshop_id t)))
       (find_driver l (pb_driver_operation_id p))"
    and u: "quarantine_updates column_size now l a p t e = Inr l'"
    using quarantine_change [OF assms(2) False] by metis
  note pi = find_publicationD [OF p(1)]
  have i: "pb_publication_id p = la_publication_id a" and pl: "p \<in> set (lg_publications l)" using pi by simp_all
  let ?l1 = "quarantined_ledger now (la_publication_id a) p t l" and ?q = "quarantined_row now e p"
  have "gl_publication_id (lg_global l) = Some (la_publication_id a)" using g by (simp add: quarantine_authority_def)
  note s = quarantine_updates_Inr [OF u this]
  have keys: "ledger_keys l" by (rule publications_okD(1) [OF ok])
  then have "distinct (map pb_publication_id (lg_publications ?l1))" by (simp add: ledger_keys_def)
  note put = set_publication_put [OF s this, of p, simplified, OF pl i]
  have leases: "leases_ok ?l1 ?q"
    using quarantined_leases [OF ok pl p(2) _ refl, of t now e] t by (simp add: i)
  have "map dr_id (lg_drivers ?l1) = map dr_id (lg_drivers l)"
    "map rl_workshop_id (lg_routes ?l1) = map rl_workshop_id (lg_routes l)"
    by (simp_all add: quarantined_ledger_def)
  then have keys': "ledger_keys l'" using keys by (simp add: put(4) ledger_keys_def)
  show ?thesis
  proof (rule closing_update_ok [OF ok pl p(2) put(1,2,3), of l'])
    show "pb_seal ?q = pb_seal p" by (simp add: quarantined_row_def)
    show "lg_publications l' = lg_publications (put_publication ?q l)"
      by (simp add: put(4) put_publication_def)
    show "leases_ok l' ?q"
      using leases lease_frame(4) [of l' ?l1] by (simp add: put(4))
    have "?q \<in> set (lg_publications l')"
      using put_publication_set [of p ?l1 ?q] pl by (simp add: put(4) quarantined_row_def)
    then show "global_owned l'"
      unfolding global_owned_def
      by (intro impI bexI [of _ ?q]) (use g i in \<open>simp_all add: put(4) quarantined_ledger_def quarantined_row_def
        quarantine_authority_def\<close>)
    show "\<And>d. d \<in> set (lg_drivers l) \<Longrightarrow> dr_state d \<noteq> DriverInProgress \<Longrightarrow> d \<in> set (lg_drivers l')"
      by (simp add: put(4) quarantined_ledger_def del: set_map, rule map_if_other) auto
  qed (use keys' in \<open>simp_all add: put(4) quarantined_ledger_def\<close>)
qed (use assms in simp)

lemma update_publications_put:
  assumes "update_publications column_size c f l = Inr (n, l')"
    and "distinct (map pb_publication_id (lg_publications l))"
    and "p \<in> set (lg_publications l)" and "c p" and "\<And>x. c x \<Longrightarrow> pb_publication_id x = pb_publication_id p"
  shows "parent_update_allowed p (f p)" "phase_transition_allowed l p (f p)" "publication_check column_size (f p)"
    "l' = put_publication (f p) l"
proof -
  have allowed: "\<And>x. x \<in> set (lg_publications l) \<Longrightarrow> c x \<Longrightarrow>
      parent_update_allowed x (f x) \<and> phase_transition_allowed l x (f x) \<and> publication_check column_size (f x)"
    and l': "l' = l\<lparr>lg_publications := snd (update_where c f (lg_publications l))\<rparr>"
    using assms(1) by (auto simp: update_publications_def result_simps list_all_iff update_where_def split: prod.splits)
  from allowed assms(3,4) show a: "parent_update_allowed p (f p)" "phase_transition_allowed l p (f p)"
    "publication_check column_size (f p)" by auto
  then have i: "pb_publication_id (f p) = pb_publication_id p" by (simp add: parent_update_allowed_def)
  have "(if c x then f x else x) = (if pb_publication_id x = pb_publication_id (f p) then f p else x)"
    if "x \<in> set (lg_publications l)" for x
    unfolding i using that assms(2-5) by (metis distinct_key_unique)
  then have "map (\<lambda>x. if c x then f x else x) (lg_publications l) =
      map (\<lambda>x. if pb_publication_id x = pb_publication_id (f p) then f p else x) (lg_publications l)"
    by (intro map_cong) auto
  then show "l' = put_publication (f p) l"
    unfolding l' put_publication_def update_where_def by simp
qed

text \<open>The rows after the first four updates of a finish.\<close>

definition finishing_driver :: "int \<Rightarrow> lease_authority \<Rightarrow> publication_row \<Rightarrow> target_row \<Rightarrow> driver_row \<Rightarrow> bool" where
  "finishing_driver now a p t d \<longleftrightarrow> Some (dr_id d) = pb_driver_operation_id p \<and> dr_state d = DriverInProgress \<and>
     dr_execution_token d = Some (la_execution_token a) \<and> unexpired (dr_lease_expires_at d) now \<and>
     dr_route_generation d = Some (tg_generation t) \<and> dr_route_projection_digest d = Some (tg_projection_digest t) \<and>
     dr_route_fence_token d = Some (la_target_route_fence_token a)"

definition finished_driver :: "json \<Rightarrow> driver_row \<Rightarrow> driver_row" where
  "finished_driver response d = d\<lparr>dr_state := DriverSucceeded, dr_response := Some response,
     dr_safe_error := None, dr_execution_token := None, dr_lease_expires_at := None\<rparr>"

definition finishing_route :: "lease_authority \<Rightarrow> target_row \<Rightarrow> route_lease_row \<Rightarrow> bool" where
  "finishing_route a t r \<longleftrightarrow> rl_workshop_id r = tg_workshop_id t \<and> rl_state r = LeaseHeld \<and>
     rl_authority_kind r = route_set_authority \<and> rl_publication_id r = Some (la_publication_id a) \<and>
     rl_lease_owner r = Some (la_instance_owner a) \<and> rl_lease_token r = Some (la_route_lease_token a) \<and>
     rl_fence_token r = la_target_route_fence_token a"

definition finished_route :: "route_lease_row \<Rightarrow> route_lease_row" where
  "finished_route r = (release_route r)\<lparr>rl_authority_kind := None, rl_effect_run_id := None,
     rl_release_publication_id := None, rl_publication_id := None\<rparr>"

definition finished_global :: "global_lease_row \<Rightarrow> global_lease_row" where
  "finished_global g = (release_global g)\<lparr>gl_authority_kind := None, gl_effect_run_id := None, gl_publication_id := None\<rparr>"

definition finished_row :: "int \<Rightarrow> json \<Rightarrow> publication_row \<Rightarrow> publication_row" where
  "finished_row now response p =
     p\<lparr>pb_phase := PhaseCompleted, pb_finished_at := Some now, pb_final_response := Some response\<rparr>"

definition finished_ledger ::
  "int \<Rightarrow> lease_authority \<Rightarrow> publication_row \<Rightarrow> target_row \<Rightarrow> applied_head \<Rightarrow> json \<Rightarrow> ledger \<Rightarrow> ledger" where
  "finished_ledger now a p t h response l = l\<lparr>
     lg_drivers := map (\<lambda>d. if finishing_driver now a p t d then finished_driver response d else d) (lg_drivers l),
     lg_states := map (\<lambda>s. if target_head_current t s then s\<lparr>ps_applied := Some h\<rparr> else s) (lg_states l),
     lg_routes := map (\<lambda>r. if finishing_route a t r then finished_route r else r) (lg_routes l),
     lg_global := finished_global (lg_global l)\<rparr>"

lemma finished_ledger_simps [simp]:
  "lg_publications (finished_ledger now a p t h response l) = lg_publications l"
  "lg_targets (finished_ledger now a p t h response l) = lg_targets l"
  "lg_snapshot (finished_ledger now a p t h response l) = lg_snapshot l"
  "lg_records (finished_ledger now a p t h response l) = lg_records l"
  "lg_projections (finished_ledger now a p t h response l) = lg_projections l"
  "lg_global (finished_ledger now a p t h response l) = finished_global (lg_global l)"
  by (simp_all add: finished_ledger_def)

lemma normalize_release [simp]:
  "normalize_workshop_route_authority (release_route r) = finished_route r"
  "normalize_global_route_authority (release_global g) = finished_global g"
  by (simp_all add: normalize_workshop_route_authority_def normalize_global_route_authority_def
      release_route_def release_global_def finished_route_def finished_global_def)

lemma finish_updates_named:
  "finish_updates column_size now l a p t r response =
     (let (drivers, l1) = update_drivers (finishing_driver now a p t) (finished_driver response) l
      in and_then (ensure (drivers = 1) (Bail ''40001'')) (\<lambda>_.
         and_then (apply_target_head l1 p t r) (\<lambda>(heads, l2).
         and_then (ensure (heads = 1) (Bail ''40001'')) (\<lambda>_.
         and_then (update_routes (finishing_route a t) release_route l2) (\<lambda>(routes, l3).
         and_then (ensure (routes = 1) (Bail ''40001'')) (\<lambda>_.
           let (globals, l4) = update_global (\<lambda>g. gl_state g = LeaseHeld \<and>
                 gl_authority_kind g = route_set_authority \<and> gl_publication_id g = Some (la_publication_id a) \<and>
                 gl_lease_owner g = Some (la_instance_owner a) \<and>
                 gl_lease_token g = Some (la_global_lease_token a) \<and> gl_fence_token g = la_global_fence_token a)
               release_global l3
           in and_then (ensure (globals = 1) (Bail ''40001'')) (\<lambda>_.
              and_then (update_publications column_size (\<lambda>p. pb_publication_id p = la_publication_id a \<and>
                   pb_phase p = PhaseObserved \<and> pb_finished_at p = None \<and> pb_final_response p = None)
                 (finished_row now response) l4) (\<lambda>(publications, l5).
              and_then (ensure (publications = 1) (Bail ''40001'')) (\<lambda>_. Inr l5)))))))))"
  unfolding finish_updates_def finishing_driver_def [abs_def] finished_driver_def [abs_def]
    finishing_route_def [abs_def] finished_row_def [abs_def] ..

lemma finish_updates_Inr:
  assumes "finish_updates column_size now l a p t r response = Inr l'"
  obtains h where
    "length (filter (finishing_driver now a p t) (lg_drivers l)) = 1"
    "length (filter (target_head_current t) (lg_states l)) = 1"
    "length (filter (finishing_route a t) (lg_routes l)) = 1"
    "h = head_of_target p t r \<or> (\<exists>d. h = (head_of_target p t r)\<lparr>ah_disposition := d\<rparr> \<and>
       projection_disposition l (tg_workshop_id t) (tg_generation t) (tg_projection_digest t) = Some d)"
    "update_publications column_size (\<lambda>p. pb_publication_id p = la_publication_id a \<and> pb_phase p = PhaseObserved \<and>
         pb_finished_at p = None \<and> pb_final_response p = None) (finished_row now response)
       (finished_ledger now a p t h response l) = Inr (1, l')"
proof -
  let ?l1 = "l\<lparr>lg_drivers := map (\<lambda>d. if finishing_driver now a p t d then finished_driver response d else d) (lg_drivers l)\<rparr>"
  obtain n2 l2 n3 l3 where 1: "length (filter (finishing_driver now a p t) (lg_drivers l)) = 1"
    and 2: "apply_target_head ?l1 p t r = Inr (n2, l2)" "n2 = 1"
    and 3: "update_routes (finishing_route a t) release_route l2 = Inr (n3, l3)" "n3 = 1"
    and 4: "update_publications column_size (\<lambda>p. pb_publication_id p = la_publication_id a \<and> pb_phase p = PhaseObserved \<and>
         pb_finished_at p = None \<and> pb_final_response p = None) (finished_row now response)
       (l3\<lparr>lg_global := finished_global (lg_global l3)\<rparr>) = Inr (1, l')"
    using assms unfolding finish_updates_named
    by (auto simp: update_drivers_def update_where_def update_global_def Let_def and_then_Inr ensure_Inr
        split: if_splits)
  obtain h where h: "normalize_head ?l1 (tg_workshop_id t) (Some (tg_prior t)) (head_of_target p t r) = Inr h"
    and l2: "l2 = ?l1\<lparr>lg_states := map (\<lambda>s. if target_head_current t s then s\<lparr>ps_applied := Some h\<rparr> else s) (lg_states l)\<rparr>"
    and n2: "length (filter (target_head_current t) (lg_states l)) = 1"
    using 2 by (auto simp: apply_target_head_def update_where_def and_then_Inr ensure_Inr split: if_splits)
  have l3: "l3 = l2\<lparr>lg_routes := map (\<lambda>r. if finishing_route a t r then finished_route r else r) (lg_routes l2)\<rparr>"
    and n3: "length (filter (finishing_route a t) (lg_routes l2)) = 1"
    using 3 by (auto simp: update_routes_def update_where_def split: if_splits)
  have "h = head_of_target p t r \<or> (\<exists>d. h = (head_of_target p t r)\<lparr>ah_disposition := d\<rparr> \<and>
      projection_disposition l (tg_workshop_id t) (tg_generation t) (tg_projection_digest t) = Some d)"
    using h by (auto simp: normalize_head_def and_then_Inr ok_or_Inr head_of_target_def projection_disposition_def
        split: if_splits)
  moreover have "l3\<lparr>lg_global := finished_global (lg_global l3)\<rparr> = finished_ledger now a p t h response l"
    by (simp add: l3 l2 finished_ledger_def)
  ultimately show ?thesis using that [of h] 1 n2 n3 4 l2 by simp
qed

lemma finish_cases:
  assumes "finish_route_set_publication sha256_hex column_size now l a = Inr (x, l')"
  shows "(l' = l \<and> fst x \<noteq> ''completed'') \<or>
    (\<exists>p t r. find_publication l (la_publication_id a) = Some p \<and> find_target l (la_publication_id a) = Some t \<and>
       find_record l (la_publication_id a) (pb_target_workshop_id p) = Some r \<and> pb_phase p = PhaseObserved \<and>
       x = (''completed'', Some (expected_response p t r)) \<and>
       finish_updates column_size now l a p t r (expected_response p t r) = Inr l')"
proof (cases "find_publication l (la_publication_id a)")
  case None
  then show ?thesis using assms by (auto simp: finish_route_set_publication_def split: if_splits)
next
  case (Some p)
  show ?thesis
  proof (cases "find_target l (la_publication_id a)")
    case None
    then show ?thesis using assms Some by (auto simp: finish_route_set_publication_def and_then_Inr ok_or_Inr split: if_splits)
  next
    case (Some t)
    note found = \<open>find_publication l (la_publication_id a) = Some p\<close> Some
    show ?thesis
    proof (cases "find_record l (la_publication_id a) (pb_target_workshop_id p)")
      case None
      then show ?thesis using assms found
        by (auto simp: finish_route_set_publication_def Let_def and_then_Inr ok_or_Inr split: if_splits)
    next
      case (Some r)
      then show ?thesis using assms found
        by (auto simp: finish_route_set_publication_def Let_def and_then_Inr ok_or_Inr split: if_splits)
    qed
  qed
qed

lemma finished_leases:
  assumes ok: "publications_ok sha256_hex column_size l" and p: "p \<in> set (lg_publications l)" "pb_phase p = PhaseObserved"
    and one: "length (filter (finishing_driver now a p t) (lg_drivers l)) = 1"
    and l1: "l1 = finished_ledger now a p t h response l"
  shows "leases_ok l1 (finished_row now response p)"
proof -
  have o: "owns_driver l p" using publications_okD(8) [OF ok p(1)] p(2) by (simp add: leases_ok_def)
  have tf: "find_target l1 = find_target l" unfolding l1 by (rule find_target_cong) simp
  obtain d where d: "d \<in> set (lg_drivers l)" "pb_driver_operation_id p = Some (dr_id d)" "driver_bound l p d"
    using o by (auto simp: owns_driver_def)
  obtain e where e: "e \<in> set (lg_drivers l)" "finishing_driver now a p t e"
    using one by (metis filter_False length_0_conv zero_neq_one)
  then have "e = d"
    using d publications_okD(1) [OF ok] unfolding ledger_keys_def finishing_driver_def
    by (metis distinct_key_unique option.inject)
  then have "finished_driver response d \<in> set (lg_drivers l1)"
    using map_if_mem [where c = "finishing_driver now a p t" and f = "finished_driver response", OF d(1)] e(2)
    by (simp add: l1 finished_ledger_def del: set_map)
  then have "owns_driver l1 (finished_row now response p)"
    unfolding owns_driver_def by (rule bexI [rotated])
      (use d in \<open>simp add: driver_bound_def tf finished_row_def finished_driver_def\<close>)
  then show ?thesis by (simp add: leases_ok_def finished_row_def)
qed

lemma finish_ok:
  assumes ok: "publications_ok sha256_hex column_size l"
    and "finish_route_set_publication sha256_hex column_size now l a = Inr (x, l')"
  shows "publications_ok sha256_hex column_size l'"
proof (cases "l' = l")
  case False
  obtain p t r where p: "find_publication l (la_publication_id a) = Some p" "pb_phase p = PhaseObserved"
    and u: "finish_updates column_size now l a p t r (expected_response p t r) = Inr l'"
    using finish_cases [OF assms(2)] False by auto
  let ?response = "expected_response p t r"
  note pi = find_publicationD [OF p(1)]
  have i: "pb_publication_id p = la_publication_id a" and pl: "p \<in> set (lg_publications l)" using pi by simp_all
  obtain h where one: "length (filter (finishing_driver now a p t) (lg_drivers l)) = 1"
    and s: "update_publications column_size (\<lambda>p. pb_publication_id p = la_publication_id a \<and> pb_phase p = PhaseObserved \<and>
         pb_finished_at p = None \<and> pb_final_response p = None) (finished_row now ?response)
       (finished_ledger now a p t h ?response l) = Inr (1, l')"
    by (rule finish_updates_Inr [OF u])
  let ?l1 = "finished_ledger now a p t h ?response l" and ?q = "finished_row now ?response p"
  have keys: "ledger_keys l" by (rule publications_okD(1) [OF ok])
  have "pb_finished_at p = None" "pb_final_response p = None"
    using publications_okD(7) [OF ok pl] p(2)
    by (auto simp: publication_evidence_ok_def publication_check_def phase_evidence_def)
  with keys p(2) i pl have put: "parent_update_allowed p ?q" "phase_transition_allowed ?l1 p ?q"
      "publication_check column_size ?q" "l' = put_publication ?q ?l1"
    using update_publications_put [OF s, of p] by (simp_all add: ledger_keys_def)
  have leases: "leases_ok ?l1 ?q" by (rule finished_leases [OF ok pl p(2) one refl])
  have "map dr_id (lg_drivers ?l1) = map dr_id (lg_drivers l)"
    "map rl_workshop_id (lg_routes ?l1) = map rl_workshop_id (lg_routes l)"
    "map ps_workshop_id (lg_states ?l1) = map ps_workshop_id (lg_states l)"
    by (simp_all add: finished_ledger_def finished_driver_def finished_route_def release_route_def)
  then have keys': "ledger_keys l'" using keys by (simp add: put(4) ledger_keys_def)
  have live: "pb_phase p \<in> live_phases" by (simp add: p(2) live_phases_def)
  show ?thesis
  proof (rule closing_update_ok [OF ok pl live put(1,2,3), of l'])
    show "pb_seal ?q = pb_seal p" by (simp add: finished_row_def)
    show "lg_publications l' = lg_publications (put_publication ?q l)"
      by (simp add: put(4) put_publication_def)
    show "leases_ok l' ?q"
      using leases lease_frame(4) [of l' ?l1] by (simp add: put(4))
    show "global_owned l'"
      by (simp add: global_owned_def put(4) finished_global_def)
    show "\<And>d. d \<in> set (lg_drivers l) \<Longrightarrow> dr_state d \<noteq> DriverInProgress \<Longrightarrow> d \<in> set (lg_drivers l')"
      by (simp add: put(4) finished_ledger_def del: set_map, rule map_if_other) (auto simp: finishing_driver_def)
  qed (use keys' in \<open>simp_all add: put(4) finished_global_def release_global_def\<close>)
qed (use assms in simp)

subsection \<open>Admission\<close>

lemma next_fence_Inr: "next_fence f = Inr g \<Longrightarrow> sint g = sint f + 1"
proof -
  assume "next_fence f = Inr g"
  then have "g = f + 1" and "sint f \<noteq> 2 ^ 63 - 1" by (auto simp: next_fence_def split: if_splits)
  moreover have "sint f < 2 ^ 63" "- (2 ^ 63) \<le> sint f"
    using sint_lt [of f] sint_ge [of f] by simp_all
  ultimately show ?thesis by (simp add: sint_word_ariths(1) signed_take_bit_int_eq_self)
qed

lemma sint_greatest: "sint (greatest f g) = max (sint f) (sint g)"
  by (simp add: greatest_def)

definition granted_global :: "admission_call \<Rightarrow> int \<Rightarrow> uuid \<Rightarrow> i64 \<Rightarrow> global_lease_row \<Rightarrow> global_lease_row" where
  "granted_global c expires publication fence g =
     g\<lparr>gl_state := LeaseHeld, gl_authority_kind := route_set_authority, gl_driver_operation_id := None,
       gl_effect_run_id := None, gl_publication_id := Some publication, gl_fence_token := fence,
       gl_lease_owner := Some (ac_instance_owner c), gl_lease_token := Some (ac_global_lease_token c),
       gl_lease_expires_at := Some expires\<rparr>"

definition granted_route :: "admission_call \<Rightarrow> int \<Rightarrow> uuid \<Rightarrow> i64 \<Rightarrow> route_lease_row \<Rightarrow> route_lease_row" where
  "granted_route c expires publication fence r =
     r\<lparr>rl_state := LeaseHeld, rl_authority_kind := route_set_authority, rl_driver_operation_id := None,
       rl_effect_run_id := None, rl_release_publication_id := None, rl_publication_id := Some publication,
       rl_fence_token := fence, rl_generation := Some (ac_generation c),
       rl_projection_digest := Some (ac_projection_digest c), rl_lease_owner := Some (ac_instance_owner c),
       rl_lease_token := Some (ac_route_lease_token c), rl_lease_expires_at := Some expires\<rparr>"

definition admitted_ledger ::
  "int \<Rightarrow> admission_call \<Rightarrow> uuid \<Rightarrow> uuid \<Rightarrow> desired_head \<Rightarrow> applied_head \<Rightarrow> i64 \<Rightarrow> i64 \<Rightarrow> ledger \<Rightarrow> ledger" where
  "admitted_ledger expires c publication driver desired applied global_fence route_fence l = l\<lparr>
     lg_drivers := lg_drivers l @ [admitted_driver expires c driver route_fence],
     lg_publications := lg_publications l @ [admitted_publication l c publication driver global_fence],
     lg_targets := lg_targets l @ [admitted_target c publication desired applied route_fence],
     lg_snapshot := lg_snapshot l @ snapshot_rows l publication (ac_workshop_id c),
     lg_global := granted_global c expires publication global_fence (lg_global l),
     lg_routes := map (\<lambda>r. if rl_workshop_id r = ac_workshop_id c \<and> rl_state r = LeaseIdle
                           then granted_route c expires publication route_fence r else r) (lg_routes l)\<rparr>"

lemma admission_grant_Inr:
  assumes "admission_grant column_size now l c publication driver desired applied global_fence route_fence = Inr l'"
  shows "length (snapshot_rows l publication (ac_workshop_id c)) = length (lg_workshops l)"
    "list_ex (\<lambda>r. rl_workshop_id r = ac_workshop_id c \<and> rl_state r = LeaseIdle) (lg_routes l)"
    "l' = admitted_ledger (now + seconds (sint (ac_ttl_seconds c))) c publication driver desired applied
       global_fence route_fence l"
proof -
  let ?e = "now + seconds (sint (ac_ttl_seconds c))"
  let ?l2 = "l\<lparr>lg_drivers := lg_drivers l @ [admitted_driver ?e c driver route_fence],
     lg_publications := lg_publications l @ [admitted_publication l c publication driver global_fence],
     lg_targets := lg_targets l @ [admitted_target c publication desired applied route_fence],
     lg_snapshot := lg_snapshot l @ snapshot_rows l publication (ac_workshop_id c),
     lg_global := granted_global c ?e publication global_fence (lg_global l)\<rparr>"
  note a = assms [unfolded admission_grant_def granted_global_def [symmetric] granted_route_def [symmetric] Let_def]
  show "length (snapshot_rows l publication (ac_workshop_id c)) = length (lg_workshops l)"
    using a by (auto simp: and_then_Inr ensure_Inr)
  obtain n where n: "n \<noteq> 0" and u: "update_routes (\<lambda>r. rl_workshop_id r = ac_workshop_id c \<and> rl_state r = LeaseIdle)
      (granted_route c ?e publication route_fence) ?l2 = Inr (n, l')"
    using a by (auto simp: and_then_Inr ensure_Inr update_global_def granted_global_def
        normalize_global_owned split: prod.splits if_splits)
  have eq: "n = length (filter (\<lambda>r. rl_workshop_id r = ac_workshop_id c \<and> rl_state r = LeaseIdle) (lg_routes ?l2)) \<and>
      l' = ?l2\<lparr>lg_routes := map (\<lambda>r. if rl_workshop_id r = ac_workshop_id c \<and> rl_state r = LeaseIdle
                           then granted_route c ?e publication route_fence r else r) (lg_routes ?l2)\<rparr>"
    using u by (subst (asm) update_routes_owned) (simp_all add: granted_route_def)
  then show "l' = admitted_ledger ?e c publication driver desired applied global_fence route_fence l"
    by (simp add: admitted_ledger_def)
  show "list_ex (\<lambda>r. rl_workshop_id r = ac_workshop_id c \<and> rl_state r = LeaseIdle) (lg_routes l)"
    using eq n by (auto simp: list_ex_iff filter_empty_conv)
qed

lemma admit_change:
  assumes "admit_route_set_publication column_size now publication driver l c = Inr (x, l')" and "l' \<noteq> l"
  obtains route state desired applied global_fence route_fence where
    "gl_state (lg_global l) = LeaseIdle" "\<not> fleet_not_ready l c"
    "find_route_lease l (Some (ac_workshop_id c)) = Some route" "find_state l (Some (ac_workshop_id c)) = Some state"
    "ps_desired state = Some desired" "ps_applied state = Some applied"
    "next_fence (gl_fence_token (lg_global l)) = Inr global_fence"
    "next_fence (greatest (rl_fence_token route) (ah_fence_token applied)) = Inr route_fence"
    "admission_grant column_size now l c publication driver desired applied global_fence route_fence = Inr l'"
proof -
  have "\<exists>route state desired applied global_fence route_fence.
    gl_state (lg_global l) = LeaseIdle \<and> \<not> fleet_not_ready l c \<and>
    find_route_lease l (Some (ac_workshop_id c)) = Some route \<and>
    find_state l (Some (ac_workshop_id c)) = Some state \<and>
    ps_desired state = Some desired \<and> ps_applied state = Some applied \<and>
    next_fence (gl_fence_token (lg_global l)) = Inr global_fence \<and>
    next_fence (greatest (rl_fence_token route) (ah_fence_token applied)) = Inr route_fence \<and>
    admission_grant column_size now l c publication driver desired applied global_fence route_fence = Inr l'"
    using assms unfolding admit_route_set_publication_def
    by (auto simp: and_then_Inr split: if_splits option.splits)
  then show thesis by (elim exE conjE) (rule that)
qed

lemma idle_all_completed:
  assumes "publications_ok sha256_hex column_size l" and "gl_state (lg_global l) = LeaseIdle" and "p \<in> set (lg_publications l)"
  shows "pb_phase p = PhaseCompleted"
  using publications_okD(8) [OF assms(1,3)] assms(2) by (auto simp: leases_ok_def owns_global_def Let_def split: if_splits)

lemma distinct_const_length:
  assumes "distinct (map k xs)" and "\<And>x. x \<in> set xs \<Longrightarrow> k x = c"
  shows "length xs \<le> 1"
  using assms by (cases xs rule: remdups_adj.cases) auto

lemma selects_once:
  assumes "distinct (map (\<lambda>j. (pj_workshop_id j, pj_generation j)) js)"
  shows "length (filter (selects w s) js) \<le> 1"
proof (rule distinct_const_length)
  show "distinct (map (\<lambda>j. (pj_workshop_id j, pj_generation j)) (filter (selects w s) js))"
    using assms by (rule distinct_map_filter)
  show "(pj_workshop_id j, pj_generation j) = (ps_workshop_id s, dh_generation (the (selected_head w s)))"
    if "j \<in> set (filter (selects w s) js)" for j
    using that by (auto simp: selects_def)
qed

lemma concat_map_if: "concat (map (\<lambda>x. if P x then [f x] else []) xs) = map f (filter P xs)"
  by (induction xs) auto

lemma snapshot_rows_concat:
  "snapshot_rows l publication target =
     concat (map (\<lambda>s. map (\<lambda>j. \<lparr>sn_publication_id = publication, sn_workshop_id = ps_workshop_id s,
       sn_generation = pj_generation j, sn_projection_digest = pj_projection_digest j,
       sn_disposition = pj_disposition j, sn_canonical_projection = pj_projection j, sn_baseline = ps_applied s,
       sn_is_target = (ps_workshop_id s = target)\<rparr>) (filter (selects target s) (lg_projections l)))
     (sort_key ps_workshop_id (lg_states l)))"
  by (simp add: snapshot_rows_def concat_map_if)

lemma snapshot_rows_publication: "r \<in> set (snapshot_rows l publication target) \<Longrightarrow> sn_publication_id r = publication"
  by (auto simp: snapshot_rows_concat)

lemma distinct_concat_keys:
  assumes "distinct (map k xs)" and "\<And>x. x \<in> set xs \<Longrightarrow> length (f x) \<le> 1"
    and "\<And>x y. x \<in> set xs \<Longrightarrow> y \<in> set (f x) \<Longrightarrow> g y = k x"
  shows "distinct (map g (concat (map f xs)))"
  using assms
proof (induction xs)
  case (Cons x xs)
  have "f x = [] \<or> (\<exists>y. f x = [y])" using Cons.prems(2) [of x] by (cases "f x") auto
  moreover have "k x \<notin> g ` set (concat (map f xs))"
    using Cons.prems(1,3) by (auto simp: image_iff)
  moreover have "\<And>y. f x = [y] \<Longrightarrow> g y = k x" using Cons.prems(3) [of x] by simp
  moreover have "distinct (map g (concat (map f xs)))" using Cons by simp
  ultimately show ?case by (auto simp: image_iff)
qed simp

lemma snapshot_rows_distinct:
  assumes "ledger_keys l"
  shows "distinct (map sn_workshop_id (snapshot_rows l publication target))"
  unfolding snapshot_rows_concat
proof (rule distinct_concat_keys)
  show "distinct (map ps_workshop_id (sort_key ps_workshop_id (lg_states l)))"
    using assms by (simp add: ledger_keys_def distinct_map)
qed (use assms selects_once in \<open>auto simp: ledger_keys_def\<close>)

lemma admitted_ledger_simps [simp]:
  fixes c l expires publication driver desired applied gf rf
  defines "l' \<equiv> admitted_ledger expires c publication driver desired applied gf rf l"
  shows "lg_publications l' = lg_publications l @ [admitted_publication l c publication driver gf]"
    "lg_records l' = lg_records l"
    "lg_drivers l' = lg_drivers l @ [admitted_driver expires c driver rf]"
    "lg_global l' = granted_global c expires publication gf (lg_global l)"
    "lg_states l' = lg_states l" "lg_projections l' = lg_projections l"
    "lg_targets l' = lg_targets l @ [admitted_target c publication desired applied rf]"
    "lg_snapshot l' = lg_snapshot l @ snapshot_rows l publication (ac_workshop_id c)"
  by (simp_all add: l'_def admitted_ledger_def)

text \<open>An admission adds a publication and leaves what the others refer to in place.\<close>

lemma admitted_others:
  assumes ok: "publications_ok sha256_hex column_size l" and x: "x \<in> set (lg_publications l)"
    and fresh: "publication \<notin> pb_publication_id ` set (lg_publications l)"
    and l': "l' = admitted_ledger expires c publication driver desired applied gf rf l"
  shows "find_target l' (pb_publication_id x) = find_target l (pb_publication_id x)"
    "snapshot_of l' (pb_publication_id x) = snapshot_of l (pb_publication_id x)" "records_of l' = records_of l"
proof -
  have "find_target l (pb_publication_id x) \<noteq> None"
    using publications_okD(5) [OF ok x] by (auto simp: target_ok_def split: option.splits)
  then show "find_target l' (pb_publication_id x) = find_target l (pb_publication_id x)"
    by (auto simp: l' find_target_def find_append)
  have "pb_publication_id x \<noteq> publication" using fresh x by auto
  then have "filter (\<lambda>r. sn_publication_id r = pb_publication_id x) (snapshot_rows l publication (ac_workshop_id c)) = []"
    by (auto simp: filter_empty_conv dest: snapshot_rows_publication)
  then show "snapshot_of l' (pb_publication_id x) = snapshot_of l (pb_publication_id x)"
    by (simp add: l' snapshot_of_def)
  show "records_of l' = records_of l" by (rule records_of_cong) (simp add: l')
qed

lemma admitted_rows:
  assumes ok: "publications_ok sha256_hex column_size l"
    and fresh: "publication \<notin> pb_publication_id ` set (lg_publications l)"
    and l': "l' = admitted_ledger expires c publication driver desired applied gf rf l"
  shows "find_target l' publication = Some (admitted_target c publication desired applied rf)"
    "snapshot_of l' publication = sort_key sn_workshop_id (snapshot_rows l publication (ac_workshop_id c))"
    "records_of l' publication = []"
proof -
  have refs: "tg_publication_id ` set (lg_targets l) \<subseteq> pb_publication_id ` set (lg_publications l)"
    "sn_publication_id ` set (lg_snapshot l) \<subseteq> pb_publication_id ` set (lg_publications l)"
    "rr_publication_id ` set (lg_records l) \<subseteq> pb_publication_id ` set (lg_publications l)"
    using publications_okD(2) [OF ok] by (simp_all add: ledger_references_def)
  then have "find (\<lambda>t. tg_publication_id t = publication) (lg_targets l) = None"
    using fresh by (auto simp: find_None_iff)
  then show "find_target l' publication = Some (admitted_target c publication desired applied rf)"
    by (simp add: l' find_target_def find_append admitted_target_def)
  have "filter (\<lambda>r. sn_publication_id r = publication) (lg_snapshot l) = []"
    "filter (\<lambda>r. rr_publication_id r = publication) (lg_records l) = []"
    using refs fresh by (auto simp: filter_empty_conv)
  moreover have "filter (\<lambda>r. sn_publication_id r = publication) (snapshot_rows l publication (ac_workshop_id c)) =
      snapshot_rows l publication (ac_workshop_id c)"
    by (simp add: filter_id_conv snapshot_rows_publication)
  ultimately show "snapshot_of l' publication = sort_key sn_workshop_id (snapshot_rows l publication (ac_workshop_id c))"
    "records_of l' publication = []"
    by (simp_all add: l' snapshot_of_def records_of_def)
qed

lemma admitted_keys:
  assumes "publications_ok sha256_hex column_size l"
    and "publication \<notin> pb_publication_id ` set (lg_publications l)" and "driver \<notin> dr_id ` set (lg_drivers l)"
  shows "ledger_keys (admitted_ledger expires c publication driver desired applied gf rf l)"
    "ledger_references (admitted_ledger expires c publication driver desired applied gf rf l)"
proof -
  have "map rl_workshop_id (lg_routes (admitted_ledger expires c publication driver desired applied gf rf l)) =
      map rl_workshop_id (lg_routes l)" by (simp add: admitted_ledger_def granted_route_def)
  moreover have "publication \<notin> tg_publication_id ` set (lg_targets l)"
    using publications_okD(2) [OF assms(1)] assms(2) by (auto simp: ledger_references_def)
  ultimately show "ledger_keys (admitted_ledger expires c publication driver desired applied gf rf l)"
    using publications_okD(1) [OF assms(1)] assms(2,3)
    by (auto simp: ledger_keys_def admitted_publication_def admitted_target_def admitted_driver_def)
  show "ledger_references (admitted_ledger expires c publication driver desired applied gf rf l)"
    using publications_okD(2) [OF assms(1)]
    by (auto simp: ledger_references_def admitted_publication_def admitted_target_def dest: snapshot_rows_publication)
qed

lemma admitted_fences:
  assumes "fences_ok l" and "sint gf = sint (gl_fence_token (lg_global l)) + 1"
  shows "fences_ok (admitted_ledger expires c publication driver desired applied gf rf l)"
  using assms by (auto simp: fences_ok_def granted_global_def admitted_publication_def sorted_wrt_append)

lemma admitted_row_ok:
  assumes ok: "publications_ok sha256_hex column_size l"
    and fresh: "publication \<notin> pb_publication_id ` set (lg_publications l)"
    and fence: "sint (ah_fence_token applied) < sint rf"
    and desired: "dh_generation desired = ac_generation c" "dh_digest desired = ac_projection_digest c"
    and count: "length (snapshot_rows l publication (ac_workshop_id c)) = length (lg_workshops l)"
    and route: "list_ex (\<lambda>r. rl_workshop_id r = ac_workshop_id c \<and> rl_state r = LeaseIdle) (lg_routes l)"
    and l': "l' = admitted_ledger expires c publication driver desired applied gf rf l"
    and p: "p = admitted_publication l c publication driver gf"
  shows "target_ok l' p" "records_ok l' p" "publication_evidence_ok sha256_hex column_size l' p" "leases_ok l' p"
proof -
  note rows = admitted_rows [OF ok fresh l']
  have i: "pb_publication_id p = publication" by (simp add: p admitted_publication_def)
  show "target_ok l' p"
    using fence by (simp add: target_ok_def i rows p admitted_publication_def admitted_target_def)
  have "distinct (map sn_workshop_id (sort_key sn_workshop_id (snapshot_rows l publication (ac_workshop_id c))))"
    using snapshot_rows_distinct [OF publications_okD(1) [OF ok]] by (simp add: distinct_map)
  then show "records_ok l' p"
    unfolding records_ok_def i rows by (simp add: count p admitted_publication_def)
  show "publication_evidence_ok sha256_hex column_size l' p"
    by (simp add: publication_evidence_ok_def publication_check_def phase_evidence_def seal_exact_def observation_exact_def
        p admitted_publication_def)
  obtain r where r: "r \<in> set (lg_routes l)" "rl_workshop_id r = ac_workshop_id c" "rl_state r = LeaseIdle"
    using route by (auto simp: list_ex_iff)
  let ?r = "granted_route c expires publication rf r"
  have "?r \<in> set (lg_routes l')"
    using map_if_mem [where c = "\<lambda>r. rl_workshop_id r = ac_workshop_id c \<and> rl_state r = LeaseIdle"
      and f = "granted_route c expires publication rf", OF r(1)] r(2,3)
    by (simp add: l' admitted_ledger_def del: set_map)
  then have "owns_route l' p"
    unfolding owns_route_def by (rule bexI [rotated]) (use r(2) desired in \<open>simp add: i rows p
      admitted_publication_def admitted_target_def granted_route_def\<close>)
  moreover have "owns_global l' p"
    by (simp add: owns_global_def Let_def l' p admitted_publication_def granted_global_def)
  moreover have "owns_driver l' p"
    unfolding owns_driver_def by (rule bexI [of _ "admitted_driver expires c driver rf"])
      (use desired in \<open>simp_all add: driver_bound_def i rows, simp_all add: l' p admitted_publication_def
        admitted_target_def admitted_driver_def\<close>)
  ultimately show "leases_ok l' p" by (simp add: leases_ok_def)
qed

lemma admitted_other_ok:
  assumes ok: "publications_ok sha256_hex column_size l" and x: "x \<in> set (lg_publications l)"
    and "gl_state (lg_global l) = LeaseIdle"
    and fresh: "publication \<notin> pb_publication_id ` set (lg_publications l)"
    and l': "l' = admitted_ledger expires c publication driver desired applied gf rf l"
  shows "target_ok l' x" "records_ok l' x" "publication_evidence_ok sha256_hex column_size l' x" "leases_ok l' x"
proof -
  note same = admitted_others [OF ok x fresh l']
  show "target_ok l' x" using publications_okD(5) [OF ok x] by (simp add: target_ok_def same(1) cong: option.case_cong)
  show "records_ok l' x" using publications_okD(6) [OF ok x] by (simp add: records_ok_def same)
  show "publication_evidence_ok sha256_hex column_size l' x" using publications_okD(7) [OF ok x]
    by (simp add: publication_evidence_ok_def seal_exact_def observation_exact_def present_count_def
        route_set_publication_digest_def same cong: option.case_cong)
  have "set (lg_drivers l) \<subseteq> set (lg_drivers l')" by (auto simp: l')
  moreover have "driver_bound l' x = driver_bound l x" by (simp add: driver_bound_def same(1) fun_eq_iff)
  moreover have "pb_phase x = PhaseCompleted" by (rule idle_all_completed [OF ok assms(3) x])
  ultimately show "leases_ok l' x"
    using publications_okD(8) [OF ok x] unfolding leases_ok_def owns_driver_def by auto
qed

lemma admit_ok:
  assumes ok: "publications_ok sha256_hex column_size l"
    and fresh: "publication \<notin> pb_publication_id ` set (lg_publications l)" "driver \<notin> dr_id ` set (lg_drivers l)"
    and "admit_route_set_publication column_size now publication driver l c = Inr (x, l')"
  shows "publications_ok sha256_hex column_size l'"
proof (cases "l' = l")
  case False
  obtain route state desired applied gf rf where idle: "gl_state (lg_global l) = LeaseIdle"
    and ready: "\<not> fleet_not_ready l c"
    and "find_route_lease l (Some (ac_workshop_id c)) = Some route"
    and state: "find_state l (Some (ac_workshop_id c)) = Some state" "ps_desired state = Some desired"
      "ps_applied state = Some applied"
    and gf: "next_fence (gl_fence_token (lg_global l)) = Inr gf"
    and rf: "next_fence (greatest (rl_fence_token route) (ah_fence_token applied)) = Inr rf"
    and g: "admission_grant column_size now l c publication driver desired applied gf rf = Inr l'"
    by (rule admit_change [OF assms(4) False])
  note grant = admission_grant_Inr [OF g]
  have desired: "dh_generation desired = ac_generation c" "dh_digest desired = ac_projection_digest c"
    using ready state by (simp_all add: fleet_not_ready_def Let_def sql_ne_def)
  have "sint (ah_fence_token applied) < sint rf" using next_fence_Inr [OF rf] by (simp add: sint_greatest)
  note row = admitted_row_ok [OF ok fresh(1) this desired grant(1,2,3) refl]
  note keys = admitted_keys [OF ok fresh] and fences = admitted_fences [OF publications_okD(3) [OF ok] next_fence_Inr [OF gf]]
  have "global_owned l'"
    by (simp add: global_owned_def grant(3) admitted_publication_def granted_global_def)
  then show ?thesis
    unfolding publications_ok_def using keys fences row admitted_other_ok [OF ok _ idle fresh(1) grant(3)]
    by (auto simp: grant(3))
qed (use ok in simp)

end
