(* ===== verification/Publication_Ledger_Sample.thy ===== *)
theory Publication_Ledger_Sample
  imports Publication_Ledger_Invariant
begin

text \<open>
  A concrete run of the publication ledger: one publication from its admission to its receipt and
  the admission of a second one, evaluated with the code equations. It supplies the inputs at which
  the theorems on reachable ledgers are applied.
\<close>

section \<open>Scripts\<close>

text \<open>Evaluates the first argument of \<^const>\<open>and_then\<close> before the continuation.\<close>

lemma and_then_case [code_unfold]: "and_then x f = (case x of Inl e \<Rightarrow> Inl e | Inr v \<Rightarrow> f v)"
  by (cases x) simp_all

text \<open>Runs a script of statements; every entry brings its time and two identifiers that have to be unused.\<close>

fun run_statements ::
  "(str \<Rightarrow> str) \<Rightarrow> (json \<Rightarrow> int) \<Rightarrow> (int \<times> uuid \<times> uuid \<times> sql_statement) list \<Rightarrow> ledger
     \<Rightarrow> db_error + publications_event list \<times> ledger" where
  "run_statements sha256_hex column_size [] l = Inr ([], l)"
| "run_statements sha256_hex column_size ((now, publication, driver, s) # script) l =
     (if list_ex (\<lambda>p. pb_publication_id p = publication) (lg_publications l) \<or>
         list_ex (\<lambda>d. dr_id d = driver) (lg_drivers l) then Inl UniqueViolation
      else and_then (ledger_execute sha256_hex column_size now publication driver s l) (\<lambda>(r, l1).
           and_then (run_statements sha256_hex column_size script l1) (\<lambda>(es, l2).
             Inr (Statement now s r # es, l2))))"

lemma run_statements_exec:
  "run_statements sha256_hex column_size script l = Inr (es, l') \<Longrightarrow>
   exec (publications_step sha256_hex column_size) l es l'"
proof (induction script arbitrary: l es)
  case Nil
  then show ?case by (auto intro: exec_Nil)
next
  case (Cons c script)
  obtain now publication driver s where c: "c = (now, publication, driver, s)" by (cases c)
  from Cons.prems obtain r l1 fs where fresh: "publication \<notin> pb_publication_id ` set (lg_publications l)"
      "driver \<notin> dr_id ` set (lg_drivers l)"
    and execute: "ledger_execute sha256_hex column_size now publication driver s l = Inr (r, l1)"
    and run: "run_statements sha256_hex column_size script l1 = Inr (fs, l')" and es: "es = Statement now s r # fs"
    by (auto simp: c and_then_Inr list_ex_iff split: if_splits)
  note s = step_statement [OF fresh execute]
  from exec_append [OF exec_one [of "publications_step sha256_hex column_size", OF s] Cons.IH [OF run]]
  show ?case by (simp add: es)
qed

definition sample_hash :: "str \<Rightarrow> str" where
  "sample_hash s = replicate 64 CHR ''a''"

definition sample_image :: str where
  "sample_image = ''sha256:'' @ replicate 64 CHR ''a''"

definition sample_prior_image :: str where
  "sample_prior_image = ''sha256:'' @ replicate 64 CHR ''b''"

definition sample_head :: applied_head where
  "sample_head = \<lparr>ah_generation = 1, ah_digest = sample_prior_image, ah_disposition = ''present'',
     ah_rendered_digest = sample_prior_image, ah_driver_operation_id = Some 77, ah_effect_run_id = None,
     ah_fence_token = 3\<rparr>"

definition sample_route :: "uuid \<Rightarrow> route_lease_row" where
  "sample_route w = \<lparr>rl_workshop_id = w, rl_state = LeaseIdle, rl_initialization_required = False,
     rl_authority_kind = None, rl_driver_operation_id = None, rl_effect_run_id = None,
     rl_release_publication_id = None, rl_publication_id = None, rl_fence_token = 3, rl_generation = None,
     rl_projection_digest = None, rl_lease_owner = None, rl_lease_token = None, rl_lease_expires_at = None,
     rl_quarantined_at = None, rl_safe_error = None\<rparr>"

definition sample_upstream :: "uuid \<Rightarrow> uuid \<Rightarrow> json operation_row" where
  "sample_upstream i w = \<lparr>op_id = i, op_kind = ''tenant.reconcile'', op_queue = ''tenant-reconciliation'',
     op_workshop_id = Some w, op_target_user_id = None, op_desired_epoch = None, op_payload = JNull,
     op_requested_by = None, op_correlation_id = 1, op_idempotency_key = ''k'', op_state = InFlight, op_attempt = 1,
     op_max_attempts = 5, op_next_attempt_at = 0, op_leased_by = Some ''w'', op_lease_expires_at = Some 1000000000,
     op_failure_class = None, op_created_at = 0, op_finished_at = None, op_progress_percent = 0,
     op_progress_phase = None, op_progress_message = None, op_progress_updated_at = None, op_checkpoint = None,
     op_trace_parent = None, op_trace_state = None\<rparr>"

definition sample_projection_row :: "uuid \<Rightarrow> i64 \<Rightarrow> str \<Rightarrow> projection_row" where
  "sample_projection_row w generation digest = \<lparr>pj_workshop_id = w, pj_generation = generation,
     pj_projection_digest = digest, pj_disposition = ''present'', pj_projection = JObject []\<rparr>"

definition sample_state :: "uuid \<Rightarrow> projection_state_row" where
  "sample_state w = \<lparr>ps_workshop_id = w, ps_desired = Some \<lparr>dh_generation = 2, dh_digest = sample_image,
     dh_disposition = ''present''\<rparr>, ps_applied = Some sample_head\<rparr>"

text \<open>Two workshops, both with a new desired projection, and everything idle.\<close>

definition sample_ledger :: ledger where
  "sample_ledger = \<lparr>lg_operations = [sample_upstream 9 1, sample_upstream 10 2], lg_workshops = [1, 2],
     lg_projections = [sample_projection_row 1 2 sample_image, sample_projection_row 2 1 sample_prior_image,
       sample_projection_row 2 2 sample_image],
     lg_states = [sample_state 1, sample_state 2], lg_effects = [],
     lg_protocol = \<lparr>pr_mode = GenerationV1, pr_normal_ready = True, pr_recovery_ready = True,
       pr_startup_ready = True, pr_release_ready = True\<rparr>,
     lg_global = \<lparr>gl_state = LeaseIdle, gl_authority_kind = None, gl_driver_operation_id = None,
       gl_effect_run_id = None, gl_publication_id = None, gl_fence_token = 5, gl_lease_owner = None,
       gl_lease_token = None, gl_lease_expires_at = None, gl_quarantined_at = None, gl_safe_error = None\<rparr>,
     lg_routes = [sample_route 1, sample_route 2], lg_drivers = [], lg_publications = [], lg_targets = [],
     lg_snapshot = [], lg_records = []\<rparr>"

definition sample_authority :: lease_authority where
  "sample_authority = \<lparr>la_publication_id = 100, la_instance_owner = 11, la_execution_token = 12,
     la_global_lease_token = 13, la_route_lease_token = 14, la_global_fence_token = 6,
     la_target_route_fence_token = 4\<rparr>"

definition sample_admission :: "uuid \<Rightarrow> uuid \<Rightarrow> sql_statement" where
  "sample_admission operation w = SqlAdmit \<lparr>co_id = operation, co_attempt = 1, co_owner = ''w''\<rparr> w ''projection'' ''key''
     (replicate 64 CHR ''a'') 2 sample_image 11 12 13 14 60"

definition sample_loaded :: json where
  "sample_loaded = route_set_identity_json \<lparr>id_protocol_version = 1, id_publication_id = 100,
     id_publication_kind = Projection, id_global_fence_token = 6, id_route_set_digest = sample_image,
     id_scope = WorkshopPublication 1 4\<rparr>"

definition sample_prior_loaded :: json where
  "sample_prior_loaded = JObject [(''effect_run_id'', JString ''00000000-0000-4000-8000-000000000001''),
     (''sealed_digest'', JString sample_prior_image)]"

text \<open>One whole publication of the first workshop.\<close>

definition sample_staging :: "sql_statement list" where
  "sample_staging = [sample_admission 9 1,
     SqlRecordPrior sample_authority ''generations/startup-00000000-0000-4000-8000-000000000001'' 1 1
       (Some sample_prior_loaded),
     SqlRecordEntry sample_authority 1 2 sample_image ''present'' (Some sample_prior_image) sample_image,
     SqlRecordEntry sample_authority 2 1 sample_prior_image ''present'' (Some sample_prior_image) sample_prior_image]"

definition sample_publishing :: "sql_statement list" where
  "sample_publishing = [SqlSeal sample_authority (projection_selector 100) 1 2 2 2 sample_image,
     SqlStart sample_authority,
     SqlObserve sample_authority (projection_selector 100) 1 2 sample_loaded]"

definition sample_script :: "uuid \<Rightarrow> sql_statement list \<Rightarrow> (int \<times> uuid \<times> uuid \<times> sql_statement) list" where
  "sample_script i ss = map (\<lambda>(n, s). (0, i + of_nat n, i + 100 + of_nat n, s)) (enumerate 0 ss)"

definition sample_run :: "sql_statement list \<Rightarrow> db_error + publications_event list \<times> ledger" where
  "sample_run ss = run_statements sample_hash (\<lambda>_. 0) (sample_script 100 ss) sample_ledger"

lemma sample_init: "publications_init sample_ledger"
  by code_simp

lemma sample_exec: "sample_run ss = Inr (es, l) \<Longrightarrow> exec (publications_step sample_hash (\<lambda>_. 0)) sample_ledger es l"
  unfolding sample_run_def by (rule run_statements_exec)


definition sample_finish :: "ledger \<Rightarrow> db_error + (str \<times> json option) \<times> ledger" where
  "sample_finish l = finish_route_set_publication sample_hash (\<lambda>_. 0) 0 l sample_authority"

definition sample_second :: "ledger \<Rightarrow> db_error + publications_event list \<times> ledger" where
  "sample_second l = run_statements sample_hash (\<lambda>_. 0) [(0, 300, 400, sample_admission 10 2)] l"

definition sample_start :: "ledger \<Rightarrow> db_error + sql_reply \<times> ledger" where
  "sample_start l = ledger_execute sample_hash (\<lambda>_. 0) 0 500 600 (SqlStart sample_authority) l"

lemma sample_evaluated:
  "case sample_run (sample_staging @ sample_publishing) of Inl _ \<Rightarrow> False | Inr (es, l) \<Rightarrow>
     map (\<lambda>p. (pb_publication_id p, pb_phase p)) (lg_publications l) = [(100, PhaseObserved)] \<and>
     map dr_id (lg_drivers l) = [200] \<and>
     (case sample_finish l of Inl _ \<Rightarrow> False | Inr ((outcome, response), l1) \<Rightarrow>
        outcome = ''completed'' \<and>
        (case sample_second l1 of Inl _ \<Rightarrow> False | Inr (fs, l2) \<Rightarrow>
           map (\<lambda>p. (pb_publication_id p, sint (pb_global_fence_token p), pb_phase p, map_option sc_count (pb_seal p)))
             (lg_publications l2) = [(100, 6, PhaseCompleted, Some 2), (300, 7, PhaseStaging, None)] \<and>
           (case sample_start l2 of Inl _ \<Rightarrow> False | Inr _ \<Rightarrow> True)))"
  by code_simp

text \<open>The three ledgers of the run: observed, completed, and with the second publication admitted.\<close>

lemma sample_publication:
  obtains es l response l1 fs l2 r l3 where
    "exec (publications_step sample_hash (\<lambda>_. 0)) sample_ledger es l"
    "map (\<lambda>p. (pb_publication_id p, pb_phase p)) (lg_publications l) = [(100, PhaseObserved)]"
    "sample_finish l = Inr ((''completed'', response), l1)"
    "exec (publications_step sample_hash (\<lambda>_. 0)) l fs l2"
    "map (\<lambda>p. (pb_publication_id p, sint (pb_global_fence_token p), pb_phase p, map_option sc_count (pb_seal p)))
       (lg_publications l2) = [(100, 6, PhaseCompleted, Some 2), (300, 7, PhaseStaging, None)]"
    "sample_start l2 = Inr (r, l3)"
proof -
  obtain es l where run: "sample_run (sample_staging @ sample_publishing) = Inr (es, l)"
    using sample_evaluated by (cases "sample_run (sample_staging @ sample_publishing)") auto
  note evaluated = sample_evaluated [unfolded run, simplified sum.case prod.case]
  obtain response l1 where finish: "sample_finish l = Inr ((''completed'', response), l1)"
    using evaluated by (cases "sample_finish l") auto
  obtain fs l2 where second: "sample_second l1 = Inr (fs, l2)"
    using evaluated by (cases "sample_second l1") (auto simp: finish)
  obtain r l3 where start: "sample_start l2 = Inr (r, l3)"
    using evaluated by (cases "sample_start l2") (auto simp: finish second)
  have l: "map (\<lambda>p. (pb_publication_id p, pb_phase p)) (lg_publications l) = [(100, PhaseObserved)]"
      "map dr_id (lg_drivers l) = [200]"
    and l2: "map (\<lambda>p. (pb_publication_id p, sint (pb_global_fence_token p), pb_phase p, map_option sc_count (pb_seal p)))
       (lg_publications l2) = [(100, 6, PhaseCompleted, Some 2), (300, 7, PhaseStaging, None)]"
    using evaluated by (simp_all add: finish second)
  have "map pb_publication_id (lg_publications l) = [100]" using arg_cong [OF l(1), of "map fst"] by (simp add: comp_def)
  then have "300 \<notin> pb_publication_id ` set (lg_publications l)" "400 \<notin> dr_id ` set (lg_drivers l)"
    using l(2) by (simp_all flip: list.set_map)
  then have "publications_step sample_hash (\<lambda>_. 0) l
      (Statement 0 (SqlFinish sample_authority) (ReplyFinish (''completed'', response))) l1"
    by (rule step_statement) (use finish in \<open>simp add: sample_finish_def map_reply_def\<close>)
  note finished = exec_append [OF exec_one [of "publications_step sample_hash (\<lambda>_. 0)", OF this]
    run_statements_exec [OF second [unfolded sample_second_def]]]
  show thesis by (rule that [OF sample_exec [OF run] l(1) finish finished l2 start])
qed

end
