(* ===== verification/Publication_Ledger_Safety.thy ===== *)
theory Publication_Ledger_Safety
  imports Publication_Ledger_Sample "HOL-Library.Sublist"
begin

text \<open>
  What the publication ledger guarantees over every interleaving of its statements with the rest of
  the system: the invariant, that the authority of a superseded publication does nothing, that
  evidence is only added, and what a finish leaves behind.
\<close>

section \<open>Every statement keeps the invariant\<close>

lemma map_reply_Inr [result_simps]:
  "map_reply f x = Inr (r, l) \<longleftrightarrow> (\<exists>v. x = Inr (v, l) \<and> r = f v)"
  by (auto simp: map_reply_def and_then_Inr)

lemma statement_ok:
  assumes ok: "publications_ok sha256_hex column_size l"
    and fresh: "publication \<notin> pb_publication_id ` set (lg_publications l)" "driver \<notin> dr_id ` set (lg_drivers l)"
    and run: "ledger_execute sha256_hex column_size now publication driver s l = Inr (r, l')"
  shows "publications_ok sha256_hex column_size l'"
proof (cases s)
  case SqlAdmit
  then show ?thesis using run admit_ok [OF ok fresh] by (auto simp: map_reply_Inr)
next
  case SqlRenew
  then show ?thesis using run renew_ok [OF ok] by (auto simp: map_reply_Inr)
next
  case SqlRecordPrior
  then show ?thesis using run record_prior_ok [OF ok] by (auto simp: map_reply_Inr)
next
  case SqlRecordEntry
  then show ?thesis using run record_entry_ok [OF ok] by (auto simp: map_reply_Inr)
next
  case SqlSeal
  then show ?thesis using run seal_ok [OF ok] by (auto simp: map_reply_Inr)
next
  case SqlStart
  then show ?thesis using run start_ok [OF ok] by (auto simp: map_reply_Inr)
next
  case SqlObserve
  then show ?thesis using run observe_ok [OF ok] by (auto simp: map_reply_Inr)
next
  case SqlFinish
  then show ?thesis using run finish_ok [OF ok] by (auto simp: map_reply_Inr)
next
  case SqlQuarantine
  then show ?thesis using run quarantine_ok [OF ok] by (auto simp: map_reply_Inr)
qed (use ok run in auto)

lemma publications_step_ok:
  assumes "publications_ok sha256_hex column_size l" and "publications_step sha256_hex column_size l e l'"
  shows "publications_ok sha256_hex column_size l'"
  using assms(2)
proof cases
  case step_statement
  then show ?thesis by (blast intro: statement_ok [OF assms(1)])
next
  case step_environment
  then show ?thesis by (blast intro: environment_ok [OF assms(1)])
qed

interpretation publications: step_invariant publications_init "publications_step sha256_hex column_size"
  "publications_ok sha256_hex column_size" for sha256_hex column_size
  by unfold_locales (fact init_ok, fact publications_step_ok)


section \<open>Superseded authority\<close>

text \<open>The authority under which a statement runs; admissions and result reads carry none.\<close>

fun presented_authority :: "sql_statement \<Rightarrow> lease_authority option" where
  "presented_authority (SqlRenew a _) = Some a"
| "presented_authority (SqlReadSnapshot a _ _) = Some a"
| "presented_authority (SqlRecordPrior a _ _ _ _) = Some a"
| "presented_authority (SqlRecordEntry a _ _ _ _ _ _) = Some a"
| "presented_authority (SqlSeal a _ _ _ _ _ _) = Some a"
| "presented_authority (SqlStart a) = Some a"
| "presented_authority (SqlObserve a _ _ _ _) = Some a"
| "presented_authority (SqlFinish a) = Some a"
| "presented_authority (SqlQuarantine a _) = Some a"
| "presented_authority _ = None"

lemma superseded_completed:
  assumes ok: "publications_ok sha256_hex column_size l"
    and "p \<in> set (lg_publications l)" and "q \<in> set (lg_publications l)"
    and "sint (pb_global_fence_token p) < sint (pb_global_fence_token q)"
  shows "pb_phase p = PhaseCompleted"
proof (rule ccontr)
  assume "pb_phase p \<noteq> PhaseCompleted"
  then have "gl_fence_token (lg_global l) = pb_global_fence_token p"
    using publications_okD(8) [OF ok assms(2)] by (simp add: leases_ok_def owns_global_def Let_def)
  moreover have "sint (pb_global_fence_token q) \<le> sint (gl_fence_token (lg_global l))"
    using publications_okD(3) [OF ok] assms(3) by (simp add: fences_ok_def)
  ultimately show False using assms(4) by simp
qed

lemma completed_unauthorised:
  assumes "ledger_keys l" and "p \<in> set (lg_publications l)" and "pb_phase p = PhaseCompleted"
    and "la_publication_id a = pb_publication_id p"
  shows "authorised now l a = None" "find_publication l (la_publication_id a) = Some p"
proof -
  show f: "find_publication l (la_publication_id a) = Some p"
    using find_publication_key [OF assms(1,2)] assms(4) by simp
  show "authorised now l a = None"
  proof (cases "authorised now l a")
    case (Some x)
    then have "x = p" using f by (simp add: authorised_def split: if_splits)
    with authorisedD(3) [OF Some assms(1)] assms(3) show ?thesis by (simp add: live_phases_def)
  qed simp
qed

lemma completed_inert:
  assumes ok: "publications_ok sha256_hex column_size l"
    and p: "p \<in> set (lg_publications l)" "pb_phase p = PhaseCompleted"
    and s: "presented_authority s = Some a" "la_publication_id a = pb_publication_id p"
    and run: "ledger_execute sha256_hex column_size now publication driver s l = Inr (r, l')"
  shows "l' = l \<and> r \<in> {ReplyBool False, ReplySnapshot [], ReplyText ''authority_lost'', ReplyText ''invalid'',
    ReplyFinish (''invalid'', None), ReplyFinish (''conflict'', None), ReplyFinish (''replay'', pb_final_response p)}"
proof -
  note none = completed_unauthorised [OF publications_okD(1) [OF ok] p s(2)]
  have h: "\<not> lock_route_set_publication_authority now l a"
    using none(1) [of now] none(2) by (auto simp: authorised_def split: if_splits)
  then have h': "\<not> has_route_set_publication_authority now l a"
    using none(2) by (simp add: lock_route_set_publication_authority_def)
  note eval = map_reply_Inr and_then_Inr ok_or_Inr none p(2) live_phases_def
  from s(1) run show ?thesis
  proof (cases s)
    case (SqlFinish b)
    with s(1) run show ?thesis
      by (auto simp: eval finish_route_set_publication_def split: if_splits)
  next
    case (SqlQuarantine b e)
    with s(1) run show ?thesis
      by (auto simp: eval quarantine_route_set_publication_def Let_def split: if_splits option.splits)
  qed (auto simp: eval h h' renew_route_set_publication_def read_route_set_publication_snapshot_batch_def
      record_route_set_publication_prior_def record_route_set_publication_prior_identity_v1_def
      record_route_set_publication_entry_def seal_route_set_publication_def start_route_set_publication_def
      observe_route_set_publication_def split: if_splits)
qed




section \<open>Reachable ledgers\<close>



text \<open>
  C13. What is sealed is the snapshot. In every reachable ledger, a publication that carries a seal
  has one record for each row of its snapshot, in the order of the workshop ids and without
  repetition; each record repeats the row's generation, digest and disposition, and renders every
  workshop but the target exactly as it is applied; the seal's counts and digest are those of the
  records.
\<close>

theorem sealed_rows_exact:
  assumes "publications_init l0" and "exec (publications_step sha256_hex column_size) l0 es l"
    and "p \<in> set (lg_publications l)" and "pb_seal p = Some c"
  shows "list_all2 record_matches (records_of l (pb_publication_id p)) (snapshot_of l (pb_publication_id p)) \<and>
    distinct (map rr_workshop_id (records_of l (pb_publication_id p))) \<and>
    sc_count c = int (length (records_of l (pb_publication_id p))) \<and>
    sc_present_count c = present_count l (pb_publication_id p) \<and>
    sc_route_set_digest c = route_set_publication_digest sha256_hex l (pb_publication_id p)"
proof -
  have ok: "publications_ok sha256_hex column_size l" by (rule publications.reach_inv [OF assms(2,1)])
  note records = publications_okD(6) [OF ok assms(3), unfolded records_ok_def]
    and evidence = publications_okD(7) [OF ok assms(3)]
  have seal: "sc_count c = int (length (records_of l (pb_publication_id p)))"
    "sc_present_count c = present_count l (pb_publication_id p)"
    "sc_route_set_digest c = route_set_publication_digest sha256_hex l (pb_publication_id p)"
    using evidence assms(4) by (simp_all add: publication_evidence_ok_def seal_exact_def)
  have "sc_count c = pb_snapshot_count p"
    using evidence assms(4) by (simp add: publication_evidence_ok_def publication_check_def)
  then have "take (length (records_of l (pb_publication_id p))) (snapshot_of l (pb_publication_id p)) =
      snapshot_of l (pb_publication_id p)"
    using records seal(1) by simp
  then have all: "list_all2 record_matches (records_of l (pb_publication_id p)) (snapshot_of l (pb_publication_id p))"
    using records by simp
  then have "map rr_workshop_id (records_of l (pb_publication_id p)) =
      map sn_workshop_id (snapshot_of l (pb_publication_id p))"
    by (induction rule: list_all2_induct) (simp_all add: record_matches_def)
  then have "distinct (map rr_workshop_id (records_of l (pb_publication_id p)))" using records by simp
  with all seal show ?thesis by simp
qed

theorem sealed_rows_exact_witness:
  "\<exists>es l p. exec (publications_step sample_hash (\<lambda>_. 0)) sample_ledger es l \<and> p \<in> set (lg_publications l) \<and>
     length (records_of l (pb_publication_id p)) = 2 \<and>
     list_all2 record_matches (records_of l (pb_publication_id p)) (snapshot_of l (pb_publication_id p))"
proof (rule sample_publication)
  fix es l fs l2
  assume run: "exec (publications_step sample_hash (\<lambda>_. 0)) sample_ledger es l"
      "exec (publications_step sample_hash (\<lambda>_. 0)) l fs l2"
    and rows: "map (\<lambda>p. (pb_publication_id p, sint (pb_global_fence_token p), pb_phase p, map_option sc_count (pb_seal p)))
       (lg_publications l2) = [(100, 6, PhaseCompleted, Some 2), (300, 7, PhaseStaging, None)]"
  obtain p q c where l2: "lg_publications l2 = [p, q]" and c: "pb_seal p = Some c" "sc_count c = 2"
    using rows by auto
  have p: "p \<in> set (lg_publications l2)" by (simp add: l2)
  from sealed_rows_exact [OF sample_init exec_append [OF run] p c(1)] c(2) p exec_append [OF run]
  show ?thesis by (intro exI [of _ "es @ fs"] exI [of _ l2] exI [of _ p]) simp
qed


section \<open>History\<close>

text \<open>A later version of a publication row: the same identity, evidence only added, final when completed.\<close>

definition publication_kept :: "publication_row \<Rightarrow> publication_row \<Rightarrow> bool" where
  "publication_kept p p' \<longleftrightarrow> parent_update_allowed p p' \<and> evidence_kept p p' \<and> (pb_phase p = PhaseCompleted \<longrightarrow> p' = p)"

definition history_kept :: "ledger \<Rightarrow> ledger \<Rightarrow> bool" where
  "history_kept l l' \<longleftrightarrow>
     (\<forall>p \<in> set (lg_publications l). \<exists>p' \<in> set (lg_publications l'). publication_kept p p' \<and>
        find_target l' (pb_publication_id p) = find_target l (pb_publication_id p) \<and>
        snapshot_of l' (pb_publication_id p) = snapshot_of l (pb_publication_id p) \<and>
        prefix (records_of l (pb_publication_id p)) (records_of l' (pb_publication_id p)))"

lemma publication_kept_refl [simp]: "publication_kept p p"
  by (simp add: publication_kept_def parent_update_allowed_def evidence_kept_def)

lemma publication_kept_id: "publication_kept p p' \<Longrightarrow> pb_publication_id p' = pb_publication_id p"
  by (simp add: publication_kept_def parent_update_allowed_def)

lemma publication_kept_trans:
  assumes "publication_kept p q" and "publication_kept q r"
  shows "publication_kept p r"
proof -
  have "parent_update_allowed p r"
    using assms by (simp add: publication_kept_def parent_update_allowed_def)
  moreover have "evidence_kept p r"
    using assms unfolding publication_kept_def evidence_kept_def by metis
  ultimately show ?thesis using assms by (simp add: publication_kept_def)
qed

lemma history_refl [simp]: "history_kept l l"
  by (force simp: history_kept_def)

lemma history_trans:
  assumes "history_kept l m" and "history_kept m n"
  shows "history_kept l n"
  unfolding history_kept_def
proof
  fix p assume "p \<in> set (lg_publications l)"
  then obtain q where q: "q \<in> set (lg_publications m)" "publication_kept p q"
      "find_target m (pb_publication_id p) = find_target l (pb_publication_id p)"
      "snapshot_of m (pb_publication_id p) = snapshot_of l (pb_publication_id p)"
      "prefix (records_of l (pb_publication_id p)) (records_of m (pb_publication_id p))"
    using assms(1) by (auto simp: history_kept_def)
  note id = publication_kept_id [OF q(2)]
  obtain r where r: "r \<in> set (lg_publications n)" "publication_kept q r"
      "find_target n (pb_publication_id p) = find_target m (pb_publication_id p)"
      "snapshot_of n (pb_publication_id p) = snapshot_of m (pb_publication_id p)"
      "prefix (records_of m (pb_publication_id p)) (records_of n (pb_publication_id p))"
    using assms(2) q(1) by (auto simp: history_kept_def id)
  show "\<exists>p' \<in> set (lg_publications n). publication_kept p p' \<and>
      find_target n (pb_publication_id p) = find_target l (pb_publication_id p) \<and>
      snapshot_of n (pb_publication_id p) = snapshot_of l (pb_publication_id p) \<and>
      prefix (records_of l (pb_publication_id p)) (records_of n (pb_publication_id p))"
    by (rule bexI [OF _ r(1)])
      (use q r publication_kept_trans [OF q(2) r(2)] prefix_order.trans [OF q(5) r(5)] in simp)
qed

lemma history_same:
  assumes "lg_publications l' = lg_publications l" and "lg_targets l' = lg_targets l"
    and "lg_snapshot l' = lg_snapshot l" and "lg_records l' = lg_records l"
  shows "history_kept l l'"
  using assms(1) by (auto simp: history_kept_def find_target_cong [OF assms(2)] snapshot_of_cong [OF assms(3)]
      records_of_cong [OF assms(4)] intro!: bexI)

lemma history_update:
  assumes "update_publications column_size c f l = Inr (n, l')"
  shows "history_kept l l'"
proof -
  have allowed: "\<And>x. x \<in> set (lg_publications l) \<Longrightarrow> c x \<Longrightarrow>
      parent_update_allowed x (f x) \<and> phase_transition_allowed l x (f x)"
    and l': "l' = l\<lparr>lg_publications := map (\<lambda>x. if c x then f x else x) (lg_publications l)\<rparr>"
    using assms by (auto simp: update_publications_def result_simps list_all_iff update_where_def split: prod.splits)
  have "publication_kept x (if c x then f x else x)" if "x \<in> set (lg_publications l)" for x
    using allowed [OF that] by (cases "c x") (simp_all, simp add: publication_kept_def phase_transition_allowed_def)
  moreover have "find_target l' = find_target l" "snapshot_of l' = snapshot_of l" "records_of l' = records_of l"
    by (simp_all add: l' fun_eq_iff find_target_def snapshot_of_def records_of_def)
  moreover have "(if c x then f x else x) \<in> set (lg_publications l')" if "x \<in> set (lg_publications l)" for x
    using that by (auto simp: l')
  ultimately show ?thesis unfolding history_kept_def by (metis prefix_order.refl)
qed

lemma history_set:
  "set_publication column_size i f l = Inr l' \<Longrightarrow> history_kept l l'"
  by (auto simp: set_publication_def and_then_Inr dest: history_update)

lemma history_record_entry:
  assumes ok: "publications_ok sha256_hex column_size l"
    and "record_route_set_publication_entry now l a w generation digest disposition applied rendered = Inr (x, l')"
  shows "history_kept l l'"
proof (cases "l' = l")
  case False
  obtain p s r where p: "authorised now l a = Some p" and n: "next_expected l (la_publication_id a) = Some (rr_workshop_id r)"
    and r: "rr_publication_id r = la_publication_id a" "l' = l\<lparr>lg_records := lg_records l @ [r]\<rparr>"
    using record_entry_change [OF assms(2) False] by metis
  note p' = authorisedD [OF p publications_okD(1) [OF ok]]
  have "records_of l' (pb_publication_id p) = records_of l (pb_publication_id p) @ [r]"
    unfolding r(2) by (rule records_of_snoc [OF publications_okD(6) [OF ok p'(1)]]) (use n r p'(2) in simp_all)
  then have "prefix (records_of l (pb_publication_id q)) (records_of l' (pb_publication_id q))" for q
    using r p'(2) records_of_snoc_other by (cases "pb_publication_id q = la_publication_id a") (simp_all add: records_of_snoc_other)
  moreover have "find_target l' = find_target l" "snapshot_of l' = snapshot_of l"
    by (simp_all add: r(2) fun_eq_iff find_target_def snapshot_of_def)
  ultimately show ?thesis unfolding history_kept_def by (auto simp: r(2) intro: rev_bexI)
qed simp

lemma history_admit:
  assumes ok: "publications_ok sha256_hex column_size l"
    and fresh: "publication \<notin> pb_publication_id ` set (lg_publications l)"
    and "admit_route_set_publication column_size now publication driver l c = Inr (x, l')"
  shows "history_kept l l'"
proof (cases "l' = l")
  case False
  obtain route state desired applied gf rf where "gl_state (lg_global l) = LeaseIdle" "\<not> fleet_not_ready l c"
      "find_route_lease l (Some (ac_workshop_id c)) = Some route" "find_state l (Some (ac_workshop_id c)) = Some state"
      "ps_desired state = Some desired" "ps_applied state = Some applied"
      "next_fence (gl_fence_token (lg_global l)) = Inr gf"
      "next_fence (greatest (rl_fence_token route) (ah_fence_token applied)) = Inr rf"
    and g: "admission_grant column_size now l c publication driver desired applied gf rf = Inr l'"
    by (rule admit_change [OF assms(3) False])
  note l' = admission_grant_Inr(3) [OF g]
  show ?thesis
    unfolding history_kept_def
  proof
    fix p assume p: "p \<in> set (lg_publications l)"
    show "\<exists>p' \<in> set (lg_publications l'). publication_kept p p' \<and>
        find_target l' (pb_publication_id p) = find_target l (pb_publication_id p) \<and>
        snapshot_of l' (pb_publication_id p) = snapshot_of l (pb_publication_id p) \<and>
        prefix (records_of l (pb_publication_id p)) (records_of l' (pb_publication_id p))"
      by (rule bexI [of _ p]) (use p admitted_others [OF ok p fresh l'] in \<open>simp_all add: l'\<close>)
  qed
qed simp

lemma history_finish:
  assumes "finish_route_set_publication sha256_hex column_size now l a = Inr (x, l')"
  shows "history_kept l l'"
proof (cases "l' = l")
  case False
  obtain p t r where u: "finish_updates column_size now l a p t r (expected_response p t r) = Inr l'"
    using finish_cases [OF assms(1)] False by auto
  obtain h where "update_publications column_size (\<lambda>p. pb_publication_id p = la_publication_id a \<and>
       pb_phase p = PhaseObserved \<and> pb_finished_at p = None \<and> pb_final_response p = None)
     (finished_row now (expected_response p t r)) (finished_ledger now a p t h (expected_response p t r) l) = Inr (1, l')"
    by (rule finish_updates_Inr [OF u])
  then have "history_kept (finished_ledger now a p t h (expected_response p t r) l) l'" by (rule history_update)
  then show ?thesis by (rule history_trans [OF history_same, rotated 4]) simp_all
qed simp

lemma history_quarantine:
  assumes "quarantine_route_set_publication column_size now l a e = Inr (x, l')"
  shows "history_kept l l'"
proof (cases "l' = l")
  case False
  obtain p t where g: "quarantine_authority a t (lg_global l) (find_route_lease l (Some (tg_workshop_id t)))
       (find_driver l (pb_driver_operation_id p))"
    and u: "quarantine_updates column_size now l a p t e = Inr l'"
    using quarantine_change [OF assms(1) False] by metis
  have "gl_publication_id (lg_global l) = Some (la_publication_id a)" using g by (simp add: quarantine_authority_def)
  from history_set [OF quarantine_updates_Inr [OF u this]]
  show ?thesis by (rule history_trans [OF history_same, rotated 4]) simp_all
qed simp

lemma statement_history:
  assumes ok: "publications_ok sha256_hex column_size l"
    and fresh: "publication \<notin> pb_publication_id ` set (lg_publications l)"
    and run: "ledger_execute sha256_hex column_size now publication driver s l = Inr (r, l')"
  shows "history_kept l l'"
proof (cases s)
  case SqlAdmit
  then show ?thesis using run history_admit [OF ok fresh] by (auto simp: map_reply_Inr)
next
  case (SqlRenew a ttl)
  then have "leases_extended l l'" using run by (auto simp: map_reply_Inr intro: renew_extends)
  then show ?thesis by (intro history_same) (simp_all add: leases_extended_def)
next
  case SqlRecordPrior
  then show ?thesis using run
    by (auto simp: map_reply_Inr and_then_Inr record_route_set_publication_prior_def
        record_route_set_publication_prior_identity_v1_def split: if_splits option.splits dest: history_set)
next
  case SqlRecordEntry
  then show ?thesis using run history_record_entry [OF ok] by (auto simp: map_reply_Inr)
next
  case SqlSeal
  then show ?thesis using run
    by (auto simp: map_reply_Inr and_then_Inr seal_route_set_publication_def split: if_splits option.splits dest: history_set)
next
  case SqlStart
  then show ?thesis using run
    by (auto simp: map_reply_Inr and_then_Inr start_route_set_publication_def split: if_splits option.splits dest: history_set)
next
  case SqlObserve
  then show ?thesis using run
    by (auto simp: map_reply_Inr and_then_Inr observe_route_set_publication_def split: if_splits option.splits dest: history_set)
next
  case SqlFinish
  then show ?thesis using run history_finish by (auto simp: map_reply_Inr)
next
  case SqlQuarantine
  then show ?thesis using run history_quarantine by (auto simp: map_reply_Inr)
qed (use run in auto)

lemma step_history:
  assumes "publications_ok sha256_hex column_size l" and "publications_step sha256_hex column_size l e l'"
  shows "history_kept l l'"
  using assms(2)
proof cases
  case step_statement
  then show ?thesis by (blast intro: statement_history [OF assms(1)])
next
  case step_environment
  then show ?thesis by (intro history_same) (simp_all add: environment_change_def)
qed




section \<open>What a finish does\<close>

lemma unique_update:
  assumes "distinct (map k xs)" and "length (filter c xs) = 1" and "\<And>x. c x \<Longrightarrow> k x = i"
  shows "map (\<lambda>x. if c x then f x else x) xs = map (\<lambda>x. if k x = i then f x else x) xs"
proof (rule map_cong [OF refl])
  obtain y where y: "y \<in> set xs" "c y" using assms(2) by (metis filter_False length_0_conv zero_neq_one)
  fix x assume "x \<in> set xs"
  then have "c x \<longleftrightarrow> k x = i" using y assms(1,3) by (metis distinct_key_unique)
  then show "(if c x then f x else x) = (if k x = i then f x else x)" by simp
qed

lemma finish_receipt:
  assumes ok: "publications_ok sha256_hex column_size l" and p: "find_publication l (la_publication_id a) = Some p"
    and t: "find_target l (la_publication_id a) = Some t"
    and r: "find_record l (la_publication_id a) (pb_target_workshop_id p) = Some r" and phase: "pb_phase p = PhaseObserved"
    and u: "finish_updates column_size now l a p t r (expected_response p t r) = Inr l'"
  obtains h where "l' = put_publication (finished_row now (expected_response p t r) p)
      (finished_ledger now a p t h (expected_response p t r) l)"
    "lg_states l' = map (\<lambda>s. if ps_workshop_id s = tg_workshop_id t then s\<lparr>ps_applied := Some h\<rparr> else s) (lg_states l)"
    "\<exists>d \<in> set (lg_drivers l'). pb_driver_operation_id p = Some (dr_id d) \<and> driver_receipt d (expected_response p t r)"
    "\<exists>s \<in> set (lg_states l'). ps_workshop_id s = tg_workshop_id t \<and> ps_applied s = Some (head_of_target p t r)"
    "global_released (lg_global l') (pb_global_fence_token p)"
    "\<exists>x \<in> set (lg_routes l'). rl_workshop_id x = tg_workshop_id t \<and> route_released x (tg_route_fence_token t)"
proof -
  let ?response = "expected_response p t r"
  have i: "pb_publication_id p = la_publication_id a" and pl: "p \<in> set (lg_publications l)"
    using find_publicationD [OF p] by simp_all
  have keys: "ledger_keys l" by (rule publications_okD(1) [OF ok])
  obtain h where one: "length (filter (target_head_current t) (lg_states l)) = 1"
    and s: "update_publications column_size (\<lambda>p. pb_publication_id p = la_publication_id a \<and> pb_phase p = PhaseObserved \<and>
         pb_finished_at p = None \<and> pb_final_response p = None) (finished_row now ?response)
       (finished_ledger now a p t h ?response l) = Inr (1, l')"
    by (rule finish_updates_Inr [OF u])
  let ?l1 = "finished_ledger now a p t h ?response l" and ?q = "finished_row now ?response p"
  have "pb_finished_at p = None" "pb_final_response p = None"
    using publications_okD(7) [OF ok pl] phase
    by (auto simp: publication_evidence_ok_def publication_check_def phase_evidence_def)
  with keys phase i pl have trigger: "phase_transition_allowed ?l1 p ?q" and l': "l' = put_publication ?q ?l1"
    using update_publications_put [OF s, of p] by (simp_all add: ledger_keys_def)
  have states: "lg_states l' = map (\<lambda>s. if ps_workshop_id s = tg_workshop_id t then s\<lparr>ps_applied := Some h\<rparr> else s)
      (lg_states l)"
    using unique_update [OF _ one, of ps_workshop_id "tg_workshop_id t" "\<lambda>s. s\<lparr>ps_applied := Some h\<rparr>"] keys
    by (simp add: l' finished_ledger_def ledger_keys_def target_head_current_def)
  have tr: "find_target ?l1 = find_target l" "find_record ?l1 = find_record l"
    by (simp_all add: fun_eq_iff find_target_def find_record_def)
  have eq: "expected_response ?q t r = ?response" "head_of_target ?q t r = head_of_target p t r"
    "find_target l (pb_publication_id ?q) = Some t" "find_record l (pb_publication_id ?q) (pb_target_workshop_id ?q) = Some r"
    "pb_driver_operation_id ?q = pb_driver_operation_id p" "pb_global_fence_token ?q = pb_global_fence_token p"
    using t r by (simp_all add: finished_row_def expected_response_def head_of_target_def i)
  have "completed_receipt_exact ?l1 ?q"
    using trigger by (simp add: phase_transition_allowed_def finished_row_def)
  note receipt = this [unfolded completed_receipt_exact_def tr eq(3,4), simplified, unfolded eq]
  show ?thesis by (rule that [OF l' states]) (use receipt l' in auto)
qed

text \<open>
  C14. A finish applies exactly the target. When a finish completes in a reachable ledger, the
  publication was observed and is now completed with the response returned; the applied head of the
  target workshop becomes the published generation, digest and rendered digest under the route
  fence, and no other workshop's heads move; the driver operation succeeded with the same response;
  the shared runtime and the target's route are idle again with their fences kept.
\<close>

theorem finish_applies_target:
  assumes "publications_init l0" and "exec (publications_step sha256_hex column_size) l0 es l"
    and "finish_route_set_publication sha256_hex column_size now l a = Inr ((''completed'', response), l')"
  shows "\<exists>p t r. find_publication l (la_publication_id a) = Some p \<and> pb_phase p = PhaseObserved \<and>
    find_target l (la_publication_id a) = Some t \<and>
    find_record l (la_publication_id a) (pb_target_workshop_id p) = Some r \<and>
    response = Some (expected_response p t r) \<and>
    find_publication l' (la_publication_id a) =
      Some (p\<lparr>pb_phase := PhaseCompleted, pb_finished_at := Some now, pb_final_response := response\<rparr>) \<and>
    lg_states l' = map (\<lambda>s. if ps_workshop_id s = tg_workshop_id t
      then s\<lparr>ps_applied := Some (head_of_target p t r)\<rparr> else s) (lg_states l) \<and>
    (\<exists>d \<in> set (lg_drivers l'). pb_driver_operation_id p = Some (dr_id d) \<and>
       driver_receipt d (expected_response p t r)) \<and>
    global_released (lg_global l') (pb_global_fence_token p) \<and>
    (\<exists>x \<in> set (lg_routes l'). rl_workshop_id x = tg_workshop_id t \<and> route_released x (tg_route_fence_token t))"
proof -
  have ok: "publications_ok sha256_hex column_size l" by (rule publications.reach_inv [OF assms(2,1)])
  have ok': "publications_ok sha256_hex column_size l'" by (rule finish_ok [OF ok assms(3)])
  obtain p t r where p: "find_publication l (la_publication_id a) = Some p" and t: "find_target l (la_publication_id a) = Some t"
    and r: "find_record l (la_publication_id a) (pb_target_workshop_id p) = Some r" and phase: "pb_phase p = PhaseObserved"
    and response: "response = Some (expected_response p t r)"
    and u: "finish_updates column_size now l a p t r (expected_response p t r) = Inr l'"
    using finish_cases [OF assms(3)] by auto
  let ?q = "finished_row now (expected_response p t r) p"
  have i: "pb_publication_id p = la_publication_id a" and pl: "p \<in> set (lg_publications l)"
    using find_publicationD [OF p] by simp_all
  obtain h where l': "l' = put_publication ?q (finished_ledger now a p t h (expected_response p t r) l)"
    and states: "lg_states l' = map (\<lambda>s. if ps_workshop_id s = tg_workshop_id t then s\<lparr>ps_applied := Some h\<rparr> else s)
      (lg_states l)"
    and receipt: "\<exists>d \<in> set (lg_drivers l'). pb_driver_operation_id p = Some (dr_id d) \<and> driver_receipt d (expected_response p t r)"
    "\<exists>s \<in> set (lg_states l'). ps_workshop_id s = tg_workshop_id t \<and> ps_applied s = Some (head_of_target p t r)"
    "global_released (lg_global l') (pb_global_fence_token p)"
    "\<exists>x \<in> set (lg_routes l'). rl_workshop_id x = tg_workshop_id t \<and> route_released x (tg_route_fence_token t)"
    by (rule finish_receipt [OF ok p t r phase u])
  have "h = head_of_target p t r" using receipt(2) by (auto simp: states split: if_splits)
  moreover have "find_publication l' (la_publication_id a) = Some ?q"
    using find_publication_key [OF publications_okD(1) [OF ok'], of ?q]
      put_publication_set [of p "finished_ledger now a p t h (expected_response p t r) l" ?q] pl i
    by (simp add: l' finished_row_def)
  ultimately show ?thesis
    using p t r phase response receipt(1,3,4)
    by (intro exI [of _ p] exI [of _ t] exI [of _ r]) (simp add: states finished_row_def)
qed

theorem finish_applies_target_witness:
  "\<exists>es l response l'. exec (publications_step sample_hash (\<lambda>_. 0)) sample_ledger es l \<and>
     finish_route_set_publication sample_hash (\<lambda>_. 0) 0 l sample_authority = Inr ((''completed'', response), l') \<and>
     gl_state (lg_global l') = LeaseIdle"
proof (rule sample_publication)
  fix es l response l1
  assume run: "exec (publications_step sample_hash (\<lambda>_. 0)) sample_ledger es l"
    and finish: "sample_finish l = Inr ((''completed'', response), l1)"
  note finish' = finish [unfolded sample_finish_def]
  from finish_applies_target [OF sample_init run finish'] have "gl_state (lg_global l1) = LeaseIdle"
    by (auto simp: global_released_def)
  with run finish' show ?thesis by (intro exI [of _ es] exI [of _ l] exI [of _ response] exI [of _ l1]) simp
qed

end
