(* ===== verification/Task_Supervisor.thy ===== *)
theory Task_Supervisor
  imports Rust_Base
begin

text \<open>
  The supervisor of the driver's background tasks (\<open>docker_driver/task_supervisor.rs\<close>): admission
  with a bounded number of slots, one service per service kind, cleanup tasks spawned through owned
  capabilities, and the actor that owns every spawned task and decides when a drain is complete.

  The state holds the shared atomics, the four channels, the locals of the actor loop and the
  handles and capabilities that other code holds. Every method is one atomic step: admission and
  the start of a drain hold the admission gate, and the other methods raise a counter before they
  send, so that the actor never receives a message it has not been told of. The exit test of the
  actor is not atomic, because it reads one atomic after the other while other threads run: each of
  its loads is a step of its own. \<open>tokio::select!\<close> is biased, but it polls its branches one after
  the other while other threads send; any ready branch may be taken.

  What user code does with a capability is left open: a task may keep the capability in its future,
  drop it, or move it out of the supervised task. Counters are natural numbers that wrap below
  zero; more than \<open>2^64\<close> tasks are not considered.
\<close>


section \<open>Kinds, metadata and failures\<close>

datatype driver_task_kind =
  KindRouteSetPublication | KindRouteSetRecovery | KindRouteSetStartup | KindRouteSetRetention
| KindReleaseOverlayPublication | KindReleaseOverlayRecovery | KindReleaseOverlayStartup
| KindReleaseOverlayRetention | KindGenerationRetentionScheduler | KindSafetyCleanup

fun task_kind_as_str :: "driver_task_kind \<Rightarrow> str" where
  "task_kind_as_str KindRouteSetPublication = ''route_set_publication''"
| "task_kind_as_str KindRouteSetRecovery = ''route_set_recovery''"
| "task_kind_as_str KindRouteSetStartup = ''route_set_startup''"
| "task_kind_as_str KindRouteSetRetention = ''route_set_retention''"
| "task_kind_as_str KindReleaseOverlayPublication = ''release_overlay_publication''"
| "task_kind_as_str KindReleaseOverlayRecovery = ''release_overlay_recovery''"
| "task_kind_as_str KindReleaseOverlayStartup = ''release_overlay_startup''"
| "task_kind_as_str KindReleaseOverlayRetention = ''release_overlay_retention''"
| "task_kind_as_str KindGenerationRetentionScheduler = ''generation_retention_scheduler''"
| "task_kind_as_str KindSafetyCleanup = ''safety_cleanup''"

fun is_internal :: "driver_task_kind \<Rightarrow> bool" where
  "is_internal KindSafetyCleanup = True"
| "is_internal _ = False"

fun is_service :: "driver_task_kind \<Rightarrow> bool" where
  "is_service KindGenerationRetentionScheduler = True"
| "is_service _ = False"

fun service_bit :: "driver_task_kind \<Rightarrow> 64 word option" where
  "service_bit KindGenerationRetentionScheduler = Some (push_bit 0 1)"
| "service_bit _ = None"

type_synonym driver_task_failure = str

definition failure_byte :: "char \<Rightarrow> bool" where
  "failure_byte c \<longleftrightarrow> (CHR ''a'' \<le> c \<and> c \<le> CHR ''z'') \<or> (CHR ''0'' \<le> c \<and> c \<le> CHR ''9'') \<or> c = CHR ''_''"

definition driver_task_failure_new :: "str \<Rightarrow> unit + driver_task_failure" where
  "driver_task_failure_new error_class =
     (if error_class = [] \<or> length error_class > 64 \<or> \<not> list_all failure_byte error_class then Inl ()
      else Inr error_class)"

datatype driver_task_wait_error = WaitFailed driver_task_failure | WaitSupervisorStopped

text \<open>\<open>DriverTaskReceipt::wait\<close>: a dropped sender shows as no value in the channel.\<close>

fun receipt_wait :: "(driver_task_failure + 'a) option \<Rightarrow> driver_task_wait_error + 'a" where
  "receipt_wait None = Inl WaitSupervisorStopped"
| "receipt_wait (Some r) = map_err WaitFailed r"

datatype try_admit_error = AdmitDraining | AtCapacity | AdmitQueueClosed | InternalKind
datatype try_cleanup_error = CleanupSupervisorStopped
datatype try_service_error = ServiceDraining | AlreadyStarted | ServiceQueueClosed | NotServiceKind
datatype supervisor_state = Accepting | Draining | Stopped

record task_metadata =
  tm_task_id :: uuid
  tm_root_id :: uuid
  tm_kind :: driver_task_kind
  tm_subject_id :: "uuid option"

record owned_task_capability =
  cap_root_id :: uuid
  cap_subject_id :: "uuid option"

text \<open>What the boxed future of a wrapped task owns until it is dropped.\<close>

record boxed_task =
  bt_permit :: bool
  bt_capabilities :: "owned_task_capability list"

record spawn_command =
  sc_metadata :: task_metadata
  sc_task :: boxed_task

datatype internal_command = SpawnCleanup spawn_command | CapabilityDropped
datatype control_command = Drain

datatype task_outcome = TaskCompleted | TaskFailed driver_task_failure

text \<open>What \<open>join_next_with_id\<close> yields for a task: its report, or a cancelled or panicked join error.\<close>

datatype join_result = JoinReport task_outcome | JoinCancelled | JoinPanicked

record join_task =
  jt_id :: nat
  jt_task :: boxed_task
  jt_joined :: "join_result option"


section \<open>State\<close>

record shared_state =
  sh_state :: supervisor_state
  sh_admitted_capacity :: nat
  sh_admitted_slots :: nat
  sh_admitted_queued :: nat
  sh_internal_queued :: nat
  sh_service_queued :: nat
  sh_admitted_active :: nat
  sh_internal_active :: nat
  sh_service_active :: nat
  sh_service_started_bits :: "64 word"
  sh_owned_capabilities :: nat
  sh_completed :: nat
  sh_failed :: nat
  sh_panicked :: nat
  sh_cancelled :: nat

datatype actor_pc =
  LoopTop | LoadAdmitted | LoadInternal | LoadService | LoadOwned | Selecting | Breaking | Ended | SelectPanicked

text \<open>
  The shared atomics, the channels, the locals of the actor, and what other code holds: clones of
  the handle, the lifecycle, and capabilities that were moved out of their task.
\<close>

record supervisor = shared_state +
  sv_admitted :: "spawn_command list"
  sv_service :: "spawn_command list"
  sv_internal :: "internal_command list"
  sv_control :: "control_command list"
  sv_tasks :: "join_task list"
  sv_metadata :: "nat \<Rightarrow> task_metadata option"
  sv_next_id :: nat
  sv_draining :: bool
  sv_control_open :: bool
  sv_internal_open :: bool
  sv_admitted_open :: bool
  sv_service_open :: bool
  sv_pc :: actor_pc
  sv_handles :: nat
  sv_lifecycle :: bool
  sv_drained :: bool
  sv_escaped :: "owned_task_capability list"

text \<open>The receivers live as long as the actor runs.\<close>

definition receivers_open :: "supervisor \<Rightarrow> bool" where
  "receivers_open s \<longleftrightarrow> sv_pc s \<noteq> Ended \<and> sv_pc s \<noteq> SelectPanicked"

text \<open>\<open>fetch_sub(1)\<close> on an \<open>AtomicUsize\<close>.\<close>

definition fetch_sub :: "nat \<Rightarrow> nat" where
  "fetch_sub n = (if n = 0 then 2 ^ 64 - 1 else n - 1)"

record driver_task_supervisor_snapshot =
  sn_state :: supervisor_state
  sn_admitted_capacity :: nat
  sn_admitted_available :: nat
  sn_admitted_queued :: nat
  sn_internal_queued :: nat
  sn_service_queued :: nat
  sn_admitted_active :: nat
  sn_internal_active :: nat
  sn_service_active :: nat
  sn_owned_capabilities :: nat
  sn_completed :: nat
  sn_failed :: nat
  sn_panicked :: nat
  sn_cancelled :: nat

definition snapshot :: "supervisor \<Rightarrow> driver_task_supervisor_snapshot" where
  "snapshot s =
     \<lparr>sn_state = sh_state s, sn_admitted_capacity = sh_admitted_capacity s,
      sn_admitted_available = sh_admitted_slots s, sn_admitted_queued = sh_admitted_queued s,
      sn_internal_queued = sh_internal_queued s, sn_service_queued = sh_service_queued s,
      sn_admitted_active = sh_admitted_active s, sn_internal_active = sh_internal_active s,
      sn_service_active = sh_service_active s, sn_owned_capabilities = sh_owned_capabilities s,
      sn_completed = sh_completed s, sn_failed = sh_failed s, sn_panicked = sh_panicked s,
      sn_cancelled = sh_cancelled s\<rparr>"

definition snapshot_active :: "driver_task_supervisor_snapshot \<Rightarrow> nat" where
  "snapshot_active n = sn_admitted_active n + sn_internal_active n + sn_service_active n"

definition snapshot_queued :: "driver_task_supervisor_snapshot \<Rightarrow> nat" where
  "snapshot_queued n = sn_admitted_queued n + sn_internal_queued n + sn_service_queued n"

datatype drain_error = ActorStopped | TasksFailed nat nat nat

definition drain_result :: "driver_task_supervisor_snapshot \<Rightarrow> drain_error + driver_task_supervisor_snapshot" where
  "drain_result n =
     (if sn_failed n \<noteq> 0 \<or> sn_panicked n \<noteq> 0 \<or> sn_cancelled n \<noteq> 0
      then Inl (TasksFailed (sn_failed n) (sn_panicked n) (sn_cancelled n)) else Inr n)"

definition config_validate :: "nat \<Rightarrow> unit + nat" where
  "config_validate admitted_capacity =
     (if admitted_capacity = 0 \<or> admitted_capacity > 4096 then Inl () else Inr admitted_capacity)"

definition initial_supervisor :: "nat \<Rightarrow> supervisor" where
  "initial_supervisor n =
     \<lparr>sh_state = Accepting, sh_admitted_capacity = n, sh_admitted_slots = n,
      sh_admitted_queued = 0, sh_internal_queued = 0, sh_service_queued = 0,
      sh_admitted_active = 0, sh_internal_active = 0, sh_service_active = 0,
      sh_service_started_bits = 0, sh_owned_capabilities = 0,
      sh_completed = 0, sh_failed = 0, sh_panicked = 0, sh_cancelled = 0,
      sv_admitted = [], sv_service = [], sv_internal = [], sv_control = [],
      sv_tasks = [], sv_metadata = (\<lambda>_. None), sv_next_id = 0, sv_draining = False,
      sv_control_open = True, sv_internal_open = True, sv_admitted_open = True, sv_service_open = True,
      sv_pc = LoopTop, sv_handles = 1, sv_lifecycle = True, sv_drained = False, sv_escaped = []\<rparr>"

definition new_driver_task_supervisor :: "nat \<Rightarrow> unit + supervisor" where
  "new_driver_task_supervisor config =
     and_then (config_validate config) (\<lambda>capacity. Inr (initial_supervisor capacity))"

section \<open>Capabilities and channels\<close>

definition send_internal :: "internal_command \<Rightarrow> supervisor \<Rightarrow> supervisor" where
  "send_internal c s = (if receivers_open s then s\<lparr>sv_internal := sv_internal s @ [c]\<rparr> else s)"

text \<open>\<open>OwnedTaskCapability::new\<close> and \<open>drop\<close>.\<close>

definition new_capability :: "supervisor \<Rightarrow> supervisor" where
  "new_capability s = s\<lparr>sh_owned_capabilities := sh_owned_capabilities s + 1\<rparr>"

definition drop_capability :: "supervisor \<Rightarrow> supervisor" where
  "drop_capability s =
     send_internal CapabilityDropped (s\<lparr>sh_owned_capabilities := fetch_sub (sh_owned_capabilities s)\<rparr>)"

text \<open>A dropped future drops the capabilities it captured and returns its permit.\<close>

fun drop_capabilities :: "owned_task_capability list \<Rightarrow> supervisor \<Rightarrow> supervisor" where
  "drop_capabilities [] s = s"
| "drop_capabilities (c # cs) s = drop_capabilities cs (drop_capability s)"

definition drop_task :: "boxed_task \<Rightarrow> supervisor \<Rightarrow> supervisor" where
  "drop_task b s = (let t = drop_capabilities (bt_capabilities b) s in
     if bt_permit b then t\<lparr>sh_admitted_slots := sh_admitted_slots t + 1\<rparr> else t)"

text \<open>
  What the factory does with the capability it is given: its future captures it, it is dropped
  when the factory returns (as with a \<open>_\<close> parameter), or it is moved elsewhere.
\<close>

datatype capability_fate = Captured | Discarded | Escaped

fun run_factory ::
  "capability_fate \<Rightarrow> owned_task_capability \<Rightarrow> supervisor \<Rightarrow> owned_task_capability list \<times> supervisor" where
  "run_factory Captured c s = ([c], s)"
| "run_factory Discarded c s = ([], drop_capability s)"
| "run_factory Escaped c s = ([], s\<lparr>sv_escaped := c # sv_escaped s\<rparr>)"


section \<open>Methods of the handle, the capability and the lifecycle\<close>

definition is_accepting :: "supervisor \<Rightarrow> bool" where
  "is_accepting s \<longleftrightarrow> sh_state s = Accepting"

definition is_draining :: "supervisor \<Rightarrow> bool" where
  "is_draining s \<longleftrightarrow> sh_state s \<noteq> Accepting"

definition try_spawn_admitted ::
  "task_metadata \<Rightarrow> capability_fate \<Rightarrow> supervisor \<Rightarrow> (try_admit_error + unit) \<times> supervisor" where
  "try_spawn_admitted m fate s =
     (if is_internal (tm_kind m) \<or> is_service (tm_kind m) then (Inl InternalKind, s)
      else if sh_state s \<noteq> Accepting then (Inl AdmitDraining, s)
      else if sh_admitted_slots s = 0 then (Inl AtCapacity, s)
      else
        let (caps, t) = run_factory fate \<lparr>cap_root_id = tm_root_id m, cap_subject_id = tm_subject_id m\<rparr>
              (new_capability (s\<lparr>sh_admitted_slots := sh_admitted_slots s - 1\<rparr>));
            task = \<lparr>bt_permit = True, bt_capabilities = caps\<rparr>;
            u = t\<lparr>sh_admitted_queued := sh_admitted_queued t + 1\<rparr>
        in if \<not> receivers_open u then
             (Inl AdmitQueueClosed, drop_task task (u\<lparr>sh_admitted_queued := fetch_sub (sh_admitted_queued u)\<rparr>))
           else if length (sv_admitted u) \<ge> sh_admitted_capacity u then
             (Inl AtCapacity, drop_task task (u\<lparr>sh_admitted_queued := fetch_sub (sh_admitted_queued u)\<rparr>))
           else (Inr (), u\<lparr>sv_admitted := sv_admitted u @ [\<lparr>sc_metadata = m, sc_task = task\<rparr>]\<rparr>))"

definition try_spawn_service :: "task_metadata \<Rightarrow> supervisor \<Rightarrow> (try_service_error + unit) \<times> supervisor" where
  "try_spawn_service m s =
     (case service_bit (tm_kind m) of
        None \<Rightarrow> (Inl NotServiceKind, s)
      | Some flag \<Rightarrow>
          if sh_state s \<noteq> Accepting then (Inl ServiceDraining, s)
          else
            let started = sh_service_started_bits s;
                t = s\<lparr>sh_service_started_bits := or started flag\<rparr>
            in if and started flag \<noteq> 0 then (Inl AlreadyStarted, t)
               else
                 let u = t\<lparr>sh_service_queued := sh_service_queued t + 1\<rparr>
                 in if \<not> receivers_open u then
                      (Inl ServiceQueueClosed,
                       u\<lparr>sh_service_queued := fetch_sub (sh_service_queued u),
                         sh_service_started_bits := and (sh_service_started_bits u) (not flag)\<rparr>)
                    else
                      (Inr (), u\<lparr>sv_service := sv_service u @
                         [\<lparr>sc_metadata = m, sc_task = \<lparr>bt_permit = False, bt_capabilities = []\<rparr>\<rparr>]\<rparr>))"

definition cleanup_metadata :: "uuid \<Rightarrow> owned_task_capability \<Rightarrow> task_metadata" where
  "cleanup_metadata task_id c =
     \<lparr>tm_task_id = task_id, tm_root_id = cap_root_id c, tm_kind = KindSafetyCleanup,
      tm_subject_id = cap_subject_id c\<rparr>"

definition try_spawn_cleanup ::
  "owned_task_capability \<Rightarrow> uuid \<Rightarrow> capability_fate \<Rightarrow> supervisor \<Rightarrow> (try_cleanup_error + unit) \<times> supervisor" where
  "try_spawn_cleanup c task_id fate s =
     (if sh_state s = Stopped then (Inl CleanupSupervisorStopped, s)
      else
        let (caps, t) = run_factory fate c (new_capability s);
            task = \<lparr>bt_permit = False, bt_capabilities = caps\<rparr>;
            u = t\<lparr>sh_internal_queued := sh_internal_queued t + 1\<rparr>
        in if \<not> receivers_open u then
             (Inl CleanupSupervisorStopped,
              drop_task task (u\<lparr>sh_internal_queued := fetch_sub (sh_internal_queued u)\<rparr>))
           else
             (Inr (), send_internal (SpawnCleanup \<lparr>sc_metadata = cleanup_metadata task_id c, sc_task = task\<rparr>) u))"

definition begin_draining :: "supervisor \<Rightarrow> supervisor" where
  "begin_draining s =
     (let t = (if sh_state s = Accepting
               then let u = s\<lparr>sh_state := Draining\<rparr>
                    in if receivers_open u then u\<lparr>sv_control := sv_control u @ [Drain]\<rparr> else u
               else s)
      in t\<lparr>sv_drained := True\<rparr>)"

text \<open>Dropping the lifecycle starts a drain unless one was asked for.\<close>

definition drop_lifecycle :: "supervisor \<Rightarrow> supervisor" where
  "drop_lifecycle s =
     (let t = (if \<not> sv_drained s then begin_draining (s\<lparr>sv_drained := True\<rparr>) else s)
      in t\<lparr>sv_lifecycle := False\<rparr>)"


section \<open>Tasks\<close>

text \<open>How a task ends: its future returns, panics, or is aborted with the runtime.\<close>

datatype task_end = Returns "driver_task_failure + unit" | Panics | Aborted

text \<open>The future of a service is wrapped: a service that ends well while the supervisor accepts has failed.\<close>

definition service_result ::
  "driver_task_kind \<Rightarrow> supervisor_state \<Rightarrow> driver_task_failure + unit \<Rightarrow> driver_task_failure + unit" where
  "service_result k st r =
     (if is_service k \<and> is_ok r \<and> st = Accepting then Inl ''driver_service_exited'' else r)"

fun wrap_task :: "driver_task_failure + unit \<Rightarrow> task_outcome" where
  "wrap_task (Inr v) = TaskCompleted"
| "wrap_task (Inl f) = TaskFailed f"

fun join_result_of :: "driver_task_kind \<Rightarrow> supervisor_state \<Rightarrow> task_end \<Rightarrow> join_result" where
  "join_result_of k st (Returns r) = JoinReport (wrap_task (service_result k st r))"
| "join_result_of k st Panics = JoinPanicked"
| "join_result_of k st Aborted = JoinCancelled"

definition update_task :: "nat \<Rightarrow> (join_task \<Rightarrow> join_task) \<Rightarrow> supervisor \<Rightarrow> supervisor" where
  "update_task i f s = s\<lparr>sv_tasks := map (\<lambda>j. if jt_id j = i then f j else j) (sv_tasks s)\<rparr>"

definition task_kind :: "supervisor \<Rightarrow> join_task \<Rightarrow> driver_task_kind" where
  "task_kind s j = tm_kind (the (sv_metadata s (jt_id j)))"

text \<open>A finished future is dropped before its result can be joined.\<close>

definition finish_task :: "join_task \<Rightarrow> task_end \<Rightarrow> supervisor \<Rightarrow> supervisor" where
  "finish_task j e s =
     (let r = join_result_of (task_kind s j) (sh_state s) e
      in update_task (jt_id j) (\<lambda>k. k\<lparr>jt_task := \<lparr>bt_permit = False, bt_capabilities = []\<rparr>, jt_joined := Some r\<rparr>)
           (drop_task (jt_task j) s))"

section \<open>The actor\<close>

definition spawn_joined :: "spawn_command \<Rightarrow> supervisor \<Rightarrow> supervisor" where
  "spawn_joined command s =
     (let k = tm_kind (sc_metadata command);
          t = (if is_internal k then s\<lparr>sh_internal_active := sh_internal_active s + 1\<rparr>
               else if is_service k then s\<lparr>sh_service_active := sh_service_active s + 1\<rparr>
               else s\<lparr>sh_admitted_active := sh_admitted_active s + 1\<rparr>);
          i = sv_next_id t
      in t\<lparr>sv_tasks := sv_tasks t @ [\<lparr>jt_id = i, jt_task = sc_task command, jt_joined = None\<rparr>],
           sv_metadata := (sv_metadata t)(i \<mapsto> sc_metadata command), sv_next_id := i + 1\<rparr>)"

definition spawn_admitted :: "spawn_command \<Rightarrow> supervisor \<Rightarrow> supervisor" where
  "spawn_admitted c s = spawn_joined c (s\<lparr>sh_admitted_queued := fetch_sub (sh_admitted_queued s)\<rparr>)"

definition spawn_service :: "spawn_command \<Rightarrow> supervisor \<Rightarrow> supervisor" where
  "spawn_service c s = spawn_joined c (s\<lparr>sh_service_queued := fetch_sub (sh_service_queued s)\<rparr>)"

fun handle_internal :: "internal_command \<Rightarrow> supervisor \<Rightarrow> supervisor" where
  "handle_internal (SpawnCleanup c) s = spawn_joined c (s\<lparr>sh_internal_queued := fetch_sub (sh_internal_queued s)\<rparr>)"
| "handle_internal CapabilityDropped s = s"

definition drain_ready_commands :: "supervisor \<Rightarrow> supervisor" where
  "drain_ready_commands s =
     (let t = fold spawn_admitted (sv_admitted s) (s\<lparr>sv_admitted := []\<rparr>);
          u = fold spawn_service (sv_service t) (t\<lparr>sv_service := []\<rparr>)
      in fold handle_internal (sv_internal u) (u\<lparr>sv_internal := []\<rparr>))"

definition decrement_active :: "driver_task_kind \<Rightarrow> supervisor \<Rightarrow> supervisor" where
  "decrement_active k s =
     (if is_internal k then s\<lparr>sh_internal_active := fetch_sub (sh_internal_active s)\<rparr>
      else if is_service k then s\<lparr>sh_service_active := fetch_sub (sh_service_active s)\<rparr>
      else s\<lparr>sh_admitted_active := fetch_sub (sh_admitted_active s)\<rparr>)"

fun count_join :: "join_result \<Rightarrow> supervisor \<Rightarrow> supervisor" where
  "count_join (JoinReport TaskCompleted) s = s\<lparr>sh_completed := sh_completed s + 1\<rparr>"
| "count_join (JoinReport (TaskFailed f)) s = s\<lparr>sh_failed := sh_failed s + 1\<rparr>"
| "count_join JoinCancelled s = s\<lparr>sh_cancelled := sh_cancelled s + 1\<rparr>"
| "count_join JoinPanicked s = s\<lparr>sh_panicked := sh_panicked s + 1\<rparr>"

text \<open>The boolean says that a service ended while the supervisor was accepting.\<close>

definition reap_joined :: "nat \<Rightarrow> join_result \<Rightarrow> supervisor \<Rightarrow> bool \<times> supervisor" where
  "reap_joined i joined s =
     (case sv_metadata s i of
        None \<Rightarrow> (False, s)
      | Some m \<Rightarrow>
          (is_service (tm_kind m) \<and> sh_state s = Accepting,
           count_join joined (decrement_active (tm_kind m) (s\<lparr>sv_metadata := (sv_metadata s)(i := None)\<rparr>))))"

text \<open>The head of the loop: with a drain under way and no task left, what is queued is started first.\<close>

definition loop_top :: "supervisor \<Rightarrow> supervisor" where
  "loop_top s =
     (if sv_draining s \<and> sv_tasks s = [] then
        let t = drain_ready_commands s
        in t\<lparr>sv_pc := (if sv_tasks t = [] then LoadAdmitted else Selecting)\<rparr>
      else s\<lparr>sv_pc := Selecting\<rparr>)"

text \<open>The loads of the exit test, in the order of the source.\<close>

definition exit_load :: "supervisor \<Rightarrow> supervisor" where
  "exit_load s =
     (case sv_pc s of
        LoadAdmitted \<Rightarrow> s\<lparr>sv_pc := (if sh_admitted_queued s = 0 then LoadInternal else Selecting)\<rparr>
      | LoadInternal \<Rightarrow> s\<lparr>sv_pc := (if sh_internal_queued s = 0 then LoadService else Selecting)\<rparr>
      | LoadService \<Rightarrow> s\<lparr>sv_pc := (if sh_service_queued s = 0 then LoadOwned else Selecting)\<rparr>
      | LoadOwned \<Rightarrow> s\<lparr>sv_pc := (if sh_owned_capabilities s = 0 then Breaking else Selecting)\<rparr>
      | _ \<Rightarrow> s)"

text \<open>
  After the loop the state is stored and the actor ends. Its receivers are dropped with the
  commands still in them, and its set of tasks with the tasks still in it.
\<close>

fun drop_internal :: "internal_command \<Rightarrow> supervisor \<Rightarrow> supervisor" where
  "drop_internal (SpawnCleanup c) s = drop_task (sc_task c) s"
| "drop_internal CapabilityDropped s = s"

definition actor_ends :: "supervisor \<Rightarrow> supervisor" where
  "actor_ends s =
     (let t = s\<lparr>sh_state := Stopped, sv_pc := Ended, sv_control := [], sv_internal := [], sv_service := [],
              sv_admitted := []\<rparr>
      in fold (drop_task \<circ> sc_task) (sv_admitted s)
           (fold (drop_task \<circ> sc_task) (sv_service s) (fold drop_internal (sv_internal s) t)))"

definition on_control :: "supervisor \<Rightarrow> supervisor" where
  "on_control s = s\<lparr>sv_control := tl (sv_control s), sv_draining := True, sh_state := Draining, sv_pc := LoopTop\<rparr>"

definition on_internal :: "supervisor \<Rightarrow> supervisor" where
  "on_internal s = (handle_internal (hd (sv_internal s)) (s\<lparr>sv_internal := tl (sv_internal s)\<rparr>))\<lparr>sv_pc := LoopTop\<rparr>"

definition on_admitted :: "supervisor \<Rightarrow> supervisor" where
  "on_admitted s = (spawn_admitted (hd (sv_admitted s)) (s\<lparr>sv_admitted := tl (sv_admitted s)\<rparr>))\<lparr>sv_pc := LoopTop\<rparr>"

definition on_service :: "supervisor \<Rightarrow> supervisor" where
  "on_service s = (spawn_service (hd (sv_service s)) (s\<lparr>sv_service := tl (sv_service s)\<rparr>))\<lparr>sv_pc := LoopTop\<rparr>"

definition on_joined :: "join_task \<Rightarrow> join_result \<Rightarrow> supervisor \<Rightarrow> supervisor" where
  "on_joined j r s =
     (case reap_joined (jt_id j) r (s\<lparr>sv_tasks := filter (\<lambda>k. jt_id k \<noteq> jt_id j) (sv_tasks s)\<rparr>) of
        (exited, t) \<Rightarrow>
          (if exited then t\<lparr>sh_state := (if sh_state t = Accepting then Draining else sh_state t), sv_draining := True\<rparr>
           else t)\<lparr>sv_pc := LoopTop\<rparr>)"

text \<open>A select without an enabled branch panics.\<close>

definition no_branch :: "supervisor \<Rightarrow> bool" where
  "no_branch s \<longleftrightarrow> \<not> sv_control_open s \<and> \<not> sv_internal_open s \<and> \<not> sv_admitted_open s \<and>
     \<not> sv_service_open s \<and> sv_tasks s = []"

section \<open>Steps\<close>

datatype supervisor_event =
  Admit task_metadata capability_fate "try_admit_error + unit"
| Service task_metadata "try_service_error + unit"
| Cleanup task_metadata capability_fate "try_cleanup_error + unit"
| CloneHandle | DropHandle | BeginDraining | DropLifecycle
| DropCapability | EscapeCapability | FinishTask task_end
| ActorTop | ActorLoad | ActorEnd
| ActorControl | ActorInternal | ActorAdmitted | ActorService | ActorClosed
| ActorJoin "task_metadata option" join_result | ActorPanic

text \<open>The capabilities that running code can use: those moved out, and those of running tasks.\<close>

definition running :: "supervisor \<Rightarrow> join_task list" where
  "running s = filter (\<lambda>j. jt_joined j = None) (sv_tasks s)"

definition lose_capability :: "join_task \<Rightarrow> owned_task_capability \<Rightarrow> supervisor \<Rightarrow> supervisor" where
  "lose_capability j c s =
     update_task (jt_id j) (\<lambda>k. k\<lparr>jt_task := (jt_task k)\<lparr>bt_capabilities := remove1 c (bt_capabilities (jt_task k))\<rparr>\<rparr>) s"

text \<open>The commands among the internal messages.\<close>

fun spawns :: "internal_command list \<Rightarrow> spawn_command list" where
  "spawns [] = []"
| "spawns (SpawnCleanup c # cs) = c # spawns cs"
| "spawns (CapabilityDropped # cs) = spawns cs"

text \<open>The futures that exist: those in the channels and those the actor has started.\<close>

definition all_tasks :: "supervisor \<Rightarrow> boxed_task list" where
  "all_tasks s = map sc_task (sv_admitted s) @ map sc_task (sv_service s) @ map sc_task (spawns (sv_internal s)) @
     map jt_task (sv_tasks s)"

definition captured :: "boxed_task list \<Rightarrow> nat" where
  "captured bs = sum_list (map (length \<circ> bt_capabilities) bs)"

definition live_capabilities :: "supervisor \<Rightarrow> nat" where
  "live_capabilities s = length (sv_escaped s) + captured (all_tasks s)"

inductive supervisor_step :: "supervisor \<Rightarrow> supervisor_event \<Rightarrow> supervisor \<Rightarrow> bool" where
  admit: "sv_handles s > 0 \<Longrightarrow> try_spawn_admitted m fate s = (r, t) \<Longrightarrow> supervisor_step s (Admit m fate r) t"
| service: "sv_handles s > 0 \<Longrightarrow> try_spawn_service m s = (r, t) \<Longrightarrow> supervisor_step s (Service m r) t"
| clone_handle: "sv_handles s > 0 \<Longrightarrow> supervisor_step s CloneHandle (s\<lparr>sv_handles := sv_handles s + 1\<rparr>)"
| drop_handle: "sv_handles s > 0 \<Longrightarrow> supervisor_step s DropHandle (s\<lparr>sv_handles := sv_handles s - 1\<rparr>)"
| begin_drain: "sv_lifecycle s \<Longrightarrow> supervisor_step s BeginDraining (begin_draining s)"
| lifecycle_dropped: "sv_lifecycle s \<Longrightarrow> supervisor_step s DropLifecycle (drop_lifecycle s)"
| cleanup_escaped: "c \<in> set (sv_escaped s) \<Longrightarrow> try_spawn_cleanup c i fate s = (r, t)
    \<Longrightarrow> supervisor_step s (Cleanup (cleanup_metadata i c) fate r) t"
| cleanup_task: "j \<in> set (running s) \<Longrightarrow> c \<in> set (bt_capabilities (jt_task j)) \<Longrightarrow> try_spawn_cleanup c i fate s = (r, t)
    \<Longrightarrow> supervisor_step s (Cleanup (cleanup_metadata i c) fate r) t"
| drop_escaped: "c \<in> set (sv_escaped s)
    \<Longrightarrow> supervisor_step s DropCapability (drop_capability (s\<lparr>sv_escaped := remove1 c (sv_escaped s)\<rparr>))"
| drop_captured: "j \<in> set (running s) \<Longrightarrow> c \<in> set (bt_capabilities (jt_task j))
    \<Longrightarrow> supervisor_step s DropCapability (drop_capability (lose_capability j c s))"
| escape: "j \<in> set (running s) \<Longrightarrow> c \<in> set (bt_capabilities (jt_task j))
    \<Longrightarrow> supervisor_step s EscapeCapability ((lose_capability j c s)\<lparr>sv_escaped := c # sv_escaped s\<rparr>)"
| finish_running: "j \<in> set (running s) \<Longrightarrow> supervisor_step s (FinishTask e) (finish_task j e s)"
| actor_top: "sv_pc s = LoopTop \<Longrightarrow> supervisor_step s ActorTop (loop_top s)"
| actor_load: "sv_pc s \<in> {LoadAdmitted, LoadInternal, LoadService, LoadOwned} \<Longrightarrow> supervisor_step s ActorLoad (exit_load s)"
| actor_end: "sv_pc s = Breaking \<Longrightarrow> supervisor_step s ActorEnd (actor_ends s)"
| control_recv: "sv_pc s = Selecting \<Longrightarrow> sv_control_open s \<Longrightarrow> sv_control s \<noteq> []
    \<Longrightarrow> supervisor_step s ActorControl (on_control s)"
| internal_recv: "sv_pc s = Selecting \<Longrightarrow> sv_internal_open s \<Longrightarrow> sv_internal s \<noteq> []
    \<Longrightarrow> supervisor_step s ActorInternal (on_internal s)"
| admitted_recv: "sv_pc s = Selecting \<Longrightarrow> sv_admitted_open s \<Longrightarrow> sv_admitted s \<noteq> []
    \<Longrightarrow> supervisor_step s ActorAdmitted (on_admitted s)"
| service_recv: "sv_pc s = Selecting \<Longrightarrow> sv_service_open s \<Longrightarrow> sv_service s \<noteq> []
    \<Longrightarrow> supervisor_step s ActorService (on_service s)"
| control_closed: "sv_pc s = Selecting \<Longrightarrow> sv_control_open s \<Longrightarrow> sv_control s = [] \<Longrightarrow> \<not> sv_lifecycle s
    \<Longrightarrow> supervisor_step s ActorClosed (s\<lparr>sv_control_open := False, sv_pc := LoopTop\<rparr>)"
| internal_closed: "sv_pc s = Selecting \<Longrightarrow> sv_internal_open s \<Longrightarrow> sv_internal s = [] \<Longrightarrow> sv_handles s = 0
    \<Longrightarrow> live_capabilities s = 0 \<Longrightarrow> supervisor_step s ActorClosed (s\<lparr>sv_internal_open := False, sv_pc := LoopTop\<rparr>)"
| admitted_closed: "sv_pc s = Selecting \<Longrightarrow> sv_admitted_open s \<Longrightarrow> sv_admitted s = [] \<Longrightarrow> sv_handles s = 0
    \<Longrightarrow> supervisor_step s ActorClosed (s\<lparr>sv_admitted_open := False, sv_pc := LoopTop\<rparr>)"
| service_closed: "sv_pc s = Selecting \<Longrightarrow> sv_service_open s \<Longrightarrow> sv_service s = [] \<Longrightarrow> sv_handles s = 0
    \<Longrightarrow> supervisor_step s ActorClosed (s\<lparr>sv_service_open := False, sv_pc := LoopTop\<rparr>)"
| joined: "sv_pc s = Selecting \<Longrightarrow> j \<in> set (sv_tasks s) \<Longrightarrow> jt_joined j = Some r
    \<Longrightarrow> supervisor_step s (ActorJoin (sv_metadata s (jt_id j)) r) (on_joined j r s)"
| select_panics: "sv_pc s = Selecting \<Longrightarrow> no_branch s \<Longrightarrow> supervisor_step s ActorPanic (s\<lparr>sv_pc := SelectPanicked\<rparr>)"

inductive_cases supervisor_stepE: "supervisor_step s e t"

end
