(* ===== verification/Task_Supervisor_Safety.thy ===== *)
theory Task_Supervisor_Safety
  imports Task_Supervisor Transition_System "HOL-Library.Multiset"
begin

text \<open>
  What the task supervisor guarantees under every interleaving of its users, its tasks and its
  actor: the counters mirror the channels, tasks and capabilities that exist; admission never
  exceeds its capacity; the actor never waits for nothing; and a drain ends with every accepted
  task joined, as long as capabilities stay within the tasks they were given to.
\<close>


section \<open>The invariant\<close>

definition permits :: "boxed_task list \<Rightarrow> nat" where
  "permits bs = sum_list (map (\<lambda>b. if bt_permit b then 1 else 0) bs)"

definition queued_ok :: "supervisor \<Rightarrow> bool" where
  "queued_ok s \<longleftrightarrow> receivers_open s \<longrightarrow>
     sh_admitted_queued s = length (sv_admitted s) \<and> sh_service_queued s = length (sv_service s) \<and>
     sh_internal_queued s = length (spawns (sv_internal s))"

definition owned_ok :: "supervisor \<Rightarrow> bool" where
  "owned_ok s \<longleftrightarrow> sh_owned_capabilities s = live_capabilities s \<and>
     sh_admitted_slots s + permits (all_tasks s) = sh_admitted_capacity s"

definition active :: "(driver_task_kind \<Rightarrow> bool) \<Rightarrow> supervisor \<Rightarrow> nat" where
  "active p s = length (filter (\<lambda>j. p (task_kind s j)) (sv_tasks s))"

abbreviation admitted_kind :: "driver_task_kind \<Rightarrow> bool" where
  "admitted_kind k \<equiv> \<not> is_internal k \<and> \<not> is_service k"

definition active_ok :: "supervisor \<Rightarrow> bool" where
  "active_ok s \<longleftrightarrow> sh_internal_active s = active is_internal s \<and> sh_service_active s = active is_service s \<and>
     sh_admitted_active s = active admitted_kind s"

definition task_ok :: "supervisor \<Rightarrow> join_task \<Rightarrow> bool" where
  "task_ok s j \<longleftrightarrow> jt_id j < sv_next_id s \<and> sv_metadata s (jt_id j) \<noteq> None \<and>
     (jt_joined j = None \<longrightarrow> bt_permit (jt_task j) = admitted_kind (task_kind s j)) \<and>
     (jt_joined j \<noteq> None \<longrightarrow> jt_task j = \<lparr>bt_permit = False, bt_capabilities = []\<rparr>)"

definition tasks_ok :: "supervisor \<Rightarrow> bool" where
  "tasks_ok s \<longleftrightarrow> distinct (map jt_id (sv_tasks s)) \<and> list_all (task_ok s) (sv_tasks s) \<and>
     dom (sv_metadata s) = jt_id ` set (sv_tasks s)"

definition command_ok :: "(driver_task_kind \<Rightarrow> bool) \<Rightarrow> spawn_command \<Rightarrow> bool" where
  "command_ok p c \<longleftrightarrow> p (tm_kind (sc_metadata c)) \<and> bt_permit (sc_task c) = admitted_kind (tm_kind (sc_metadata c))"

definition commands_ok :: "supervisor \<Rightarrow> bool" where
  "commands_ok s \<longleftrightarrow> list_all (command_ok admitted_kind) (sv_admitted s) \<and> list_all (command_ok is_service) (sv_service s) \<and>
     list_all (command_ok is_internal) (spawns (sv_internal s))"

text \<open>The progress of a drain: who has asked for it, what the actor knows, and what can still wake it.\<close>

definition drain_ok :: "supervisor \<Rightarrow> bool" where
  "drain_ok s \<longleftrightarrow>
     (sv_draining s \<longrightarrow> sh_state s \<noteq> Accepting) \<and>
     (sh_state s \<noteq> Accepting \<longrightarrow> sv_draining s \<or> sv_control_open s \<and> sv_control s \<noteq> []) \<and>
     (sv_drained s \<longrightarrow> sh_state s \<noteq> Accepting) \<and> (\<not> sv_lifecycle s \<longrightarrow> sh_state s \<noteq> Accepting) \<and>
     (sv_pc s = Ended \<longleftrightarrow> sh_state s = Stopped) \<and> sv_pc s \<noteq> SelectPanicked"

definition closed_ok :: "supervisor \<Rightarrow> bool" where
  "closed_ok s \<longleftrightarrow>
     (\<not> sv_control_open s \<longrightarrow> \<not> sv_lifecycle s \<and> sv_control s = []) \<and>
     (\<not> sv_internal_open s \<longrightarrow> sv_handles s = 0 \<and> live_capabilities s = 0 \<and> sv_internal s = []) \<and>
     (\<not> sv_admitted_open s \<longrightarrow> sv_handles s = 0 \<and> sv_admitted s = []) \<and>
     (\<not> sv_service_open s \<longrightarrow> sv_handles s = 0 \<and> sv_service s = [])"

definition exit_ok :: "supervisor \<Rightarrow> bool" where
  "exit_ok s \<longleftrightarrow>
     (sv_pc s \<in> {LoadAdmitted, LoadInternal, LoadService, LoadOwned, Breaking, Ended} \<longrightarrow>
        sv_draining s \<and> sv_tasks s = [] \<and> sv_admitted s = [] \<and> sv_service s = []) \<and>
     (sv_pc s \<in> {Breaking, Ended} \<longrightarrow> live_capabilities s = 0) \<and>
     (sv_pc s = Ended \<longrightarrow> sv_internal s = []) \<and>
     (sv_pc s = Selecting \<and> sv_draining s \<and> sv_tasks s = [] \<and> sv_admitted s = [] \<and> sv_service s = [] \<and>
        sv_internal s = [] \<longrightarrow> live_capabilities s > 0)"

definition supervisor_ok :: "supervisor \<Rightarrow> bool" where
  "supervisor_ok s \<longleftrightarrow> queued_ok s \<and> owned_ok s \<and> active_ok s \<and> tasks_ok s \<and> commands_ok s \<and>
     drain_ok s \<and> closed_ok s \<and> exit_ok s"

named_theorems supervisor_simps "the parts of the invariant and the sums they count"

lemma spawns_append [simp, supervisor_simps]: "spawns (xs @ ys) = spawns xs @ spawns ys"
  by (induction xs rule: spawns.induct) auto

lemma spawns_dropped [simp, supervisor_simps]: "spawns (replicate n CapabilityDropped) = []"
  by (induction n) auto

lemma sums_simps [simp, supervisor_simps]:
  "permits [] = 0" "permits (b # bs) = (if bt_permit b then 1 else 0) + permits bs" "permits (bs @ cs) = permits bs + permits cs"
  "captured [] = 0" "captured (b # bs) = length (bt_capabilities b) + captured bs" "captured (bs @ cs) = captured bs + captured cs"
  by (auto simp: permits_def captured_def)

lemma fetch_sub_positive [simp, supervisor_simps]: "0 < n \<Longrightarrow> fetch_sub n = n - 1" "fetch_sub (Suc n) = n"
  by (auto simp: fetch_sub_def)

lemma initial_ok: "0 < n \<Longrightarrow> supervisor_ok (initial_supervisor n)"
  by (simp add: supervisor_ok_def initial_supervisor_def queued_ok_def owned_ok_def active_ok_def tasks_ok_def
      commands_ok_def drain_ok_def closed_ok_def exit_ok_def active_def live_capabilities_def all_tasks_def)

text \<open>Capabilities lost together, in one update.\<close>

lemma drop_capabilities_eq:
  "length cs \<le> sh_owned_capabilities s \<Longrightarrow> drop_capabilities cs s =
     s\<lparr>sh_owned_capabilities := sh_owned_capabilities s - length cs,
       sv_internal := sv_internal s @ (if receivers_open s then replicate (length cs) CapabilityDropped else [])\<rparr>"
proof (induction cs arbitrary: s)
  case Nil
  then show ?case by simp
next
  case (Cons c cs)
  then show ?case
    by (auto simp: drop_capability_def send_internal_def receivers_open_def replicate_append_same [symmetric])
qed

definition dropped :: "boxed_task \<Rightarrow> supervisor \<Rightarrow> supervisor" where
  "dropped b s = s\<lparr>sh_owned_capabilities := sh_owned_capabilities s - length (bt_capabilities b),
     sh_admitted_slots := sh_admitted_slots s + (if bt_permit b then 1 else 0),
     sv_internal := sv_internal s @ (if receivers_open s then replicate (length (bt_capabilities b)) CapabilityDropped else [])\<rparr>"

lemma drop_task_eq: "length (bt_capabilities b) \<le> sh_owned_capabilities s \<Longrightarrow> drop_task b s = dropped b s"
  by (simp add: drop_task_def dropped_def drop_capabilities_eq Let_def)

lemma sum_update_task:
  fixes g :: "join_task \<Rightarrow> nat"
  assumes "distinct (map jt_id ts)" "j \<in> set ts"
  shows "sum_list (map g (map (\<lambda>k. if jt_id k = jt_id j then f k else k) ts)) + g j = sum_list (map g ts) + g (f j)"
  using assms
proof (induction ts)
  case Nil
  then show ?case by simp
next
  case (Cons k ts)
  show ?case
  proof (cases "k = j")
    case True
    with Cons.prems have "map (\<lambda>k. if jt_id k = jt_id j then f k else k) ts = ts"
      by (intro map_idI) (auto simp: rev_image_eqI)
    with True show ?thesis by simp
  next
    case False
    with Cons.prems have "jt_id k \<noteq> jt_id j" by (auto simp: rev_image_eqI)
    with False Cons show ?thesis by simp
  qed
qed

lemma sum_remove_task:
  fixes g :: "join_task \<Rightarrow> nat"
  assumes "distinct (map jt_id ts)" "j \<in> set ts"
  shows "sum_list (map g (filter (\<lambda>k. jt_id k \<noteq> jt_id j) ts)) + g j = sum_list (map g ts)"
  using assms
proof (induction ts)
  case Nil
  then show ?case by simp
next
  case (Cons k ts)
  show ?case
  proof (cases "k = j")
    case True
    with Cons.prems have "filter (\<lambda>k. jt_id k \<noteq> jt_id j) ts = ts" by (auto simp: filter_id_conv rev_image_eqI)
    with True show ?thesis by simp
  next
    case False
    with Cons.prems have "jt_id k \<noteq> jt_id j" by (auto simp: rev_image_eqI)
    with False Cons show ?thesis by simp
  qed
qed

lemma captured_tasks: "captured (map jt_task ts) = sum_list (map (length \<circ> bt_capabilities \<circ> jt_task) ts)"
  by (simp add: captured_def comp_def)

lemma permits_tasks: "permits (map jt_task ts) = sum_list (map (\<lambda>j. if bt_permit (jt_task j) then 1 else 0) ts)"
  by (simp add: permits_def comp_def)

lemma length_filter_sum: "length (filter p xs) = sum_list (map (\<lambda>x. if p x then 1 else 0) xs)"
  by (induction xs) auto

text \<open>A running task holds capabilities that are all counted.\<close>

lemma task_capabilities_counted:
  assumes "j \<in> set (sv_tasks s)"
  shows "length (bt_capabilities (jt_task j)) \<le> captured (map jt_task (sv_tasks s))"
  unfolding captured_def using assms by (intro member_le_sum_list) auto

lemma running_member: "j \<in> set (running s) \<longleftrightarrow> j \<in> set (sv_tasks s) \<and> jt_joined j = None"
  by (auto simp: running_def)

lemmas state_defs = queued_ok_def owned_ok_def active_ok_def commands_ok_def drain_ok_def closed_ok_def exit_ok_def
  live_capabilities_def all_tasks_def receivers_open_def

lemma supervisor_okI:
  "queued_ok s \<Longrightarrow> owned_ok s \<Longrightarrow> active_ok s \<Longrightarrow> tasks_ok s \<Longrightarrow> commands_ok s \<Longrightarrow> drain_ok s \<Longrightarrow> closed_ok s \<Longrightarrow>
   exit_ok s \<Longrightarrow> supervisor_ok s"
  by (simp add: supervisor_ok_def)

text \<open>Parts of the invariant that only look at the tasks of the actor.\<close>

lemma tasks_ok_cong:
  assumes "sv_tasks t = sv_tasks s" "sv_metadata t = sv_metadata s" "sv_next_id t = sv_next_id s"
  shows "tasks_ok t = tasks_ok s" "active p t = active p s"
proof -
  have k: "task_kind t = task_kind s" using assms by (auto simp: task_kind_def)
  with assms have "task_ok t = task_ok s" by (auto simp: task_ok_def fun_eq_iff)
  with assms k show "tasks_ok t = tasks_ok s" "active p t = active p s"
    by (simp_all add: tasks_ok_def active_def)
qed


section \<open>Every step keeps the invariant\<close>

text \<open>Steps that leave the tasks of the actor alone.\<close>

definition same_tasks :: "supervisor \<Rightarrow> supervisor \<Rightarrow> bool" where
  "same_tasks s t \<longleftrightarrow> sv_tasks t = sv_tasks s \<and> sv_metadata t = sv_metadata s \<and> sv_next_id t = sv_next_id s \<and>
     sh_internal_active t = sh_internal_active s \<and> sh_service_active t = sh_service_active s \<and>
     sh_admitted_active t = sh_admitted_active s"

lemma same_tasks_ok: "same_tasks s t \<Longrightarrow> tasks_ok s \<Longrightarrow> tasks_ok t" "same_tasks s t \<Longrightarrow> active_ok s \<Longrightarrow> active_ok t"
  using tasks_ok_cong [of t s] by (simp_all add: same_tasks_def active_ok_def)

lemma permits_commands:
  "list_all (command_ok admitted_kind) cs \<Longrightarrow> permits (map sc_task cs) = length cs"
  "list_all (command_ok is_service) cs \<Longrightarrow> permits (map sc_task cs) = 0"
  by (induction cs) (auto simp: command_ok_def)

lemma accepting_open: "supervisor_ok s \<Longrightarrow> sh_state s \<noteq> Stopped \<Longrightarrow> receivers_open s"
  by (auto simp: supervisor_ok_def drain_ok_def receivers_open_def)

lemma admitted_bound:
  assumes "supervisor_ok s"
  shows "length (sv_admitted s) + sh_admitted_slots s \<le> sh_admitted_capacity s"
  using assms permits_commands(1) [of "sv_admitted s"]
  by (simp add: supervisor_ok_def owned_ok_def all_tasks_def commands_ok_def)

text \<open>What the factory leaves behind.\<close>

definition factory_state :: "capability_fate \<Rightarrow> owned_task_capability \<Rightarrow> supervisor \<Rightarrow> supervisor" where
  "factory_state fate c s = (case fate of
     Captured \<Rightarrow> s\<lparr>sh_owned_capabilities := sh_owned_capabilities s + 1\<rparr>
   | Discarded \<Rightarrow> s\<lparr>sv_internal := sv_internal s @ [CapabilityDropped]\<rparr>
   | Escaped \<Rightarrow> s\<lparr>sh_owned_capabilities := sh_owned_capabilities s + 1, sv_escaped := c # sv_escaped s\<rparr>)"

lemma run_factory_eq:
  "receivers_open s \<Longrightarrow> run_factory fate c (new_capability s) =
     ((if fate = Captured then [c] else []), factory_state fate c s)"
  by (cases fate) (simp_all add: new_capability_def factory_state_def drop_capability_def send_internal_def receivers_open_def)

definition admitted_state :: "task_metadata \<Rightarrow> capability_fate \<Rightarrow> supervisor \<Rightarrow> supervisor" where
  "admitted_state m fate s =
     (let c = \<lparr>cap_root_id = tm_root_id m, cap_subject_id = tm_subject_id m\<rparr>;
          t = factory_state fate c s
      in t\<lparr>sh_admitted_slots := sh_admitted_slots s - 1, sh_admitted_queued := sh_admitted_queued s + 1,
           sv_admitted := sv_admitted s @ [\<lparr>sc_metadata = m,
             sc_task = \<lparr>bt_permit = True, bt_capabilities = (if fate = Captured then [c] else [])\<rparr>\<rparr>]\<rparr>)"

lemma try_spawn_admitted_eq:
  assumes "supervisor_ok s"
  shows "try_spawn_admitted m fate s =
     (if \<not> admitted_kind (tm_kind m) then (Inl InternalKind, s)
      else if sh_state s \<noteq> Accepting then (Inl AdmitDraining, s)
      else if sh_admitted_slots s = 0 then (Inl AtCapacity, s)
      else (Inr (), admitted_state m fate s))"
proof -
  have "receivers_open s" if "sh_state s = Accepting" using accepting_open [OF assms] that by simp
  then have "receivers_open (s\<lparr>sh_admitted_slots := n\<rparr>)" if "sh_state s = Accepting" for n
    using that by (simp add: receivers_open_def)
  moreover have "length (sv_admitted s) < sh_admitted_capacity s" if "sh_admitted_slots s \<noteq> 0"
    using admitted_bound [OF assms] that by linarith
  ultimately show ?thesis
    by (cases fate)
      (auto simp: try_spawn_admitted_def run_factory_eq admitted_state_def factory_state_def receivers_open_def Let_def
        simp del: run_factory.simps)
qed

lemma admitted_state_ok:
  assumes ok: "supervisor_ok s" and h: "sv_handles s > 0" and k: "admitted_kind (tm_kind m)"
    and st: "sh_state s = Accepting" and sl: "sh_admitted_slots s \<noteq> 0"
  shows "supervisor_ok (admitted_state m fate s)"
proof (rule supervisor_okI)
  let ?t = "admitted_state m fate s"
  note parts = ok [unfolded supervisor_ok_def]
  have "same_tasks s ?t" by (cases fate; simp add: same_tasks_def admitted_state_def factory_state_def Let_def)
  with parts show "tasks_ok ?t" "active_ok ?t" by (auto intro: same_tasks_ok)
  from parts show "queued_ok ?t" "drain_ok ?t"
    by (cases fate; simp add: state_defs admitted_state_def factory_state_def Let_def)+
  from parts sl show "owned_ok ?t"
    by (cases fate) (simp_all add: state_defs admitted_state_def factory_state_def Let_def)
  from parts k show "commands_ok ?t"
    by (cases fate) (simp_all add: state_defs command_ok_def admitted_state_def factory_state_def Let_def)
  from parts h show "closed_ok ?t"
    by (cases fate) (auto simp: state_defs admitted_state_def factory_state_def Let_def)
  from parts st show "exit_ok ?t"
    by (cases fate) (auto simp: state_defs admitted_state_def factory_state_def Let_def)
qed

definition service_state :: "task_metadata \<Rightarrow> supervisor \<Rightarrow> supervisor" where
  "service_state m s =
     s\<lparr>sh_service_started_bits := or (sh_service_started_bits s) 1, sh_service_queued := sh_service_queued s + 1,
       sv_service := sv_service s @ [\<lparr>sc_metadata = m, sc_task = \<lparr>bt_permit = False, bt_capabilities = []\<rparr>\<rparr>]\<rparr>"

lemma service_bit_eq: "service_bit k = (if is_service k then Some 1 else None)"
  by (cases k) simp_all

lemma try_spawn_service_eq:
  assumes "supervisor_ok s"
  shows "try_spawn_service m s =
     (if \<not> is_service (tm_kind m) then (Inl NotServiceKind, s)
      else if sh_state s \<noteq> Accepting then (Inl ServiceDraining, s)
      else if and (sh_service_started_bits s) 1 \<noteq> 0
        then (Inl AlreadyStarted, s\<lparr>sh_service_started_bits := or (sh_service_started_bits s) 1\<rparr>)
      else (Inr (), service_state m s))"
  using accepting_open [OF assms]
  by (auto simp: try_spawn_service_def service_bit_eq service_state_def receivers_open_def Let_def)

lemma started_bits_ok: "supervisor_ok s \<Longrightarrow> supervisor_ok (s\<lparr>sh_service_started_bits := b\<rparr>)"
  using same_tasks_ok [of s "s\<lparr>sh_service_started_bits := b\<rparr>"]
  by (simp add: supervisor_ok_def state_defs same_tasks_def)

lemma service_state_ok:
  assumes ok: "supervisor_ok s" and h: "sv_handles s > 0" and k: "is_service (tm_kind m)" and st: "sh_state s = Accepting"
  shows "supervisor_ok (service_state m s)"
proof (rule supervisor_okI)
  note parts = ok [unfolded supervisor_ok_def]
  have "same_tasks s (service_state m s)" by (simp add: same_tasks_def service_state_def)
  with parts show "tasks_ok (service_state m s)" "active_ok (service_state m s)" by (auto intro: same_tasks_ok)
  have "\<not> is_internal (tm_kind m)" using k by (cases "tm_kind m") auto
  with parts k show "commands_ok (service_state m s)" by (simp add: state_defs service_state_def command_ok_def)
  from parts show "queued_ok (service_state m s)" "owned_ok (service_state m s)" "drain_ok (service_state m s)"
    by (simp_all add: state_defs service_state_def)
  from parts h show "closed_ok (service_state m s)" by (simp add: state_defs service_state_def)
  from parts st show "exit_ok (service_state m s)" by (auto simp: state_defs service_state_def)
qed

lemma try_spawn_service_ok:
  assumes "supervisor_ok s" "sv_handles s > 0" "try_spawn_service m s = (r, t)"
  shows "supervisor_ok t"
  using assms service_state_ok [OF assms(1,2)] started_bits_ok [OF assms(1)]
  by (auto simp: try_spawn_service_eq split: if_splits)

text \<open>A cleanup is only spawned by the holder of a capability.\<close>

definition cleanup_state :: "owned_task_capability \<Rightarrow> uuid \<Rightarrow> capability_fate \<Rightarrow> supervisor \<Rightarrow> supervisor" where
  "cleanup_state c i fate s =
     (let t = factory_state fate c s
      in t\<lparr>sh_internal_queued := sh_internal_queued s + 1,
           sv_internal := sv_internal t @ [SpawnCleanup \<lparr>sc_metadata = cleanup_metadata i c,
             sc_task = \<lparr>bt_permit = False, bt_capabilities = (if fate = Captured then [c] else [])\<rparr>\<rparr>]\<rparr>)"

lemma try_spawn_cleanup_eq:
  assumes "supervisor_ok s"
  shows "try_spawn_cleanup c i fate s =
     (if sh_state s = Stopped then (Inl CleanupSupervisorStopped, s) else (Inr (), cleanup_state c i fate s))"
  using accepting_open [OF assms]
  by (cases fate)
    (auto simp: try_spawn_cleanup_def run_factory_eq cleanup_state_def factory_state_def send_internal_def
      receivers_open_def Let_def simp del: run_factory.simps)

lemma cleanup_state_ok:
  assumes ok: "supervisor_ok s" and l: "live_capabilities s > 0" and st: "sh_state s \<noteq> Stopped"
  shows "supervisor_ok (cleanup_state c i fate s)"
proof (rule supervisor_okI)
  let ?t = "cleanup_state c i fate s"
  note parts = ok [unfolded supervisor_ok_def]
  have "same_tasks s ?t" by (cases fate; simp add: same_tasks_def cleanup_state_def factory_state_def Let_def)
  with parts show "tasks_ok ?t" "active_ok ?t" by (auto intro: same_tasks_ok)
  from parts show "queued_ok ?t" "owned_ok ?t" "drain_ok ?t"
    by (cases fate; simp add: state_defs cleanup_state_def factory_state_def Let_def)+
  from parts show "commands_ok ?t"
    by (cases fate) (simp_all add: state_defs command_ok_def cleanup_metadata_def cleanup_state_def factory_state_def Let_def)
  have f: "sv_internal_open s" "sv_pc s \<notin> {Breaking, Ended}"
    using parts l by (auto simp: closed_ok_def exit_ok_def)
  from parts f(1) show "closed_ok ?t"
    by (cases fate) (simp_all add: closed_ok_def cleanup_state_def factory_state_def Let_def)
  from parts f(2) show "exit_ok ?t"
    by (cases fate) (simp_all add: exit_ok_def cleanup_state_def factory_state_def Let_def)
qed

lemma try_spawn_admitted_ok:
  assumes "supervisor_ok s" "sv_handles s > 0" "try_spawn_admitted m fate s = (r, t)"
  shows "supervisor_ok t"
  using assms admitted_state_ok [OF assms(1,2)] by (auto simp: try_spawn_admitted_eq split: if_splits)

lemma try_spawn_cleanup_ok:
  assumes "supervisor_ok s" "live_capabilities s > 0" "try_spawn_cleanup c i fate s = (r, t)"
  shows "supervisor_ok t"
  using assms cleanup_state_ok [OF assms(1,2)] by (auto simp: try_spawn_cleanup_eq split: if_splits)

lemma holder_live:
  "c \<in> set (sv_escaped s) \<Longrightarrow> live_capabilities s > 0"
  "j \<in> set (running s) \<Longrightarrow> c \<in> set (bt_capabilities (jt_task j)) \<Longrightarrow> live_capabilities s > 0"
proof -
  show "live_capabilities s > 0" if "c \<in> set (sv_escaped s)"
    using that by (auto simp: live_capabilities_def)
  show "live_capabilities s > 0" if "j \<in> set (running s)" "c \<in> set (bt_capabilities (jt_task j))"
  proof -
    from that have "0 < length (bt_capabilities (jt_task j))" by auto
    also have "\<dots> \<le> captured (map jt_task (sv_tasks s))"
      using that by (intro task_capabilities_counted) (simp add: running_member)
    finally show ?thesis by (simp add: live_capabilities_def all_tasks_def)
  qed
qed

lemma begin_draining_ok:
  assumes ok: "supervisor_ok s" and l: "sv_lifecycle s"
  shows "supervisor_ok (begin_draining s)"
proof (rule supervisor_okI)
  note parts = ok [unfolded supervisor_ok_def]
  have "same_tasks s (begin_draining s)" by (simp add: same_tasks_def begin_draining_def Let_def)
  with parts show "tasks_ok (begin_draining s)" "active_ok (begin_draining s)" by (auto intro: same_tasks_ok)
  from parts show "queued_ok (begin_draining s)" "owned_ok (begin_draining s)" "commands_ok (begin_draining s)"
    by (simp_all add: state_defs begin_draining_def Let_def)
  from parts l show "drain_ok (begin_draining s)" by (auto simp: state_defs begin_draining_def Let_def)
  from parts l show "closed_ok (begin_draining s)" by (simp add: state_defs begin_draining_def Let_def)
  from parts show "exit_ok (begin_draining s)" by (simp add: state_defs begin_draining_def Let_def)
qed

lemma lifecycle_gone_ok:
  assumes "supervisor_ok s" "sh_state s \<noteq> Accepting"
  shows "supervisor_ok (s\<lparr>sv_lifecycle := False\<rparr>)"
  using assms same_tasks_ok [of s "s\<lparr>sv_lifecycle := False\<rparr>"]
  by (simp add: supervisor_ok_def state_defs same_tasks_def)

lemma drop_lifecycle_ok:
  assumes ok: "supervisor_ok s" and l: "sv_lifecycle s"
  shows "supervisor_ok (drop_lifecycle s)"
proof (cases "sv_drained s")
  case True
  with ok have "sh_state s \<noteq> Accepting" by (simp add: supervisor_ok_def drain_ok_def)
  with True ok show ?thesis by (simp add: drop_lifecycle_def lifecycle_gone_ok)
next
  case False
  have e: "begin_draining (s\<lparr>sv_drained := True\<rparr>) = begin_draining s"
    by (simp add: begin_draining_def receivers_open_def Let_def)
  have "sh_state (begin_draining s) \<noteq> Accepting" by (simp add: begin_draining_def Let_def)
  with False ok l show ?thesis by (simp add: drop_lifecycle_def e begin_draining_ok lifecycle_gone_ok)
qed

lemma handles_ok:
  "supervisor_ok s \<Longrightarrow> sv_handles s > 0 \<Longrightarrow> supervisor_ok (s\<lparr>sv_handles := sv_handles s + 1\<rparr>)"
  "supervisor_ok s \<Longrightarrow> sv_handles s > 0 \<Longrightarrow> supervisor_ok (s\<lparr>sv_handles := sv_handles s - 1\<rparr>)"
  using same_tasks_ok [of s "s\<lparr>sv_handles := n\<rparr>" for n]
  by (simp_all add: supervisor_ok_def state_defs same_tasks_def)

text \<open>Tasks that only change inside.\<close>

lemma tasks_ok_update:
  assumes ok: "tasks_ok s" and f: "\<And>k. jt_id (f k) = jt_id k"
    and t: "\<And>k. k \<in> set (sv_tasks s) \<Longrightarrow> jt_id k = i \<Longrightarrow> task_ok s (f k)"
  shows "tasks_ok (update_task i f s)" "active p (update_task i f s) = active p s"
proof -
  let ?t = "update_task i f s"
  define g where "g = (\<lambda>k. if jt_id k = i then f k else k)"
  have g: "jt_id (g k) = jt_id k" for k by (simp add: f g_def)
  have gt: "task_ok s (g k)" if "k \<in> set (sv_tasks s)" for k
    using ok t that by (auto simp: g_def tasks_ok_def list_all_iff)
  have ts: "sv_tasks ?t = map g (sv_tasks s)" "sv_metadata ?t = sv_metadata s"
    by (simp_all add: update_task_def g_def)
  have k: "task_kind ?t = task_kind s" "task_ok ?t = task_ok s"
    by (auto simp: task_kind_def update_task_def task_ok_def fun_eq_iff)
  show "tasks_ok ?t"
    using ok gt by (simp add: tasks_ok_def ts k comp_def g image_image list_all_iff)
  have "task_kind s (g j) = task_kind s j" for j using g [of j] by (simp add: task_kind_def)
  then show "active p ?t = active p s"
    by (simp add: active_def k ts filter_map comp_def)
qed

lemma update_captured:
  assumes "tasks_ok s" "j \<in> set (sv_tasks s)" "\<And>k. jt_id (f k) = jt_id k"
  shows "captured (map jt_task (sv_tasks (update_task (jt_id j) f s))) + length (bt_capabilities (jt_task j))
      = captured (map jt_task (sv_tasks s)) + length (bt_capabilities (jt_task (f j)))"
    "permits (map jt_task (sv_tasks (update_task (jt_id j) f s))) + permits [jt_task j]
      = permits (map jt_task (sv_tasks s)) + permits [jt_task (f j)]"
  using assms sum_update_task [of "sv_tasks s" j "length \<circ> bt_capabilities \<circ> jt_task" f]
    sum_update_task [of "sv_tasks s" j "\<lambda>j. if bt_permit (jt_task j) then 1 else 0" f]
  by (simp_all only: tasks_ok_def captured_tasks permits_tasks comp_apply sums_simps) (simp_all add: update_task_def)

lemma update_task_frame [simp]:
  "sv_admitted (update_task i f s) = sv_admitted s" "sv_service (update_task i f s) = sv_service s"
  "sv_internal (update_task i f s) = sv_internal s" "sv_escaped (update_task i f s) = sv_escaped s"
  "sv_control (update_task i f s) = sv_control s" "sv_pc (update_task i f s) = sv_pc s"
  "sv_draining (update_task i f s) = sv_draining s" "sh_state (update_task i f s) = sh_state s"
  "sh_owned_capabilities (update_task i f s) = sh_owned_capabilities s"
  "sh_admitted_slots (update_task i f s) = sh_admitted_slots s"
  "sh_admitted_capacity (update_task i f s) = sh_admitted_capacity s"
  "sh_admitted_queued (update_task i f s) = sh_admitted_queued s"
  "sh_internal_queued (update_task i f s) = sh_internal_queued s"
  "sh_service_queued (update_task i f s) = sh_service_queued s"
  "sh_admitted_active (update_task i f s) = sh_admitted_active s"
  "sh_internal_active (update_task i f s) = sh_internal_active s"
  "sh_service_active (update_task i f s) = sh_service_active s"
  "sv_handles (update_task i f s) = sv_handles s" "sv_lifecycle (update_task i f s) = sv_lifecycle s"
  "sv_drained (update_task i f s) = sv_drained s" "sv_control_open (update_task i f s) = sv_control_open s"
  "sv_internal_open (update_task i f s) = sv_internal_open s" "sv_admitted_open (update_task i f s) = sv_admitted_open s"
  "sv_service_open (update_task i f s) = sv_service_open s" "sv_metadata (update_task i f s) = sv_metadata s"
  "sv_next_id (update_task i f s) = sv_next_id s" "sv_tasks (update_task i f s) = [] \<longleftrightarrow> sv_tasks s = []"
  by (simp_all add: update_task_def)

text \<open>
  A change of what running code holds: the tasks only change inside, capabilities are dropped or
  moved, and a dropped one leaves a message for the actor.
\<close>

definition holders_change :: "supervisor \<Rightarrow> supervisor \<Rightarrow> bool" where
  "holders_change s t \<longleftrightarrow> (\<exists>i f cs n d p.
     t = (update_task i f s)\<lparr>sv_escaped := cs, sh_owned_capabilities := n, sh_admitted_slots := p,
       sv_internal := sv_internal s @ replicate d CapabilityDropped\<rparr> \<and>
     live_capabilities t + d = live_capabilities s)"

lemma holders_change_ok:
  assumes ok: "supervisor_ok s" and l: "live_capabilities s > 0 \<or> running s \<noteq> []" and c: "holders_change s t"
    and parts: "tasks_ok t" "active_ok t" "owned_ok t"
  shows "supervisor_ok t"
proof (rule supervisor_okI)
  from c obtain i f cs n d p where
    t: "t = (update_task i f s)\<lparr>sv_escaped := cs, sh_owned_capabilities := n, sh_admitted_slots := p,
       sv_internal := sv_internal s @ replicate d CapabilityDropped\<rparr>" and
    d: "live_capabilities t + d = live_capabilities s"
    unfolding holders_change_def by metis
  note old = ok [unfolded supervisor_ok_def]
  from parts show "tasks_ok t" "active_ok t" "owned_ok t" by auto
  from old show "queued_ok t" "commands_ok t" "drain_ok t"
    by (simp_all add: t queued_ok_def commands_ok_def drain_ok_def receivers_open_def)
  from old have e: "exit_ok s" "closed_ok s" by simp_all
  have f: "sv_pc s \<notin> {Breaking, Ended}"
  proof
    assume "sv_pc s \<in> {Breaking, Ended}"
    with e(1) have "live_capabilities s = 0" "sv_tasks s = []" by (auto simp: exit_ok_def)
    with l show False by (simp add: running_def)
  qed
  have same: "sv_handles t = sv_handles s" "sv_lifecycle t = sv_lifecycle s" "sv_control t = sv_control s"
    "sv_admitted t = sv_admitted s" "sv_service t = sv_service s" "sv_pc t = sv_pc s" "sv_draining t = sv_draining s"
    "sv_control_open t = sv_control_open s" "sv_internal_open t = sv_internal_open s" "sv_admitted_open t = sv_admitted_open s"
    "sv_service_open t = sv_service_open s" "sv_tasks t = [] \<longleftrightarrow> sv_tasks s = []"
    "sv_internal t = sv_internal s @ replicate d CapabilityDropped"
    by (simp_all add: t)
  from e(2) d show "closed_ok t" unfolding closed_ok_def same by fastforce
  from e(1) d f show "exit_ok t" unfolding exit_ok_def same by fastforce
qed

lemma holder_open:
  assumes "supervisor_ok s" "live_capabilities s > 0 \<or> running s \<noteq> []"
  shows "receivers_open s"
proof (rule ccontr)
  assume "\<not> receivers_open s"
  with assms(1) have "sv_pc s = Ended" by (simp add: supervisor_ok_def drain_ok_def receivers_open_def)
  moreover from assms(1) have "exit_ok s" by (simp add: supervisor_ok_def)
  ultimately have "live_capabilities s = 0" "sv_tasks s = []" by (simp_all add: exit_ok_def)
  with assms(2) show False by (simp add: running_def)
qed

lemma update_task_same: "update_task i (\<lambda>k. k) s = s"
  by (simp add: update_task_def)

lemma drop_escaped_ok:
  assumes ok: "supervisor_ok s" and c: "c \<in> set (sv_escaped s)"
  shows "supervisor_ok (drop_capability (s\<lparr>sv_escaped := remove1 c (sv_escaped s)\<rparr>))"
proof -
  let ?t = "drop_capability (s\<lparr>sv_escaped := remove1 c (sv_escaped s)\<rparr>)"
  have l: "live_capabilities s > 0" using holder_live(1) c by blast
  have "receivers_open s" using holder_open ok l by blast
  moreover have own: "sh_owned_capabilities s = live_capabilities s" using ok by (simp add: supervisor_ok_def owned_ok_def)
  moreover have "length (sv_escaped s) > 0" using c by auto
  ultimately have t: "?t = s\<lparr>sv_escaped := remove1 c (sv_escaped s), sh_owned_capabilities := live_capabilities s - 1,
      sv_internal := sv_internal s @ [CapabilityDropped]\<rparr>"
    using l by (simp add: drop_capability_def send_internal_def receivers_open_def)
  have live: "live_capabilities ?t + 1 = live_capabilities s"
    using c \<open>length (sv_escaped s) > 0\<close> unfolding t
    by (simp add: live_capabilities_def all_tasks_def length_remove1 Suc_diff_le)
  have "holders_change s ?t"
    unfolding holders_change_def
    by (intro exI [of _ 0] exI [of _ "\<lambda>k. k"] exI [of _ "remove1 c (sv_escaped s)"]
        exI [of _ "live_capabilities s - 1"] exI [of _ 1] exI [of _ "sh_admitted_slots s"])
      (use live in \<open>simp_all add: update_task_same t\<close>)
  moreover have "same_tasks s ?t" unfolding t by (simp add: same_tasks_def)
  with ok have "tasks_ok ?t" "active_ok ?t" by (auto simp: supervisor_ok_def intro: same_tasks_ok)
  moreover have "sh_owned_capabilities ?t = live_capabilities s - 1" by (simp add: t)
  with ok live have "owned_ok ?t"
    by (simp add: owned_ok_def supervisor_ok_def) (simp add: t all_tasks_def)
  ultimately show ?thesis using holders_change_ok [OF ok] l by blast
qed

lemma lose_capability_ok:
  assumes ok: "supervisor_ok s" and j: "j \<in> set (running s)" and c: "c \<in> set (bt_capabilities (jt_task j))"
  shows "tasks_ok (lose_capability j c s)" "active_ok (lose_capability j c s)"
    "captured (map jt_task (sv_tasks (lose_capability j c s))) + 1 = captured (map jt_task (sv_tasks s))"
    "permits (map jt_task (sv_tasks (lose_capability j c s))) = permits (map jt_task (sv_tasks s))"
proof -
  let ?f = "\<lambda>k. k\<lparr>jt_task := (jt_task k)\<lparr>bt_capabilities := remove1 c (bt_capabilities (jt_task k))\<rparr>\<rparr>"
  have tok: "tasks_ok s" and aok: "active_ok s" using ok by (simp_all add: supervisor_ok_def)
  have js: "j \<in> set (sv_tasks s)" "jt_joined j = None" using j by (simp_all add: running_member)
  have u: "task_ok s (?f k)" if "k \<in> set (sv_tasks s)" "jt_id k = jt_id j" for k
  proof -
    have "k = j" using tok js that by (auto simp: tasks_ok_def distinct_map inj_on_def)
    moreover have "task_ok s j" using tok js by (simp add: tasks_ok_def list_all_iff)
    ultimately show ?thesis using js by (simp add: task_ok_def task_kind_def)
  qed
  have i: "jt_id (?f k) = jt_id k" for k by simp
  show "tasks_ok (lose_capability j c s)"
    unfolding lose_capability_def using u by (intro tasks_ok_update(1) [OF tok i])
  have "active p (lose_capability j c s) = active p s" for p
    unfolding lose_capability_def using u by (intro tasks_ok_update(2) [OF tok i])
  with aok show "active_ok (lose_capability j c s)"
    by (simp add: active_ok_def) (simp add: lose_capability_def)
  have len: "Suc (length (remove1 c (bt_capabilities (jt_task j)))) = length (bt_capabilities (jt_task j))"
    using c length_pos_if_in_set [OF c] by (simp add: length_remove1)
  show "captured (map jt_task (sv_tasks (lose_capability j c s))) + 1 = captured (map jt_task (sv_tasks s))"
    "permits (map jt_task (sv_tasks (lose_capability j c s))) = permits (map jt_task (sv_tasks s))"
    using update_captured [OF tok js(1) i] len by (simp_all add: lose_capability_def)
qed


lemma lose_capability_frame [simp]:
  "sv_escaped (lose_capability j c s) = sv_escaped s" "sv_internal (lose_capability j c s) = sv_internal s"
  "sh_owned_capabilities (lose_capability j c s) = sh_owned_capabilities s"
  "sh_admitted_slots (lose_capability j c s) = sh_admitted_slots s"
  "sh_admitted_capacity (lose_capability j c s) = sh_admitted_capacity s"
  "sv_pc (lose_capability j c s) = sv_pc s" "sv_admitted (lose_capability j c s) = sv_admitted s"
  "sv_service (lose_capability j c s) = sv_service s"
  by (simp_all add: lose_capability_def)

text \<open>The capability of a running task is dropped, or moved out of it.\<close>

lemma captured_change_ok:
  assumes ok: "supervisor_ok s" and j: "j \<in> set (running s)" and c: "c \<in> set (bt_capabilities (jt_task j))"
    and t: "t = (lose_capability j c s)\<lparr>sv_escaped := cs, sh_owned_capabilities := sh_owned_capabilities s - d,
      sv_internal := sv_internal s @ replicate d CapabilityDropped\<rparr>"
    and cs: "length cs + d = length (sv_escaped s) + 1"
  shows "supervisor_ok t"
proof -
  note lose = lose_capability_ok [OF ok j c]
  have own: "owned_ok s" using ok by (simp add: supervisor_ok_def)
  have l: "live_capabilities s > 0" using holder_live(2) [OF j c] .
  have live: "live_capabilities t + d = live_capabilities s"
    using lose(3) cs by (simp add: live_capabilities_def all_tasks_def t)
  have "holders_change s t"
    unfolding holders_change_def
    by (intro exI [of _ "jt_id j"]
        exI [of _ "\<lambda>k. k\<lparr>jt_task := (jt_task k)\<lparr>bt_capabilities := remove1 c (bt_capabilities (jt_task k))\<rparr>\<rparr>"]
        exI [of _ cs] exI [of _ "sh_owned_capabilities s - d"] exI [of _ d] exI [of _ "sh_admitted_slots s"])
      (use live in \<open>simp_all add: t lose_capability_def [symmetric]\<close>)
  moreover have "same_tasks (lose_capability j c s) t" by (simp add: same_tasks_def t)
  then have "tasks_ok t" "active_ok t" using lose by (auto intro: same_tasks_ok)
  moreover have "owned_ok t"
    using own live lose(4) by (simp add: owned_ok_def) (simp add: t all_tasks_def)
  ultimately show ?thesis using holders_change_ok [OF ok] l by blast
qed

lemma drop_captured_ok:
  assumes ok: "supervisor_ok s" and j: "j \<in> set (running s)" and c: "c \<in> set (bt_capabilities (jt_task j))"
  shows "supervisor_ok (drop_capability (lose_capability j c s))"
proof (rule captured_change_ok [OF ok j c, where d = 1 and cs = "sv_escaped s"])
  have l: "live_capabilities s > 0" using holder_live(2) [OF j c] .
  have "receivers_open s" using holder_open ok l by blast
  moreover have "sh_owned_capabilities s > 0" using ok l by (simp add: supervisor_ok_def owned_ok_def)
  ultimately show "drop_capability (lose_capability j c s) =
    (lose_capability j c s)\<lparr>sv_escaped := sv_escaped s, sh_owned_capabilities := sh_owned_capabilities s - 1,
      sv_internal := sv_internal s @ replicate 1 CapabilityDropped\<rparr>"
    by (simp add: drop_capability_def send_internal_def receivers_open_def)
qed simp

lemma escape_ok:
  assumes "supervisor_ok s" "j \<in> set (running s)" "c \<in> set (bt_capabilities (jt_task j))"
  shows "supervisor_ok ((lose_capability j c s)\<lparr>sv_escaped := c # sv_escaped s\<rparr>)"
  by (rule captured_change_ok [OF assms, where d = 0 and cs = "c # sv_escaped s"]) simp_all

lemma finish_task_ok:
  assumes ok: "supervisor_ok s" and j: "j \<in> set (running s)"
  shows "supervisor_ok (finish_task j e s)"
proof -
  let ?r = "join_result_of (task_kind s j) (sh_state s) e"
  let ?f = "\<lambda>k. k\<lparr>jt_task := \<lparr>bt_permit = False, bt_capabilities = []\<rparr>, jt_joined := Some ?r\<rparr>"
  let ?t = "finish_task j e s" and ?n = "length (bt_capabilities (jt_task j))" and ?u = "update_task (jt_id j) ?f s"
  have tok: "tasks_ok s" and aok: "active_ok s" and own: "owned_ok s" using ok by (simp_all add: supervisor_ok_def)
  have js: "j \<in> set (sv_tasks s)" "jt_joined j = None" "running s \<noteq> []"
    using j by (simp_all add: running_member) (use j in auto)
  have open': "receivers_open s" using holder_open ok js(3) by blast
  have le: "?n \<le> sh_owned_capabilities s"
    using task_capabilities_counted [OF js(1)] own by (simp add: owned_ok_def live_capabilities_def all_tasks_def)
  have t: "?t = ?u\<lparr>sv_escaped := sv_escaped s, sh_owned_capabilities := sh_owned_capabilities s - ?n,
      sh_admitted_slots := sh_admitted_slots s + permits [jt_task j],
      sv_internal := sv_internal s @ replicate ?n CapabilityDropped\<rparr>"
    using open' unfolding finish_task_def Let_def drop_task_eq [OF le] dropped_def update_task_def by simp
  have i: "jt_id (?f k) = jt_id k" for k by simp
  have u: "task_ok s (?f k)" if "k \<in> set (sv_tasks s)" "jt_id k = jt_id j" for k
  proof -
    have "task_ok s k" using tok that(1) by (simp add: tasks_ok_def list_all_iff)
    then show ?thesis by (simp add: task_ok_def)
  qed
  have upd: "tasks_ok ?u" by (rule tasks_ok_update(1) [OF tok i u])
  have "active p ?u = active p s" for p by (rule tasks_ok_update(2) [OF tok i u])
  with aok have act: "active_ok ?u" by (simp add: active_ok_def)
  note sums = update_captured [OF tok js(1) i]
  have live: "live_capabilities ?t + ?n = live_capabilities s"
    using sums(1) by (simp add: live_capabilities_def all_tasks_def t)
  have "holders_change s ?t"
    unfolding holders_change_def
    by (intro exI [of _ "jt_id j"] exI [of _ ?f] exI [of _ "sv_escaped s"] exI [of _ "sh_owned_capabilities s - ?n"]
        exI [of _ ?n] exI [of _ "sh_admitted_slots s + permits [jt_task j]"] conjI t live)
  moreover have "same_tasks ?u ?t" unfolding t by (simp add: same_tasks_def)
  then have "tasks_ok ?t" "active_ok ?t" using upd act by (auto intro: same_tasks_ok)
  moreover have "owned_ok ?t"
    using own live sums(2) by (simp add: owned_ok_def) (simp add: t all_tasks_def)
  ultimately show ?thesis using holders_change_ok [OF ok] js(3) by blast
qed

text \<open>The actor starts a command: it leaves its channel and becomes a task.\<close>

definition core_ok :: "supervisor \<Rightarrow> bool" where
  "core_ok s \<longleftrightarrow> queued_ok s \<and> owned_ok s \<and> active_ok s \<and> tasks_ok s \<and> commands_ok s"

text \<open>The tasks that were accepted and are not joined yet: in a channel or started.\<close>

definition outstanding :: "supervisor \<Rightarrow> task_metadata multiset" where
  "outstanding s = mset (map sc_metadata (sv_admitted s)) + mset (map sc_metadata (sv_service s)) +
     mset (map sc_metadata (spawns (sv_internal s))) + mset (map (\<lambda>j. the (sv_metadata s (jt_id j))) (sv_tasks s))"

text \<open>How many joined tasks completed, and how many did not.\<close>

definition outcomes :: "supervisor \<Rightarrow> nat \<times> nat" where
  "outcomes s = (sh_completed s, sh_failed s + sh_panicked s + sh_cancelled s)"

definition actor_frame :: "supervisor \<Rightarrow> supervisor \<Rightarrow> bool" where
  "actor_frame s t \<longleftrightarrow> sh_state t = sh_state s \<and> sv_control t = sv_control s \<and> sv_draining t = sv_draining s \<and>
     sv_control_open t = sv_control_open s \<and> sv_internal_open t = sv_internal_open s \<and>
     sv_admitted_open t = sv_admitted_open s \<and> sv_service_open t = sv_service_open s \<and> sv_pc t = sv_pc s \<and>
     sv_handles t = sv_handles s \<and> sv_lifecycle t = sv_lifecycle s \<and> sv_drained t = sv_drained s \<and>
     sv_escaped t = sv_escaped s \<and> live_capabilities t = live_capabilities s \<and> outstanding t = outstanding s \<and>
     outcomes t = outcomes s"

lemma actor_frame_trans: "actor_frame s t \<Longrightarrow> actor_frame t u \<Longrightarrow> actor_frame s u"
  by (simp add: actor_frame_def)

lemma spawn_joined_frame [simp]:
  "sh_state (spawn_joined c s) = sh_state s" "sv_control (spawn_joined c s) = sv_control s"
  "sv_draining (spawn_joined c s) = sv_draining s" "sv_control_open (spawn_joined c s) = sv_control_open s"
  "sv_internal_open (spawn_joined c s) = sv_internal_open s" "sv_admitted_open (spawn_joined c s) = sv_admitted_open s"
  "sv_service_open (spawn_joined c s) = sv_service_open s" "sv_pc (spawn_joined c s) = sv_pc s"
  "sv_handles (spawn_joined c s) = sv_handles s" "sv_lifecycle (spawn_joined c s) = sv_lifecycle s"
  "sv_drained (spawn_joined c s) = sv_drained s" "sv_escaped (spawn_joined c s) = sv_escaped s"
  "sv_admitted (spawn_joined c s) = sv_admitted s" "sv_service (spawn_joined c s) = sv_service s"
  "sv_internal (spawn_joined c s) = sv_internal s" "sh_owned_capabilities (spawn_joined c s) = sh_owned_capabilities s"
  "sh_admitted_slots (spawn_joined c s) = sh_admitted_slots s" "sh_admitted_capacity (spawn_joined c s) = sh_admitted_capacity s"
  "sh_admitted_queued (spawn_joined c s) = sh_admitted_queued s" "sh_service_queued (spawn_joined c s) = sh_service_queued s"
  "sh_internal_queued (spawn_joined c s) = sh_internal_queued s"
  "sh_completed (spawn_joined c s) = sh_completed s" "sh_failed (spawn_joined c s) = sh_failed s"
  "sh_panicked (spawn_joined c s) = sh_panicked s" "sh_cancelled (spawn_joined c s) = sh_cancelled s"
  "map jt_task (sv_tasks (spawn_joined c s)) = map jt_task (sv_tasks s) @ [sc_task c]" "sv_tasks (spawn_joined c s) \<noteq> []"
  by (simp_all add: spawn_joined_def Let_def)

lemma spawn_joined_tasks:
  assumes tok: "tasks_ok s" and aok: "active_ok s"
    and p: "bt_permit (sc_task c) = admitted_kind (tm_kind (sc_metadata c))"
  shows "tasks_ok (spawn_joined c s)" "active_ok (spawn_joined c s)"
proof -
  let ?t = "spawn_joined c s" and ?j = "\<lparr>jt_id = sv_next_id s, jt_task = sc_task c, jt_joined = None\<rparr>"
  have ts: "sv_tasks ?t = sv_tasks s @ [?j]" "sv_metadata ?t = (sv_metadata s)(sv_next_id s \<mapsto> sc_metadata c)"
    "sv_next_id ?t = sv_next_id s + 1"
    by (simp_all add: spawn_joined_def Let_def)
  have fresh: "jt_id k < sv_next_id s" if "k \<in> set (sv_tasks s)" for k
    using tok that by (auto simp: tasks_ok_def list_all_iff task_ok_def)
  have kind: "task_kind ?t k = task_kind s k" if "k \<in> set (sv_tasks s)" for k
    using fresh [OF that] by (simp add: task_kind_def ts)
  have newk: "task_kind ?t ?j = tm_kind (sc_metadata c)" by (simp add: task_kind_def ts)
  have old: "task_ok ?t k" if "k \<in> set (sv_tasks s)" for k
  proof -
    have "task_ok s k" using tok that by (simp add: tasks_ok_def list_all_iff)
    with fresh [OF that] kind [OF that] show ?thesis by (simp add: task_ok_def ts)
  qed
  have "sv_next_id s \<notin> jt_id ` set (sv_tasks s)" using fresh by fastforce
  moreover have "task_ok ?t ?j" using p newk by (simp add: task_ok_def ts)
  ultimately show "tasks_ok ?t" using tok old by (simp add: tasks_ok_def ts list_all_iff)
  have "active q ?t = active q s + (if q (tm_kind (sc_metadata c)) then 1 else 0)" for q
    using newk kind by (simp add: active_def ts(1) cong: filter_cong)
  with aok show "active_ok ?t"
    by (simp add: active_ok_def) (auto simp: spawn_joined_def Let_def elim: is_internal.elims)
qed

lemma spawn_joined_outstanding:
  assumes tok: "tasks_ok s"
  shows "outstanding (spawn_joined c s) = add_mset (sc_metadata c) (outstanding s)"
proof -
  have "jt_id k < sv_next_id s" if "k \<in> set (sv_tasks s)" for k
    using tok that by (auto simp: tasks_ok_def list_all_iff task_ok_def)
  then have "image_mset (\<lambda>j. the (((sv_metadata s)(sv_next_id s \<mapsto> sc_metadata c)) (jt_id j))) (mset (sv_tasks s))
      = image_mset (\<lambda>j. the (sv_metadata s (jt_id j))) (mset (sv_tasks s))"
    by (intro image_mset_cong) fastforce
  moreover have "sv_tasks (spawn_joined c s) = sv_tasks s @ [\<lparr>jt_id = sv_next_id s, jt_task = sc_task c, jt_joined = None\<rparr>]"
    "sv_metadata (spawn_joined c s) = (sv_metadata s)(sv_next_id s \<mapsto> sc_metadata c)"
    by (simp_all add: spawn_joined_def Let_def)
  ultimately show ?thesis by (simp add: outstanding_def)
qed

lemma spawn_admitted_core:
  assumes ok: "core_ok (s\<lparr>sv_admitted := c # cs\<rparr>)" and r: "receivers_open s"
  shows "core_ok (spawn_admitted c (s\<lparr>sv_admitted := cs\<rparr>))"
    "actor_frame (s\<lparr>sv_admitted := c # cs\<rparr>) (spawn_admitted c (s\<lparr>sv_admitted := cs\<rparr>))"
proof -
  let ?s = "s\<lparr>sv_admitted := cs, sh_admitted_queued := fetch_sub (sh_admitted_queued s)\<rparr>"
  have c: "command_ok admitted_kind c" using ok by (simp add: core_ok_def commands_ok_def)
  have "same_tasks (s\<lparr>sv_admitted := c # cs\<rparr>) ?s" by (simp add: same_tasks_def)
  then have tok: "tasks_ok ?s" "active_ok ?s" using ok by (auto simp: core_ok_def intro: same_tasks_ok)
  from spawn_joined_tasks [OF tok, of c] c
  have "tasks_ok (spawn_joined c ?s)" "active_ok (spawn_joined c ?s)" by (auto simp: command_ok_def)
  with ok r show "core_ok (spawn_admitted c (s\<lparr>sv_admitted := cs\<rparr>))"
    by (simp add: core_ok_def spawn_admitted_def queued_ok_def owned_ok_def commands_ok_def live_capabilities_def
        all_tasks_def receivers_open_def)
  show "actor_frame (s\<lparr>sv_admitted := c # cs\<rparr>) (spawn_admitted c (s\<lparr>sv_admitted := cs\<rparr>))"
    using spawn_joined_outstanding [OF tok(1), of c]
    by (simp add: actor_frame_def spawn_admitted_def live_capabilities_def all_tasks_def) (simp add: outstanding_def outcomes_def)
qed

lemma spawn_service_core:
  assumes ok: "core_ok (s\<lparr>sv_service := c # cs\<rparr>)" and r: "receivers_open s"
  shows "core_ok (spawn_service c (s\<lparr>sv_service := cs\<rparr>))"
    "actor_frame (s\<lparr>sv_service := c # cs\<rparr>) (spawn_service c (s\<lparr>sv_service := cs\<rparr>))"
proof -
  let ?s = "s\<lparr>sv_service := cs, sh_service_queued := fetch_sub (sh_service_queued s)\<rparr>"
  have c: "command_ok is_service c" using ok by (simp add: core_ok_def commands_ok_def)
  have "same_tasks (s\<lparr>sv_service := c # cs\<rparr>) ?s" by (simp add: same_tasks_def)
  then have tok: "tasks_ok ?s" "active_ok ?s" using ok by (auto simp: core_ok_def intro: same_tasks_ok)
  from spawn_joined_tasks [OF tok, of c] c
  have "tasks_ok (spawn_joined c ?s)" "active_ok (spawn_joined c ?s)" by (auto simp: command_ok_def)
  with ok r show "core_ok (spawn_service c (s\<lparr>sv_service := cs\<rparr>))"
    by (simp add: core_ok_def spawn_service_def queued_ok_def owned_ok_def commands_ok_def live_capabilities_def
        all_tasks_def receivers_open_def)
  show "actor_frame (s\<lparr>sv_service := c # cs\<rparr>) (spawn_service c (s\<lparr>sv_service := cs\<rparr>))"
    using spawn_joined_outstanding [OF tok(1), of c]
    by (simp add: actor_frame_def spawn_service_def live_capabilities_def all_tasks_def) (simp add: outstanding_def outcomes_def)
qed

lemma handle_internal_core:
  assumes ok: "core_ok (s\<lparr>sv_internal := c # cs\<rparr>)" and r: "receivers_open s"
  shows "core_ok (handle_internal c (s\<lparr>sv_internal := cs\<rparr>))"
    "actor_frame (s\<lparr>sv_internal := c # cs\<rparr>) (handle_internal c (s\<lparr>sv_internal := cs\<rparr>))"
proof (atomize (full), cases c)
  case CapabilityDropped
  have "same_tasks (s\<lparr>sv_internal := c # cs\<rparr>) (s\<lparr>sv_internal := cs\<rparr>)" by (simp add: same_tasks_def)
  then have "tasks_ok (s\<lparr>sv_internal := cs\<rparr>)" "active_ok (s\<lparr>sv_internal := cs\<rparr>)"
    using ok by (auto simp: core_ok_def intro: same_tasks_ok)
  with CapabilityDropped ok show "core_ok (handle_internal c (s\<lparr>sv_internal := cs\<rparr>)) \<and>
      actor_frame (s\<lparr>sv_internal := c # cs\<rparr>) (handle_internal c (s\<lparr>sv_internal := cs\<rparr>))"
    by (simp add: core_ok_def queued_ok_def owned_ok_def commands_ok_def live_capabilities_def all_tasks_def
        receivers_open_def actor_frame_def outstanding_def outcomes_def)
next
  case (SpawnCleanup d)
  let ?s = "s\<lparr>sv_internal := cs, sh_internal_queued := fetch_sub (sh_internal_queued s)\<rparr>"
  have d: "command_ok is_internal d" using ok SpawnCleanup by (simp add: core_ok_def commands_ok_def)
  have "same_tasks (s\<lparr>sv_internal := c # cs\<rparr>) ?s" by (simp add: same_tasks_def)
  then have tok: "tasks_ok ?s" "active_ok ?s" using ok by (auto simp: core_ok_def intro: same_tasks_ok)
  from spawn_joined_tasks [OF tok, of d] d
  have "tasks_ok (spawn_joined d ?s)" "active_ok (spawn_joined d ?s)" by (auto simp: command_ok_def)
  with SpawnCleanup ok r spawn_joined_outstanding [OF tok(1), of d]
  show "core_ok (handle_internal c (s\<lparr>sv_internal := cs\<rparr>)) \<and>
      actor_frame (s\<lparr>sv_internal := c # cs\<rparr>) (handle_internal c (s\<lparr>sv_internal := cs\<rparr>))"
    by (simp add: core_ok_def queued_ok_def owned_ok_def commands_ok_def live_capabilities_def all_tasks_def
        receivers_open_def actor_frame_def) (simp add: outstanding_def outcomes_def)
qed

text \<open>
  A channel whose messages the actor handles one by one: handling one message keeps the state well
  formed, and so does draining the channel.
\<close>

definition started_from :: "supervisor \<Rightarrow> supervisor \<Rightarrow> bool" where
  "started_from s t \<longleftrightarrow> core_ok t \<and> actor_frame s t"

lemma started_from_trans: "started_from s t \<Longrightarrow> started_from t u \<Longrightarrow> started_from s u"
  by (auto simp: started_from_def intro: actor_frame_trans)

lemma frame_open: "actor_frame s t \<Longrightarrow> receivers_open t = receivers_open s"
  by (simp add: actor_frame_def receivers_open_def)

locale drained_channel =
  fixes put :: "'m list \<Rightarrow> supervisor \<Rightarrow> supervisor"
    and handle :: "'m \<Rightarrow> supervisor \<Rightarrow> supervisor"
  assumes handle_put: "handle m (put ms s) = put ms (handle m s)"
    and put_open: "receivers_open (put ms s) = receivers_open s"
    and handle_ok: "core_ok (put (m # ms) s) \<Longrightarrow> receivers_open s \<Longrightarrow> started_from (put (m # ms) s) (handle m (put ms s))"
begin

lemma drain_channel:
  "core_ok (put ms s) \<Longrightarrow> receivers_open s \<Longrightarrow> started_from (put ms s) (fold handle ms (put [] s))"
proof (induction ms arbitrary: s)
  case Nil
  then show ?case by (simp add: started_from_def actor_frame_def)
next
  case (Cons m ms)
  have one: "started_from (put (m # ms) s) (put ms (handle m s))"
    using handle_ok [OF Cons.prems] by (simp add: handle_put)
  then have "core_ok (put ms (handle m s))" "receivers_open (handle m s)"
    using frame_open [of "put (m # ms) s"] put_open Cons.prems by (auto simp: started_from_def)
  from Cons.IH [OF this] one show ?case by (simp add: handle_put started_from_trans)
qed

end

interpretation admitted_channel: drained_channel "\<lambda>cs s. s\<lparr>sv_admitted := cs\<rparr>" spawn_admitted
  using spawn_admitted_core
  by unfold_locales (simp_all add: started_from_def spawn_admitted_def spawn_joined_def receivers_open_def Let_def)

interpretation service_channel: drained_channel "\<lambda>cs s. s\<lparr>sv_service := cs\<rparr>" spawn_service
  using spawn_service_core
  by unfold_locales (simp_all add: started_from_def spawn_service_def spawn_joined_def receivers_open_def Let_def)

lemma handle_internal_put: "handle_internal c (s\<lparr>sv_internal := cs\<rparr>) = (handle_internal c s)\<lparr>sv_internal := cs\<rparr>"
  by (cases c) (simp_all add: spawn_joined_def Let_def)

interpretation internal_channel: drained_channel "\<lambda>cs s. s\<lparr>sv_internal := cs\<rparr>" handle_internal
  using handle_internal_core handle_internal_put
  by unfold_locales (simp_all add: started_from_def receivers_open_def)

lemma fold_spawn_frame [simp]:
  "sv_admitted (fold spawn_admitted cs s) = sv_admitted s" "sv_service (fold spawn_admitted cs s) = sv_service s"
  "sv_internal (fold spawn_admitted cs s) = sv_internal s"
  "sv_admitted (fold spawn_service cs s) = sv_admitted s" "sv_service (fold spawn_service cs s) = sv_service s"
  "sv_internal (fold spawn_service cs s) = sv_internal s"
  by (induction cs arbitrary: s) (simp_all add: spawn_admitted_def spawn_service_def)

lemma handle_internal_queues [simp]:
  "sv_admitted (handle_internal c s) = sv_admitted s" "sv_service (handle_internal c s) = sv_service s"
  "sv_internal (handle_internal c s) = sv_internal s"
  by (cases c; simp)+

lemma fold_internal_frame [simp]:
  "sv_admitted (fold handle_internal cs s) = sv_admitted s" "sv_service (fold handle_internal cs s) = sv_service s"
  "sv_internal (fold handle_internal cs s) = sv_internal s"
  by (induction cs arbitrary: s) simp_all

lemma drain_ready_ok:
  assumes ok: "core_ok s" and r: "receivers_open s"
  shows "started_from s (drain_ready_commands s)" "sv_admitted (drain_ready_commands s) = []"
    "sv_service (drain_ready_commands s) = []" "sv_internal (drain_ready_commands s) = []"
proof -
  let ?t = "fold spawn_admitted (sv_admitted s) (s\<lparr>sv_admitted := []\<rparr>)"
  let ?u = "fold spawn_service (sv_service ?t) (?t\<lparr>sv_service := []\<rparr>)"
  let ?v = "fold handle_internal (sv_internal ?u) (?u\<lparr>sv_internal := []\<rparr>)"
  have eq: "s\<lparr>sv_admitted := sv_admitted s\<rparr> = s" "s'\<lparr>sv_service := sv_service s'\<rparr> = s'"
    "s'\<lparr>sv_internal := sv_internal s'\<rparr> = s'" for s' :: supervisor by simp_all
  have a: "started_from s ?t"
    using admitted_channel.drain_channel [of "sv_admitted s" s] ok r by (simp only: eq)
  then have "core_ok ?t" "receivers_open ?t" using r frame_open by (auto simp: started_from_def)
  then have b: "started_from ?t ?u"
    using service_channel.drain_channel [of "sv_service ?t" ?t] by (simp only: eq)
  then have "core_ok ?u" "receivers_open ?u" using \<open>receivers_open ?t\<close> frame_open by (auto simp: started_from_def)
  then have c: "started_from ?u ?v"
    using internal_channel.drain_channel [of "sv_internal ?u" ?u] by (simp only: eq)
  have v: "drain_ready_commands s = ?v" by (simp only: drain_ready_commands_def Let_def)
  from a b c show "started_from s (drain_ready_commands s)" unfolding v by (blast intro: started_from_trans)
  show "sv_admitted (drain_ready_commands s) = []" "sv_service (drain_ready_commands s) = []"
    "sv_internal (drain_ready_commands s) = []" by (simp_all add: drain_ready_commands_def Let_def)
qed

lemma core_pc:
  assumes "core_ok s" "receivers_open s" "p \<noteq> Ended" "p \<noteq> SelectPanicked"
  shows "core_ok (s\<lparr>sv_pc := p\<rparr>)"
proof -
  have "same_tasks s (s\<lparr>sv_pc := p\<rparr>)" by (simp add: same_tasks_def)
  from same_tasks_ok [OF this] assms show ?thesis
    by (simp add: core_ok_def queued_ok_def owned_ok_def commands_ok_def live_capabilities_def all_tasks_def receivers_open_def)
qed

lemma supervisor_ok_core: "supervisor_ok s \<Longrightarrow> core_ok s"
  by (simp add: supervisor_ok_def core_ok_def)

lemma live_pc: "live_capabilities (s\<lparr>sv_pc := p\<rparr>) = live_capabilities s"
  by (simp add: live_capabilities_def all_tasks_def)

text \<open>A turn of the actor that only starts commands ends well wherever it goes next.\<close>

lemma turn_ok:
  assumes ok: "supervisor_ok s" and r: "receivers_open s" and t: "started_from s t"
    and q: "sv_admitted s = [] \<Longrightarrow> sv_admitted t = []" "sv_service s = [] \<Longrightarrow> sv_service t = []"
      "sv_internal s = [] \<Longrightarrow> sv_internal t = []"
    and p: "p \<noteq> Ended" "p \<noteq> SelectPanicked" and e: "exit_ok (t\<lparr>sv_pc := p\<rparr>)"
  shows "supervisor_ok (t\<lparr>sv_pc := p\<rparr>)"
proof -
  have f: "actor_frame s t" "core_ok t" using t by (simp_all add: started_from_def)
  have "core_ok (t\<lparr>sv_pc := p\<rparr>)" using core_pc [OF f(2)] frame_open [OF f(1)] r p by simp
  moreover have "drain_ok s" "closed_ok s" using ok by (simp_all add: supervisor_ok_def)
  then have "drain_ok (t\<lparr>sv_pc := p\<rparr>)" using f(1) r p by (auto simp: drain_ok_def actor_frame_def receivers_open_def)
  moreover from \<open>closed_ok s\<close> have "closed_ok (t\<lparr>sv_pc := p\<rparr>)"
    using f(1) q by (auto simp: closed_ok_def actor_frame_def live_pc)
  ultimately show ?thesis using e by (simp add: supervisor_ok_def core_ok_def)
qed

lemma exit_ok_top: "exit_ok (s\<lparr>sv_pc := LoopTop\<rparr>)"
  by (simp add: exit_ok_def)

lemma exit_ok_select: "\<not> sv_draining s \<or> sv_tasks s \<noteq> [] \<Longrightarrow> exit_ok (s\<lparr>sv_pc := Selecting\<rparr>)"
  by (auto simp: exit_ok_def)

lemma started_refl: "core_ok s \<Longrightarrow> started_from s s"
  by (simp add: started_from_def actor_frame_def)

lemma loop_top_ok:
  assumes ok: "supervisor_ok s" and pc: "sv_pc s = LoopTop"
  shows "supervisor_ok (loop_top s)"
proof -
  have r: "receivers_open s" using pc by (simp add: receivers_open_def)
  note core = supervisor_ok_core [OF ok]
  show ?thesis
  proof (cases "sv_draining s \<and> sv_tasks s = []")
    case False
    then show ?thesis
      using turn_ok [OF ok r started_refl [OF core]] exit_ok_select [of s] by (auto simp: loop_top_def)
  next
    case True
    let ?t = "drain_ready_commands s"
    note d = drain_ready_ok [OF core r]
    have "sv_draining ?t" using d(1) True by (simp add: started_from_def actor_frame_def)
    then have "exit_ok (?t\<lparr>sv_pc := (if sv_tasks ?t = [] then LoadAdmitted else Selecting)\<rparr>)"
      using d by (auto simp: exit_ok_def)
    from turn_ok [OF ok r d(1) _ _ _ _ _ this] d(2-4) True show ?thesis
      by (simp add: loop_top_def Let_def split: if_splits)
  qed
qed

lemma exit_load_ok:
  assumes ok: "supervisor_ok s" and pc: "sv_pc s \<in> {LoadAdmitted, LoadInternal, LoadService, LoadOwned}"
  shows "supervisor_ok (exit_load s)"
proof -
  have r: "receivers_open s" using pc by (auto simp: receivers_open_def)
  have e: "exit_ok s" "owned_ok s" "queued_ok s" using ok by (simp_all add: supervisor_ok_def)
  have st: "sv_draining s" "sv_tasks s = []" "sv_admitted s = []" "sv_service s = []"
    using e(1) pc by (auto simp: exit_ok_def)
  have "sh_admitted_queued s = 0" "sh_service_queued s = 0" "sh_internal_queued s = length (spawns (sv_internal s))"
    using e(3) r st by (simp_all add: queued_ok_def)
  moreover have "sh_owned_capabilities s = live_capabilities s" using e(2) by (simp add: owned_ok_def)
  ultimately have "\<exists>p. exit_load s = s\<lparr>sv_pc := p\<rparr> \<and> p \<noteq> Ended \<and> p \<noteq> SelectPanicked \<and> exit_ok (s\<lparr>sv_pc := p\<rparr>)"
    using pc st by (auto simp: exit_load_def exit_ok_def live_pc)
  then show ?thesis using turn_ok [OF ok r started_refl [OF supervisor_ok_core [OF ok]]] by auto
qed

lemma on_control_ok:
  assumes ok: "supervisor_ok s" and pc: "sv_pc s = Selecting" and c: "sv_control_open s"
  shows "supervisor_ok (on_control s)"
proof -
  have "same_tasks s (on_control s)" by (simp add: same_tasks_def on_control_def)
  from same_tasks_ok [OF this] ok pc c show ?thesis
    by (simp add: supervisor_ok_def queued_ok_def owned_ok_def commands_ok_def drain_ok_def closed_ok_def exit_ok_def
        live_capabilities_def all_tasks_def receivers_open_def on_control_def)
qed

lemma receive_started:
  assumes ok: "supervisor_ok s" and pc: "sv_pc s = Selecting"
  shows "sv_internal s \<noteq> [] \<Longrightarrow>
      started_from s (handle_internal (hd (sv_internal s)) (s\<lparr>sv_internal := tl (sv_internal s)\<rparr>))"
    "sv_admitted s \<noteq> [] \<Longrightarrow> started_from s (spawn_admitted (hd (sv_admitted s)) (s\<lparr>sv_admitted := tl (sv_admitted s)\<rparr>))"
    "sv_service s \<noteq> [] \<Longrightarrow> started_from s (spawn_service (hd (sv_service s)) (s\<lparr>sv_service := tl (sv_service s)\<rparr>))"
proof -
  have r: "receivers_open s" using pc by (simp add: receivers_open_def)
  note core = supervisor_ok_core [OF ok]
  have eq: "s\<lparr>sv_internal := sv_internal s\<rparr> = s" "s\<lparr>sv_admitted := sv_admitted s\<rparr> = s" "s\<lparr>sv_service := sv_service s\<rparr> = s"
    by simp_all
  note only = list.collapse eq not_False_eq_True simp_thms
  show "started_from s (handle_internal (hd (sv_internal s)) (s\<lparr>sv_internal := tl (sv_internal s)\<rparr>))" if "sv_internal s \<noteq> []"
    using internal_channel.handle_ok [of "hd (sv_internal s)" "tl (sv_internal s)" s] core r that by (simp only: only)
  show "started_from s (spawn_admitted (hd (sv_admitted s)) (s\<lparr>sv_admitted := tl (sv_admitted s)\<rparr>))" if "sv_admitted s \<noteq> []"
    using admitted_channel.handle_ok [of "hd (sv_admitted s)" "tl (sv_admitted s)" s] core r that by (simp only: only)
  show "started_from s (spawn_service (hd (sv_service s)) (s\<lparr>sv_service := tl (sv_service s)\<rparr>))" if "sv_service s \<noteq> []"
    using service_channel.handle_ok [of "hd (sv_service s)" "tl (sv_service s)" s] core r that by (simp only: only)
qed

lemma receive_ok:
  assumes ok: "supervisor_ok s" and pc: "sv_pc s = Selecting"
  shows "sv_internal s \<noteq> [] \<Longrightarrow> supervisor_ok (on_internal s)" "sv_admitted s \<noteq> [] \<Longrightarrow> supervisor_ok (on_admitted s)"
    "sv_service s \<noteq> [] \<Longrightarrow> supervisor_ok (on_service s)"
proof -
  have r: "receivers_open s" using pc by (simp add: receivers_open_def)
  note started = receive_started [OF ok pc] and turn = turn_ok [OF ok r _ _ _ _ _ _ exit_ok_top]
  show "supervisor_ok (on_internal s)" if "sv_internal s \<noteq> []"
    using turn [OF started(1)] that by (simp add: on_internal_def)
  show "supervisor_ok (on_admitted s)" if "sv_admitted s \<noteq> []"
    using turn [OF started(2)] that by (simp add: on_admitted_def) (simp add: spawn_admitted_def)
  show "supervisor_ok (on_service s)" if "sv_service s \<noteq> []"
    using turn [OF started(3)] that by (simp add: on_service_def) (simp add: spawn_service_def)
qed

lemma closed_step_ok:
  assumes ok: "supervisor_ok s" and pc: "sv_pc s = Selecting"
  shows "sv_control s = [] \<Longrightarrow> \<not> sv_lifecycle s \<Longrightarrow> supervisor_ok (s\<lparr>sv_control_open := False, sv_pc := LoopTop\<rparr>)"
    "sv_internal s = [] \<Longrightarrow> sv_handles s = 0 \<Longrightarrow> live_capabilities s = 0
      \<Longrightarrow> supervisor_ok (s\<lparr>sv_internal_open := False, sv_pc := LoopTop\<rparr>)"
    "sv_admitted s = [] \<Longrightarrow> sv_handles s = 0 \<Longrightarrow> supervisor_ok (s\<lparr>sv_admitted_open := False, sv_pc := LoopTop\<rparr>)"
    "sv_service s = [] \<Longrightarrow> sv_handles s = 0 \<Longrightarrow> supervisor_ok (s\<lparr>sv_service_open := False, sv_pc := LoopTop\<rparr>)"
proof -
  have s: "same_tasks s (s\<lparr>sv_control_open := b, sv_pc := LoopTop\<rparr>)" "same_tasks s (s\<lparr>sv_internal_open := b, sv_pc := LoopTop\<rparr>)"
    "same_tasks s (s\<lparr>sv_admitted_open := b, sv_pc := LoopTop\<rparr>)" "same_tasks s (s\<lparr>sv_service_open := b, sv_pc := LoopTop\<rparr>)" for b
    by (simp_all add: same_tasks_def)
  note defs = supervisor_ok_def state_defs
  show "supervisor_ok (s\<lparr>sv_control_open := False, sv_pc := LoopTop\<rparr>)" if "sv_control s = []" "\<not> sv_lifecycle s"
    using same_tasks_ok [OF s(1)] ok pc that by (simp add: defs)
  show "supervisor_ok (s\<lparr>sv_internal_open := False, sv_pc := LoopTop\<rparr>)"
    if "sv_internal s = []" "sv_handles s = 0" "live_capabilities s = 0"
    using same_tasks_ok [OF s(2)] ok pc that by (simp add: defs)
  show "supervisor_ok (s\<lparr>sv_admitted_open := False, sv_pc := LoopTop\<rparr>)" if "sv_admitted s = []" "sv_handles s = 0"
    using same_tasks_ok [OF s(3)] ok pc that by (simp add: defs)
  show "supervisor_ok (s\<lparr>sv_service_open := False, sv_pc := LoopTop\<rparr>)" if "sv_service s = []" "sv_handles s = 0"
    using same_tasks_ok [OF s(4)] ok pc that by (simp add: defs)
qed

lemma drop_nothing: "bt_capabilities b = [] \<Longrightarrow> \<not> bt_permit b \<Longrightarrow> drop_task b s = s"
  by (simp add: drop_task_def)

lemma fold_drop_nothing:
  "captured (map sc_task (spawns cs)) = 0 \<Longrightarrow> list_all (command_ok is_internal) (spawns cs) \<Longrightarrow> fold drop_internal cs s = s"
proof (induction cs)
  case Nil
  then show ?case by simp
next
  case (Cons c cs)
  then show ?case by (cases c) (auto simp: command_ok_def drop_nothing)
qed

lemma actor_ends_eq:
  assumes ok: "supervisor_ok s" and pc: "sv_pc s = Breaking"
  shows "actor_ends s = s\<lparr>sh_state := Stopped, sv_pc := Ended, sv_control := [], sv_internal := []\<rparr>"
proof -
  have e: "sv_admitted s = []" "sv_service s = []" "live_capabilities s = 0"
    using ok pc by (simp_all add: supervisor_ok_def exit_ok_def)
  moreover have "list_all (command_ok is_internal) (spawns (sv_internal s))"
    using ok by (simp add: supervisor_ok_def commands_ok_def)
  ultimately show ?thesis
    by (simp add: actor_ends_def Let_def live_capabilities_def all_tasks_def fold_drop_nothing)
qed

lemma actor_ends_ok:
  assumes ok: "supervisor_ok s" and pc: "sv_pc s = Breaking"
  shows "supervisor_ok (actor_ends s)"
proof -
  have e: "exit_ok s" "commands_ok s" "owned_ok s" using ok by (simp_all add: supervisor_ok_def)
  have live: "live_capabilities s = 0" "sv_tasks s = []" "sv_draining s" "sv_admitted s = []" "sv_service s = []"
    using e(1) pc by (simp_all add: exit_ok_def)
  have p: "permits (map sc_task cs) = 0" if "list_all (command_ok is_internal) cs" for cs
    using that by (induction cs) (auto simp: command_ok_def)
  let ?t = "s\<lparr>sh_state := Stopped, sv_pc := Ended, sv_control := [], sv_internal := []\<rparr>"
  have "same_tasks s ?t" by (simp add: same_tasks_def)
  from same_tasks_ok [OF this] ok p e(2,3) live pc show ?thesis
    unfolding actor_ends_eq [OF ok pc] by (simp add: supervisor_ok_def state_defs)
qed

definition without_task :: "join_task \<Rightarrow> supervisor \<Rightarrow> supervisor" where
  "without_task j s = s\<lparr>sv_tasks := filter (\<lambda>k. jt_id k \<noteq> jt_id j) (sv_tasks s),
     sv_metadata := (sv_metadata s)(jt_id j := None)\<rparr>"

lemma without_task_tasks:
  assumes tok: "tasks_ok s" and j: "j \<in> set (sv_tasks s)"
  shows "tasks_ok (without_task j s)" "active q (without_task j s) + (if q (task_kind s j) then 1 else 0) = active q s"
proof -
  let ?t = "without_task j s" and ?ts = "filter (\<lambda>k. jt_id k \<noteq> jt_id j) (sv_tasks s)"
  have ts: "sv_tasks ?t = ?ts" by (simp add: without_task_def)
  have k: "task_kind ?t k = task_kind s k" "task_ok ?t k = task_ok s k" if "jt_id k \<noteq> jt_id j" for k
    using that by (simp_all add: task_kind_def without_task_def task_ok_def)
  have "dom (sv_metadata ?t) = jt_id ` set ?ts" using tok by (auto simp: tasks_ok_def without_task_def)
  moreover have "list_all (task_ok ?t) ?ts" using tok k by (auto simp: tasks_ok_def list_all_iff)
  ultimately show "tasks_ok ?t" using tok by (simp add: tasks_ok_def ts distinct_map_filter)
  have "active q ?t = length (filter (\<lambda>j. q (task_kind s j)) ?ts)"
    unfolding active_def ts using k by (intro arg_cong [where f = length] filter_cong) auto
  also have "\<dots> + (if q (task_kind s j) then 1 else 0) = active q s"
    unfolding active_def length_filter_sum using tok
    by (intro sum_remove_task [OF _ j, of "\<lambda>j. if q (task_kind s j) then 1 else 0"]) (simp add: tasks_ok_def)
  finally show "active q ?t + (if q (task_kind s j) then 1 else 0) = active q s" .
qed

lemma without_task_sums:
  assumes tok: "tasks_ok s" and j: "j \<in> set (sv_tasks s)" and r: "jt_joined j \<noteq> None"
  shows "captured (map jt_task (sv_tasks (without_task j s))) = captured (map jt_task (sv_tasks s))"
    "permits (map jt_task (sv_tasks (without_task j s))) = permits (map jt_task (sv_tasks s))"
proof -
  have "task_ok s j" using tok j by (simp add: tasks_ok_def list_all_iff)
  with r have b: "jt_task j = \<lparr>bt_permit = False, bt_capabilities = []\<rparr>" by (simp add: task_ok_def)
  have d: "distinct (map jt_id (sv_tasks s))" using tok by (simp add: tasks_ok_def)
  show "captured (map jt_task (sv_tasks (without_task j s))) = captured (map jt_task (sv_tasks s))"
    "permits (map jt_task (sv_tasks (without_task j s))) = permits (map jt_task (sv_tasks s))"
    using sum_remove_task [OF d j, of "length \<circ> bt_capabilities \<circ> jt_task"]
      sum_remove_task [OF d j, of "\<lambda>j. if bt_permit (jt_task j) then 1 else 0"] b
    by (simp_all add: without_task_def captured_tasks permits_tasks)
qed

text \<open>The rest of a join: the counters and, for a service that ended early, the drain.\<close>

lemma on_joined_eq:
  assumes tok: "tasks_ok s" and j: "j \<in> set (sv_tasks s)"
  shows "on_joined j r s =
    (let t = count_join r (decrement_active (task_kind s j) (without_task j s))
     in (if is_service (task_kind s j) \<and> sh_state s = Accepting then t\<lparr>sh_state := Draining, sv_draining := True\<rparr> else t)
        \<lparr>sv_pc := LoopTop\<rparr>)"
proof -
  have "task_ok s j" using tok j by (simp add: tasks_ok_def list_all_iff)
  then obtain m where m: "sv_metadata s (jt_id j) = Some m" by (auto simp: task_ok_def)
  have st: "sh_state (count_join r (decrement_active k u)) = sh_state u" for k u
    by (cases "(r, u)" rule: count_join.cases) (simp_all add: decrement_active_def)
  show ?thesis
    by (simp add: on_joined_def reap_joined_def m task_kind_def without_task_def st Let_def)
qed

lemma count_join_eq: "count_join r s = s\<lparr>
    sh_completed := sh_completed s + (if r = JoinReport TaskCompleted then 1 else 0),
    sh_failed := sh_failed s + (if \<exists>f. r = JoinReport (TaskFailed f) then 1 else 0),
    sh_panicked := sh_panicked s + (if r = JoinPanicked then 1 else 0),
    sh_cancelled := sh_cancelled s + (if r = JoinCancelled then 1 else 0)\<rparr>"
  by (cases "(r, s)" rule: count_join.cases) simp_all

lemma on_joined_ok:
  assumes ok: "supervisor_ok s" and pc: "sv_pc s = Selecting" and j: "j \<in> set (sv_tasks s)" and r: "jt_joined j = Some r"
  shows "supervisor_ok (on_joined j r s)"
proof -
  have parts: "tasks_ok s" "active_ok s" "queued_ok s" "owned_ok s" "commands_ok s" "drain_ok s" "closed_ok s" "exit_ok s"
    using ok by (simp_all add: supervisor_ok_def)
  let ?w = "without_task j s" and ?k = "task_kind s j"
  define t where "t = on_joined j r s"
  note t = t_def [unfolded on_joined_eq [OF parts(1) j] count_join_eq Let_def]
  note w = without_task_tasks [OF parts(1) j] and sums = without_task_sums [OF parts(1) j]
  have f: "sv_tasks t = sv_tasks ?w" "sv_metadata t = sv_metadata ?w" "sv_next_id t = sv_next_id ?w"
    by (simp_all add: t decrement_active_def)
  have tt: "tasks_ok t" and act: "\<And>q. active q t = active q ?w" using w(1) tasks_ok_cong [OF f] by simp_all
  have same: "sv_admitted t = sv_admitted s" "sv_service t = sv_service s" "sv_internal t = sv_internal s"
    "sv_escaped t = sv_escaped s" "sv_control t = sv_control s" "sv_pc t = LoopTop" "sv_handles t = sv_handles s"
    "sv_lifecycle t = sv_lifecycle s" "sv_drained t = sv_drained s" "sv_control_open t = sv_control_open s"
    "sv_internal_open t = sv_internal_open s" "sv_admitted_open t = sv_admitted_open s" "sv_service_open t = sv_service_open s"
    "sh_admitted_queued t = sh_admitted_queued s" "sh_service_queued t = sh_service_queued s"
    "sh_internal_queued t = sh_internal_queued s" "sh_owned_capabilities t = sh_owned_capabilities s"
    "sh_admitted_slots t = sh_admitted_slots s" "sh_admitted_capacity t = sh_admitted_capacity s"
    by (simp_all add: t decrement_active_def without_task_def)
  have live: "live_capabilities t = live_capabilities s" "permits (all_tasks t) = permits (all_tasks s)"
    using sums r by (simp_all add: live_capabilities_def all_tasks_def same f(1))
  have acts: "sh_internal_active t = sh_internal_active (decrement_active ?k s)"
    "sh_service_active t = sh_service_active (decrement_active ?k s)"
    "sh_admitted_active t = sh_admitted_active (decrement_active ?k s)"
    by (simp_all add: t decrement_active_def without_task_def)
  have excl: "\<not> (is_internal ?k \<and> is_service ?k)" by (cases ?k) simp_all
  have "active_ok t"
    using parts(2) w(2) [of is_internal] w(2) [of is_service] w(2) [of admitted_kind] excl
    unfolding active_ok_def act acts by (auto simp: decrement_active_def split: if_splits)
  moreover have "drain_ok t"
  proof -
    have "sh_state t = (if is_service ?k \<and> sh_state s = Accepting then Draining else sh_state s)"
      "sv_draining t \<longleftrightarrow> sv_draining s \<or> (is_service ?k \<and> sh_state s = Accepting)"
      by (simp_all add: t decrement_active_def without_task_def)
    then show ?thesis using parts(6) pc by (auto simp: drain_ok_def same)
  qed
  moreover have "closed_ok t" using parts(7) by (simp add: closed_ok_def same live)
  moreover have "exit_ok t" by (simp add: exit_ok_def same)
  moreover have "queued_ok t" using parts(3) pc by (simp add: queued_ok_def same receivers_open_def)
  moreover have "owned_ok t" using parts(4) by (simp add: owned_ok_def same live)
  moreover have "commands_ok t" using parts(5) by (simp add: commands_ok_def same)
  ultimately show ?thesis using tt by (simp add: supervisor_ok_def t_def)
qed

lemma no_branch_unreachable:
  assumes ok: "supervisor_ok s" and pc: "sv_pc s = Selecting"
  shows "\<not> no_branch s"
proof
  assume n: "no_branch s"
  have c: "closed_ok s" "drain_ok s" "exit_ok s" using ok by (simp_all add: supervisor_ok_def)
  from n c(1) have l: "\<not> sv_lifecycle s" "sv_control s = []" "live_capabilities s = 0" "sv_internal s = []"
    "sv_admitted s = []" "sv_service s = []" "sv_tasks s = []" "\<not> sv_control_open s"
    by (simp_all add: no_branch_def closed_ok_def)
  from c(2) l have "sv_draining s" by (auto simp: drain_ok_def)
  with c(3) l pc show False by (simp add: exit_ok_def)
qed


lemma supervisor_step_ok: "supervisor_step s e t \<Longrightarrow> supervisor_ok s \<Longrightarrow> supervisor_ok t"
proof (induction rule: supervisor_step.induct)
  case (actor_load s)
  then show ?case by (intro exit_load_ok)
next
  case (select_panics s)
  then show ?case using no_branch_unreachable by blast
qed (blast intro: try_spawn_admitted_ok try_spawn_service_ok handles_ok begin_draining_ok drop_lifecycle_ok
    try_spawn_cleanup_ok holder_live drop_escaped_ok drop_captured_ok escape_ok finish_task_ok loop_top_ok
    actor_ends_ok on_control_ok receive_ok closed_step_ok on_joined_ok)+

definition initial :: "supervisor \<Rightarrow> bool" where
  "initial s \<longleftrightarrow> (\<exists>n. new_driver_task_supervisor n = Inr s)"

interpretation supervisor: step_invariant initial supervisor_step supervisor_ok
proof
  show "supervisor_ok s" if "initial s" for s
    using that initial_ok
    by (auto simp: initial_def new_driver_task_supervisor_def config_validate_def split: if_splits)
  show "supervisor_ok t" if "supervisor_ok s" "supervisor_step s e t" for s e t
    using that supervisor_step_ok by blast
qed


section \<open>Accepted work and joined work\<close>

fun accepted_event :: "supervisor_event \<Rightarrow> task_metadata list" where
  "accepted_event (Admit m fate (Inr v)) = [m]"
| "accepted_event (Service m (Inr v)) = [m]"
| "accepted_event (Cleanup m fate (Inr v)) = [m]"
| "accepted_event _ = []"

fun joined_event :: "supervisor_event \<Rightarrow> task_metadata list" where
  "joined_event (ActorJoin (Some m) r) = [m]"
| "joined_event _ = []"

lemma outstanding_admitted: "outstanding (admitted_state m fate s) = add_mset m (outstanding s)"
  by (cases fate) (simp_all add: outstanding_def admitted_state_def factory_state_def Let_def)

lemma outstanding_service: "outstanding (service_state m s) = add_mset m (outstanding s)"
  by (simp add: outstanding_def service_state_def)

lemma outstanding_cleanup: "outstanding (cleanup_state c i fate s) = add_mset (cleanup_metadata i c) (outstanding s)"
  by (cases fate) (simp_all add: outstanding_def cleanup_state_def factory_state_def Let_def)

lemma outstanding_drop_capability: "outstanding (drop_capability s) = outstanding s"
  by (simp add: drop_capability_def send_internal_def outstanding_def receivers_open_def)

lemma outstanding_drop_task: "outstanding (drop_task b s) = outstanding s"
proof -
  have "outstanding (drop_capabilities cs s) = outstanding s" for cs
    by (induction cs arbitrary: s) (simp_all add: outstanding_drop_capability)
  then show ?thesis by (simp add: drop_task_def Let_def) (simp add: outstanding_def)
qed

lemma outstanding_update:
  assumes "\<And>k. jt_id (f k) = jt_id k"
  shows "outstanding (update_task i f s) = outstanding s"
  using assms by (simp add: outstanding_def) (simp add: update_task_def image_mset.compositionality comp_def if_distrib [of jt_id] cong: if_cong)

lemma mset_without:
  assumes "distinct (map jt_id ts)" "j \<in> set ts"
  shows "mset ts = add_mset j (mset (filter (\<lambda>k. jt_id k \<noteq> jt_id j) ts))"
  using assms
proof (induction ts)
  case Nil
  then show ?case by simp
next
  case (Cons k ts)
  then show ?case
  proof (cases "k = j")
    case True
    with Cons.prems have "filter (\<lambda>k. jt_id k \<noteq> jt_id j) ts = ts" by (auto simp: filter_id_conv rev_image_eqI)
    with True show ?thesis by (simp del: mset_filter)
  next
    case False
    with Cons.prems have "jt_id k \<noteq> jt_id j" by (auto simp: rev_image_eqI)
    with False Cons show ?thesis by (simp del: mset_filter)
  qed
qed

lemma outstanding_joined:
  assumes tok: "tasks_ok s" and j: "j \<in> set (sv_tasks s)"
  shows "outstanding s = add_mset (the (sv_metadata s (jt_id j))) (outstanding (on_joined j r s))"
proof -
  let ?ts = "filter (\<lambda>k. jt_id k \<noteq> jt_id j) (sv_tasks s)"
  have split: "mset (sv_tasks s) = add_mset j (mset ?ts)"
    using mset_without [OF _ j] tok by (simp add: tasks_ok_def)
  have "image_mset (\<lambda>k. the (((sv_metadata s)(jt_id j := None)) (jt_id k))) (mset ?ts)
      = image_mset (\<lambda>k. the (sv_metadata s (jt_id k))) (mset ?ts)"
    by (intro image_mset_cong) auto
  then show ?thesis
    using split
    by (simp add: outstanding_def on_joined_eq [OF tok j] count_join_eq decrement_active_def without_task_def Let_def
        del: mset_filter)
qed

lemma outstanding_pc: "outstanding (s\<lparr>sv_pc := p\<rparr>) = outstanding s"
  by (simp add: outstanding_def)

lemma started_outstanding: "started_from s t \<Longrightarrow> outstanding (t\<lparr>sv_pc := p\<rparr>) = outstanding s"
  by (simp add: started_from_def actor_frame_def outstanding_pc)

lemma outstanding_loop_top:
  assumes "supervisor_ok s" "sv_pc s = LoopTop"
  shows "outstanding (loop_top s) = outstanding s"
  using drain_ready_ok(1) [of s] supervisor_ok_core [OF assms(1)] assms(2)
  by (auto simp: loop_top_def Let_def outstanding_pc receivers_open_def started_from_def actor_frame_def)

lemma outstanding_drain: "outstanding (begin_draining s) = outstanding s" "outstanding (drop_lifecycle s) = outstanding s"
  by (simp_all add: outstanding_def begin_draining_def drop_lifecycle_def Let_def)

lemma outstanding_holders:
  "outstanding (lose_capability j c s) = outstanding s" "outstanding (finish_task j e s) = outstanding s"
  "outstanding (s\<lparr>sv_escaped := cs\<rparr>) = outstanding s"
  by (simp_all add: lose_capability_def finish_task_def Let_def outstanding_update outstanding_drop_task)
    (simp add: outstanding_def)

lemma step_accounts:
  "supervisor_step s e t \<Longrightarrow> supervisor_ok s \<Longrightarrow> e \<noteq> ActorEnd \<Longrightarrow>
     mset (accepted_event e) + outstanding s = mset (joined_event e) + outstanding t"
proof (induction rule: supervisor_step.induct)
  case (admit s m fate r t)
  then show ?case by (auto simp: try_spawn_admitted_eq outstanding_admitted split: if_splits)
next
  case (service s m r t)
  then show ?case
    by (auto simp: try_spawn_service_eq outstanding_service split: if_splits) (simp add: outstanding_def)
next
  case (cleanup_escaped c s i fate r t)
  then show ?case by (auto simp: try_spawn_cleanup_eq outstanding_cleanup split: if_splits)
next
  case (cleanup_task j s c i fate r t)
  then show ?case by (auto simp: try_spawn_cleanup_eq outstanding_cleanup split: if_splits)
next
  case (escape j s c)
  then show ?case using outstanding_holders(1) by (simp add: outstanding_def)
next
  case (actor_load s)
  then show ?case by (auto simp: exit_load_def outstanding_pc)
next
  case (joined s j r)
  then have tok: "tasks_ok s" by (simp add: supervisor_ok_def)
  moreover have "task_ok s j" using tok joined by (simp add: tasks_ok_def list_all_iff)
  ultimately show ?case using outstanding_joined [OF tok joined(2), of r] by (auto simp: task_ok_def)
next
  case (internal_recv s)
  then show ?case using receive_started(1) [of s] by (simp add: on_internal_def started_outstanding)
next
  case (admitted_recv s)
  then show ?case using receive_started(2) [of s] by (simp add: on_admitted_def started_outstanding)
next
  case (service_recv s)
  then show ?case using receive_started(3) [of s] by (simp add: on_service_def started_outstanding)
next
  case (actor_top s)
  then show ?case by (simp add: outstanding_loop_top)
next
  case (control_recv s)
  then show ?case by (simp add: on_control_def outstanding_def)
next
  case (actor_end s)
  then show ?case by simp
qed (simp_all add: outstanding_drain outstanding_drop_capability outstanding_holders, simp_all add: outstanding_def)

fun result_event :: "supervisor_event \<Rightarrow> join_result list" where
  "result_event (ActorJoin (Some m) r) = [r]"
| "result_event _ = []"

definition result_counts :: "join_result list \<Rightarrow> nat \<times> nat" where
  "result_counts rs = (length (filter (\<lambda>r. r = JoinReport TaskCompleted) rs), length (filter (\<lambda>r. r \<noteq> JoinReport TaskCompleted) rs))"

lemma outcomes_drop: "outcomes (drop_capability s) = outcomes s" "outcomes (drop_task b s) = outcomes s"
proof -
  show one: "outcomes (drop_capability s) = outcomes s" for s
    by (simp add: drop_capability_def send_internal_def outcomes_def receivers_open_def)
  have "outcomes (drop_capabilities cs s) = outcomes s" for cs
    by (induction cs arbitrary: s) (simp_all add: one)
  then show "outcomes (drop_task b s) = outcomes s" by (simp add: drop_task_def Let_def) (simp add: outcomes_def)
qed

lemma outcomes_update: "outcomes (update_task i f s) = outcomes s"
  by (simp add: outcomes_def update_task_def)

lemma outcomes_joined:
  assumes tok: "tasks_ok s" and j: "j \<in> set (sv_tasks s)"
  shows "outcomes (on_joined j r s) =
    (if r = JoinReport TaskCompleted then (fst (outcomes s) + 1, snd (outcomes s)) else (fst (outcomes s), snd (outcomes s) + 1))"
proof -
  consider "r = JoinReport TaskCompleted" | f where "r = JoinReport (TaskFailed f)" | "r = JoinCancelled" | "r = JoinPanicked"
    by (metis join_result.exhaust task_outcome.exhaust)
  then show ?thesis
    by cases (simp_all add: outcomes_def on_joined_eq [OF tok j] decrement_active_def without_task_def Let_def)
qed

lemma outcomes_pc: "outcomes (s\<lparr>sv_pc := p\<rparr>) = outcomes s"
  by (simp add: outcomes_def)

lemma started_outcomes: "started_from s t \<Longrightarrow> outcomes (t\<lparr>sv_pc := p\<rparr>) = outcomes s"
  by (simp add: started_from_def actor_frame_def outcomes_pc)

lemma outcomes_loop_top:
  assumes "supervisor_ok s" "sv_pc s = LoopTop"
  shows "outcomes (loop_top s) = outcomes s"
  using drain_ready_ok(1) [of s] supervisor_ok_core [OF assms(1)] assms(2)
  by (auto simp: loop_top_def Let_def outcomes_pc receivers_open_def started_from_def actor_frame_def)

lemma step_outcomes:
  "supervisor_step s e t \<Longrightarrow> supervisor_ok s \<Longrightarrow>
     outcomes t = (fst (outcomes s) + fst (result_counts (result_event e)), snd (outcomes s) + snd (result_counts (result_event e)))"
proof (induction rule: supervisor_step.induct)
  case (admit s m fate r t)
  then show ?case
    by (cases fate) (auto simp: try_spawn_admitted_eq outcomes_def admitted_state_def factory_state_def result_counts_def Let_def split: if_splits)
next
  case (service s m r t)
  then show ?case by (auto simp: try_spawn_service_eq outcomes_def service_state_def result_counts_def split: if_splits)
next
  case (cleanup_escaped c s i fate r t)
  then show ?case
    by (cases fate) (auto simp: try_spawn_cleanup_eq outcomes_def cleanup_state_def factory_state_def result_counts_def Let_def split: if_splits)
next
  case (cleanup_task j s c i fate r t)
  then show ?case
    by (cases fate) (auto simp: try_spawn_cleanup_eq outcomes_def cleanup_state_def factory_state_def result_counts_def Let_def split: if_splits)
next
  case (actor_load s)
  then show ?case by (auto simp: exit_load_def outcomes_def result_counts_def)
next
  case (joined s j r)
  then have tok: "tasks_ok s" by (simp add: supervisor_ok_def)
  moreover have "task_ok s j" using tok joined by (simp add: tasks_ok_def list_all_iff)
  ultimately show ?case using outcomes_joined [OF tok joined(2), of r] by (auto simp: task_ok_def result_counts_def)
next
  case (internal_recv s)
  then show ?case using receive_started(1) [of s] by (simp add: on_internal_def started_outcomes result_counts_def)
next
  case (admitted_recv s)
  then show ?case using receive_started(2) [of s] by (simp add: on_admitted_def started_outcomes result_counts_def)
next
  case (service_recv s)
  then show ?case using receive_started(3) [of s] by (simp add: on_service_def started_outcomes result_counts_def)
next
  case (actor_top s)
  then show ?case by (simp add: outcomes_loop_top result_counts_def)
next
  case (actor_end s)
  then show ?case by (simp add: actor_ends_eq outcomes_def result_counts_def)
qed (simp_all add: finish_task_def lose_capability_def outcomes_drop outcomes_update Let_def result_counts_def,
    simp_all add: outcomes_def on_control_def begin_draining_def drop_lifecycle_def update_task_def Let_def)

definition accepted :: "supervisor_event list \<Rightarrow> task_metadata list" where
  "accepted es = concat (map accepted_event es)"

definition joined_tasks :: "supervisor_event list \<Rightarrow> task_metadata list" where
  "joined_tasks es = concat (map joined_event es)"

definition join_results :: "supervisor_event list \<Rightarrow> join_result list" where
  "join_results es = concat (map result_event es)"

lemma trace_simps [simp]:
  "accepted [] = []" "accepted (es @ [e]) = accepted es @ accepted_event e"
  "joined_tasks [] = []" "joined_tasks (es @ [e]) = joined_tasks es @ joined_event e"
  "join_results [] = []" "join_results (es @ [e]) = join_results es @ result_event e"
  by (simp_all add: accepted_def joined_tasks_def join_results_def)

text \<open>Capabilities stay with the task they were given to.\<close>

fun confined_event :: "supervisor_event \<Rightarrow> bool" where
  "confined_event (Admit m fate r) \<longleftrightarrow> fate \<noteq> Escaped"
| "confined_event (Cleanup m fate r) \<longleftrightarrow> fate \<noteq> Escaped"
| "confined_event EscapeCapability \<longleftrightarrow> False"
| "confined_event _ \<longleftrightarrow> True"

definition confined_ok :: "supervisor \<Rightarrow> bool" where
  "confined_ok s \<longleftrightarrow> sv_escaped s = [] \<and>
     (sv_pc s \<in> {LoadAdmitted, LoadInternal, LoadService, LoadOwned, Breaking} \<longrightarrow> spawns (sv_internal s) = [])"

lemma holder_not_exiting:
  assumes "supervisor_ok s" "j \<in> set (running s)"
  shows "sv_pc s \<notin> {LoadAdmitted, LoadInternal, LoadService, LoadOwned, Breaking, Ended}"
proof
  assume "sv_pc s \<in> {LoadAdmitted, LoadInternal, LoadService, LoadOwned, Breaking, Ended}"
  moreover have "exit_ok s" using assms(1) by (simp add: supervisor_ok_def)
  ultimately have "sv_tasks s = []" unfolding exit_ok_def by blast
  with assms(2) show False by (simp add: running_def)
qed

lemma confined_cleanup:
  assumes "supervisor_ok s" "j \<in> set (running s)" "confined_ok s" "fate \<noteq> Escaped"
  shows "confined_ok (cleanup_state c i fate s)"
  using assms holder_not_exiting [OF assms(1,2)]
  by (cases fate) (simp_all add: confined_ok_def cleanup_state_def factory_state_def Let_def)

lemma confined_admitted: "confined_ok s \<Longrightarrow> fate \<noteq> Escaped \<Longrightarrow> confined_ok (admitted_state m fate s)"
  by (cases fate) (simp_all add: confined_ok_def admitted_state_def factory_state_def Let_def)

lemma confined_service: "confined_ok s \<Longrightarrow> confined_ok (service_state m s)"
  "confined_ok s \<Longrightarrow> confined_ok (s\<lparr>sh_service_started_bits := b\<rparr>)"
  by (simp_all add: confined_ok_def service_state_def)

lemma drop_task_frame:
  "sv_escaped (drop_task b s) = sv_escaped s" "sv_pc (drop_task b s) = sv_pc s"
  "spawns (sv_internal (drop_task b s)) = spawns (sv_internal s)"
proof -
  have "sv_escaped (drop_capabilities cs s) = sv_escaped s \<and> sv_pc (drop_capabilities cs s) = sv_pc s \<and>
      spawns (sv_internal (drop_capabilities cs s)) = spawns (sv_internal s)" for cs
    by (induction cs arbitrary: s) (simp_all add: drop_capability_def send_internal_def receivers_open_def)
  then show "sv_escaped (drop_task b s) = sv_escaped s" "sv_pc (drop_task b s) = sv_pc s"
    "spawns (sv_internal (drop_task b s)) = spawns (sv_internal s)"
    by (simp_all add: drop_task_def Let_def)
qed

lemma started_confined: "started_from s t \<Longrightarrow> confined_ok s \<Longrightarrow> confined_ok (t\<lparr>sv_pc := LoopTop\<rparr>)"
  by (simp add: started_from_def actor_frame_def confined_ok_def)

lemma confined_pc: "confined_ok s \<Longrightarrow> sv_pc s \<in> {LoadAdmitted, LoadInternal, LoadService, LoadOwned, Breaking}
    \<Longrightarrow> confined_ok (s\<lparr>sv_pc := p\<rparr>)"
proof -
  assume "confined_ok s" "sv_pc s \<in> {LoadAdmitted, LoadInternal, LoadService, LoadOwned, Breaking}"
  then have "sv_escaped s = []" "spawns (sv_internal s) = []" unfolding confined_ok_def by blast+
  then show ?thesis by (simp add: confined_ok_def)
qed

lemma confined_step:
  "supervisor_step s e t \<Longrightarrow> supervisor_ok s \<Longrightarrow> confined_event e \<Longrightarrow> confined_ok s \<Longrightarrow> confined_ok t"
proof (induction rule: supervisor_step.induct)
  case (admit s m fate r t)
  then show ?case
    by (auto simp: try_spawn_admitted_eq confined_admitted split: if_splits)
next
  case (service s m r t)
  then show ?case by (auto simp: try_spawn_service_eq confined_service split: if_splits)
next
  case (cleanup_escaped c s i fate r t)
  then show ?case by (simp add: confined_ok_def)
next
  case (cleanup_task j s c i fate r t)
  then show ?case by (auto simp: try_spawn_cleanup_eq confined_cleanup split: if_splits)
next
  case (drop_escaped c s)
  then show ?case by (simp add: confined_ok_def)
next
  case (finish_running j s e)
  then show ?case by (simp add: finish_task_def Let_def confined_ok_def drop_task_frame)
next
  case (actor_top s)
  then have "core_ok s" "receivers_open s" by (simp_all add: supervisor_ok_core receivers_open_def)
  from drain_ready_ok [OF this]
  have "sv_escaped (drain_ready_commands s) = sv_escaped s" "sv_internal (drain_ready_commands s) = []"
    by (simp_all add: started_from_def actor_frame_def)
  with actor_top(4) have "confined_ok ((drain_ready_commands s)\<lparr>sv_pc := p\<rparr>)" "confined_ok (s\<lparr>sv_pc := Selecting\<rparr>)" for p
    by (simp_all add: confined_ok_def)
  then show ?case by (simp add: loop_top_def Let_def)
next
  case (actor_load s)
  then have "confined_ok (s\<lparr>sv_pc := p\<rparr>)" for p by (intro confined_pc) auto
  with actor_load(1) show ?case by (auto simp: exit_load_def)
next
  case (internal_recv s)
  then show ?case using receive_started(1) [of s] by (simp add: on_internal_def started_confined)
next
  case (admitted_recv s)
  then show ?case using receive_started(2) [of s] by (simp add: on_admitted_def started_confined)
next
  case (service_recv s)
  then show ?case using receive_started(3) [of s] by (simp add: on_service_def started_confined)
next
  case (actor_end s)
  then show ?case by (simp add: actor_ends_eq confined_ok_def)
next
  case (joined s j r)
  then have "tasks_ok s" by (simp add: supervisor_ok_def)
  with joined show ?case
    by (simp add: on_joined_eq count_join_eq decrement_active_def without_task_def confined_ok_def Let_def)
qed (auto simp: confined_ok_def begin_draining_def drop_lifecycle_def drop_capability_def send_internal_def
    receivers_open_def lose_capability_def on_control_def Let_def)

definition lost_cleanups :: "task_metadata multiset \<Rightarrow> bool \<Rightarrow> bool" where
  "lost_cleanups lost confined \<longleftrightarrow> (\<forall>m. m \<in># lost \<longrightarrow> tm_kind m = KindSafetyCleanup) \<and> (confined \<longrightarrow> lost = {#})"

lemma is_internal_iff: "is_internal k \<longleftrightarrow> k = KindSafetyCleanup"
  by (cases k) simp_all

lemma initial_facts:
  assumes "initial s"
  shows "supervisor_ok s" "confined_ok s" "outstanding s = {#}" "outcomes s = (0, 0)"
  using assms supervisor.init_inv
  by (auto simp: initial_def new_driver_task_supervisor_def config_validate_def initial_supervisor_def confined_ok_def
      outstanding_def outcomes_def split: if_splits)

lemma exec_accounts:
  assumes "exec supervisor_step s es t" "initial s"
  shows "outcomes t = result_counts (join_results es) \<and> (list_all confined_event es \<longrightarrow> confined_ok t) \<and>
    (\<exists>lost. mset (accepted es) = mset (joined_tasks es) + outstanding t + lost \<and>
       lost_cleanups lost (list_all confined_event es))"
  using assms
proof (induction rule: exec.induct)
  case (exec_Nil s)
  then show ?case by (simp add: initial_facts result_counts_def lost_cleanups_def)
next
  case (exec_snoc s es t e u)
  then obtain lost where
    o: "outcomes t = result_counts (join_results es)" and c: "list_all confined_event es \<longrightarrow> confined_ok t" and
    l: "mset (accepted es) = mset (joined_tasks es) + outstanding t + lost" "lost_cleanups lost (list_all confined_event es)"
    by blast
  have ok: "supervisor_ok t" using supervisor.reach_inv exec_snoc by blast
  have "outcomes u = result_counts (join_results (es @ [e]))"
    using step_outcomes [OF exec_snoc.hyps(2) ok] o by (simp add: result_counts_def)
  moreover have "list_all confined_event (es @ [e]) \<longrightarrow> confined_ok u"
    using confined_step [OF exec_snoc.hyps(2) ok] c by simp
  moreover have "\<exists>lost. mset (accepted (es @ [e])) = mset (joined_tasks (es @ [e])) + outstanding u + lost \<and>
      lost_cleanups lost (list_all confined_event (es @ [e]))"
  proof (cases "e = ActorEnd")
    case False
    from step_accounts [OF exec_snoc.hyps(2) ok False] l show ?thesis
      by (intro exI [of _ lost]) (auto simp: lost_cleanups_def ac_simps)
  next
    case True
    then have pc: "sv_pc t = Breaking" and u: "u = actor_ends t" using exec_snoc.hyps(2) by (auto elim: supervisor_stepE)
    let ?q = "mset (map sc_metadata (spawns (sv_internal t)))"
    have parts: "exit_ok t" "commands_ok t" using ok by (simp_all add: supervisor_ok_def)
    then have e: "sv_tasks t = []" "sv_admitted t = []" "sv_service t = []" using pc by (simp_all add: exit_ok_def)
    have "outstanding t = ?q" "outstanding u = {#}"
      using e by (simp_all add: outstanding_def u actor_ends_eq [OF ok pc])
    moreover have "\<forall>m. m \<in># ?q \<longrightarrow> tm_kind m = KindSafetyCleanup"
      using parts(2) by (auto simp: commands_ok_def list_all_iff command_ok_def is_internal_iff)
    moreover have "?q = {#}" if "list_all confined_event es"
      using c pc that by (simp add: confined_ok_def)
    ultimately show ?thesis
      using l True by (intro exI [of _ "?q + lost"]) (auto simp: lost_cleanups_def ac_simps)
  qed
  ultimately show ?case by blast
qed


section \<open>What the supervisor guarantees\<close>

lemma running_admitted_bound:
  assumes ok: "supervisor_ok s"
  shows "length (sv_admitted s) + length (filter (\<lambda>j. admitted_kind (task_kind s j)) (running s)) \<le> sh_admitted_capacity s"
proof -
  have tok: "list_all (task_ok s) (sv_tasks s)" and "owned_ok s" "commands_ok s"
    using ok by (simp_all add: supervisor_ok_def tasks_ok_def)
  have "length (filter (\<lambda>j. admitted_kind (task_kind s j)) (filter (\<lambda>j. jt_joined j = None) ts)) \<le> permits (map jt_task ts)"
    if "list_all (task_ok s) ts" for ts
    using that by (induction ts) (auto simp: task_ok_def)
  from this [OF tok] have "length (filter (\<lambda>j. admitted_kind (task_kind s j)) (running s)) \<le> permits (map jt_task (sv_tasks s))"
    by (simp only: running_def)
  moreover have "permits (map sc_task (sv_admitted s)) = length (sv_admitted s)"
    using \<open>commands_ok s\<close> by (simp add: commands_ok_def permits_commands)
  ultimately show ?thesis using \<open>owned_ok s\<close> by (simp add: owned_ok_def all_tasks_def)
qed

text \<open>
  C24. In every state that a supervisor created by \<open>new_driver_task_supervisor\<close> reaches, the shared
  counters are exactly the numbers of queued commands, started tasks and live capabilities that
  exist, so that no decrement wraps; the slots in use and the free ones add up to the capacity; at
  most that many admitted tasks are queued or running; the select of the actor never panics; and
  the state is stopped exactly when the actor has ended.
\<close>

theorem supervisor_reachable_ok:
  assumes "new_driver_task_supervisor n = Inr s" "exec supervisor_step s es t"
  shows "supervisor_ok t \<and> sv_pc t \<noteq> SelectPanicked \<and> (sv_pc t = Ended \<longleftrightarrow> sh_state t = Stopped) \<and>
    sh_owned_capabilities t = live_capabilities t \<and>
    snapshot_active (snapshot t) = length (sv_tasks t) \<and>
    (sv_pc t \<noteq> Ended \<longrightarrow>
       snapshot_queued (snapshot t) = length (sv_admitted t) + length (sv_service t) + length (spawns (sv_internal t))) \<and>
    length (sv_admitted t) + length (filter (\<lambda>j. admitted_kind (task_kind t j)) (running t)) \<le> sh_admitted_capacity t"
proof -
  have ok: "supervisor_ok t" using assms supervisor.reach_inv by (auto simp: initial_def)
  have "active is_internal t + active is_service t + active admitted_kind t = length (sv_tasks t)"
  proof -
    have "length (filter (\<lambda>j. is_internal (task_kind t j)) ts) + length (filter (\<lambda>j. is_service (task_kind t j)) ts) +
        length (filter (\<lambda>j. admitted_kind (task_kind t j)) ts) = length ts" for ts
      by (induction ts) (auto elim: is_internal.elims)
    then show ?thesis by (simp add: active_def)
  qed
  then have "snapshot_active (snapshot t) = length (sv_tasks t)"
    using ok by (simp add: snapshot_active_def snapshot_def supervisor_ok_def active_ok_def)
  with ok running_admitted_bound [OF ok] show ?thesis
    by (simp add: supervisor_ok_def drain_ok_def queued_ok_def owned_ok_def receivers_open_def snapshot_queued_def snapshot_def)
qed

text \<open>
  C3. When the actor has ended, every task that a method accepted has been joined, with the only
  possible exception of cleanup tasks; and no cleanup task is missing either when every capability
  stayed in the task it was given to. Nothing is active and no capability is live, and \<open>drain\<close>
  reports success exactly when every joined task completed.
\<close>

theorem drain_joins_accepted:
  assumes "new_driver_task_supervisor n = Inr s" "exec supervisor_step s es t" "sv_pc t = Ended"
  shows "(\<exists>lost. mset (accepted es) = mset (joined_tasks es) + lost \<and> (\<forall>m. m \<in># lost \<longrightarrow> tm_kind m = KindSafetyCleanup) \<and>
       (list_all confined_event es \<longrightarrow> lost = {#})) \<and>
    snapshot_active (snapshot t) = 0 \<and> sn_owned_capabilities (snapshot t) = 0 \<and>
    (drain_result (snapshot t) = Inr (snapshot t) \<longleftrightarrow> list_all (\<lambda>r. r = JoinReport TaskCompleted) (join_results es))"
proof -
  have i: "initial s" using assms(1) by (auto simp: initial_def)
  note ok = supervisor.reach_inv [OF assms(2) i] and acc = exec_accounts [OF assms(2) i]
  have parts: "exit_ok t" "active_ok t" "owned_ok t" using ok by (simp_all add: supervisor_ok_def)
  have e: "sv_tasks t = []" "sv_admitted t = []" "sv_service t = []" "sv_internal t = []" "live_capabilities t = 0"
    using parts(1) assms(3) by (simp_all add: exit_ok_def)
  then have "outstanding t = {#}" by (simp add: outstanding_def)
  moreover have "snapshot_active (snapshot t) = 0" "sn_owned_capabilities (snapshot t) = 0"
    using parts e by (simp_all add: snapshot_active_def snapshot_def active_ok_def active_def owned_ok_def)
  moreover have "drain_result (snapshot t) = Inr (snapshot t) \<longleftrightarrow> snd (outcomes t) = 0"
    by (simp add: drain_result_def snapshot_def outcomes_def)
  moreover have "snd (result_counts rs) = 0 \<longleftrightarrow> list_all (\<lambda>r. r = JoinReport TaskCompleted) rs" for rs
    by (induction rs) (auto simp: result_counts_def)
  ultimately show ?thesis using acc by (auto simp: lost_cleanups_def)
qed

text \<open>
  A drain was asked for and nobody is left to hold it up: no command waits to be started, every
  started task has finished, and no capability is alive.
\<close>

definition quiescent :: "supervisor \<Rightarrow> bool" where
  "quiescent s \<longleftrightarrow> sh_state s \<noteq> Accepting \<and> sv_admitted s = [] \<and> sv_service s = [] \<and> spawns (sv_internal s) = [] \<and>
     running s = [] \<and> live_capabilities s = 0"

fun actor_event :: "supervisor_event \<Rightarrow> bool" where
  "actor_event ActorTop = True" | "actor_event ActorLoad = True" | "actor_event ActorEnd = True"
| "actor_event ActorControl = True" | "actor_event ActorInternal = True" | "actor_event ActorAdmitted = True"
| "actor_event ActorService = True" | "actor_event ActorClosed = True" | "actor_event (ActorJoin m r) = True"
| "actor_event ActorPanic = True" | "actor_event _ = False"

text \<open>What the actor still has to look at, and how far it is from the end of a turn.\<close>

definition pending :: "supervisor \<Rightarrow> nat" where
  "pending s = length (sv_control s) + length (sv_internal s) + length (sv_tasks s) + of_bool (sv_control_open s) +
     of_bool (sv_internal_open s) + of_bool (sv_admitted_open s) + of_bool (sv_service_open s)"

fun pc_rank :: "actor_pc \<Rightarrow> nat" where
  "pc_rank LoopTop = 6" | "pc_rank LoadAdmitted = 5" | "pc_rank LoadInternal = 4" | "pc_rank LoadService = 3"
| "pc_rank LoadOwned = 2" | "pc_rank Breaking = 1" | "pc_rank Ended = 0" | "pc_rank Selecting = 5" | "pc_rank SelectPanicked = 0"

definition drain_bound :: "supervisor \<Rightarrow> nat" where
  "drain_bound s = 7 * pending s + pc_rank (sv_pc s)"

lemma no_spawns: "spawns cs = [] \<Longrightarrow> fold handle_internal cs s = s"
  by (induction cs arbitrary: s rule: spawns.induct) simp_all

lemma drain_ready_quiescent:
  "quiescent s \<Longrightarrow> drain_ready_commands s = s\<lparr>sv_internal := []\<rparr>"
  by (simp add: quiescent_def drain_ready_commands_def Let_def no_spawns)

lemmas quiescent_unfold = quiescent_def running_def live_capabilities_def all_tasks_def

lemma spawns_tl: "spawns cs = [] \<Longrightarrow> cs \<noteq> [] \<Longrightarrow> hd cs = CapabilityDropped \<and> spawns (tl cs) = []"
  by (cases cs rule: spawns.cases) simp_all

lemma quiescent_joined:
  assumes ok: "supervisor_ok s" and q: "quiescent s" and j: "j \<in> set (sv_tasks s)" and r: "jt_joined j = Some r"
  shows "quiescent (on_joined j r s)" "length (sv_tasks (on_joined j r s)) < length (sv_tasks s)"
    "pending (on_joined j r s) < pending s" "sv_pc (on_joined j r s) = LoopTop"
proof -
  have tok: "tasks_ok s" using ok by (simp add: supervisor_ok_def)
  let ?t = "on_joined j r s"
  have f: "sv_tasks ?t = filter (\<lambda>k. jt_id k \<noteq> jt_id j) (sv_tasks s)" "sv_admitted ?t = sv_admitted s"
    "sv_service ?t = sv_service s" "sv_internal ?t = sv_internal s" "sv_escaped ?t = sv_escaped s" "sv_pc ?t = LoopTop"
    "sh_state ?t = (if is_service (task_kind s j) \<and> sh_state s = Accepting then Draining else sh_state s)"
    "sv_control ?t = sv_control s" "sv_control_open ?t = sv_control_open s" "sv_internal_open ?t = sv_internal_open s"
    "sv_admitted_open ?t = sv_admitted_open s" "sv_service_open ?t = sv_service_open s"
    by (simp_all add: on_joined_eq [OF tok j] count_join_eq decrement_active_def without_task_def Let_def)
  have "captured (map jt_task (sv_tasks ?t)) = captured (map jt_task (sv_tasks s))"
    using without_task_sums(1) [OF tok j] r by (simp add: f without_task_def)
  with q show "quiescent ?t"
    by (auto simp: quiescent_def f running_def live_capabilities_def all_tasks_def filter_empty_conv)
  show "length (sv_tasks ?t) < length (sv_tasks s)" using j by (auto simp: f intro: length_filter_less)
  then show "pending ?t < pending s" by (simp add: pending_def f)
  show "sv_pc ?t = LoopTop" by (rule f)
qed

lemma quiescent_step:
  "supervisor_step s e t \<Longrightarrow> actor_event e \<Longrightarrow> supervisor_ok s \<Longrightarrow> quiescent s \<Longrightarrow> quiescent t \<and> drain_bound t < drain_bound s"
proof (induction rule: supervisor_step.induct)
  case (actor_top s)
  have "quiescent (s\<lparr>sv_pc := p\<rparr>)" "quiescent (s\<lparr>sv_internal := [], sv_pc := p\<rparr>)" for p
    using actor_top(4) by (simp_all add: quiescent_unfold)
  then show ?case using actor_top
    by (auto simp: loop_top_def drain_ready_quiescent drain_bound_def pending_def Let_def)
next
  case (actor_load s)
  then have l: "live_capabilities s = 0" "owned_ok s" "queued_ok s" "receivers_open s"
    by (simp_all add: quiescent_def supervisor_ok_def receivers_open_def) auto
  have q: "quiescent (s\<lparr>sv_pc := p\<rparr>)" for p using actor_load(4) by (simp add: quiescent_unfold)
  have "sh_admitted_queued s = 0" "sh_internal_queued s = 0" "sh_service_queued s = 0" "sh_owned_capabilities s = 0"
    using l actor_load(4) by (simp_all add: quiescent_def owned_ok_def queued_ok_def)
  moreover have "drain_bound (s\<lparr>sv_pc := p\<rparr>) = 7 * pending s + pc_rank p" for p by (simp add: drain_bound_def pending_def)
  ultimately show ?case
    using actor_load(1) q unfolding drain_bound_def [of s] by (elim insertE emptyE) (simp_all add: exit_load_def)
next
  case (actor_end s)
  then have "quiescent (actor_ends s)"
    unfolding actor_ends_eq [OF actor_end(3,1)] by (simp_all add: quiescent_unfold)
  with actor_end show ?case by (simp add: actor_ends_eq drain_bound_def pending_def)
next
  case (joined s j r)
  then show ?case using quiescent_joined [of s j r] by (simp add: drain_bound_def)
next
  case (internal_recv s)
  then have h: "hd (sv_internal s) = CapabilityDropped" "spawns (tl (sv_internal s)) = []"
    using spawns_tl by (auto simp: quiescent_def)
  moreover have "quiescent (on_internal s)"
    using internal_recv h by (simp_all add: quiescent_unfold on_internal_def)
  moreover obtain c cs where "sv_internal s = c # cs" using internal_recv by (cases "sv_internal s") auto
  ultimately show ?case using internal_recv by (simp add: on_internal_def drain_bound_def pending_def)
next
  case (control_recv s)
  moreover have "quiescent (on_control s)"
    using control_recv by (simp_all add: quiescent_unfold on_control_def)
  moreover obtain c cs where "sv_control s = c # cs" using control_recv by (cases "sv_control s") auto
  ultimately show ?case by (simp add: on_control_def drain_bound_def pending_def)
next
  case (control_closed s)
  then show ?case by (simp_all add: quiescent_unfold drain_bound_def pending_def)
next
  case (internal_closed s)
  then show ?case by (simp_all add: quiescent_unfold drain_bound_def pending_def)
next
  case (admitted_closed s)
  then show ?case by (simp_all add: quiescent_unfold drain_bound_def pending_def)
next
  case (service_closed s)
  then show ?case by (simp_all add: quiescent_unfold drain_bound_def pending_def)
next
  case (select_panics s)
  then show ?case using no_branch_unreachable by blast
qed (auto simp: quiescent_def)


lemma quiescent_progress:
  assumes ok: "supervisor_ok s" and q: "quiescent s" and pc: "sv_pc s \<noteq> Ended"
  shows "\<exists>e t. actor_event e \<and> supervisor_step s e t"
proof -
  have parts: "drain_ok s" "closed_ok s" "exit_ok s" using ok by (simp_all add: supervisor_ok_def)
  have sel: "\<exists>e t. actor_event e \<and> supervisor_step s e t" if p: "sv_pc s = Selecting"
  proof (cases "sv_tasks s")
    case (Cons j js)
    with q obtain r where "jt_joined j = Some r" by (auto simp: quiescent_def running_def split: if_splits)
    with Cons p show ?thesis using joined [of s j r] by (intro exI [of _ "ActorJoin (sv_metadata s (jt_id j)) r"]) auto
  next
    case Nil
    have "sv_control s \<noteq> [] \<or> sv_internal s \<noteq> []"
    proof (rule ccontr)
      assume "\<not> (sv_control s \<noteq> [] \<or> sv_internal s \<noteq> [])"
      moreover from this parts(1) q have "sv_draining s" by (auto simp: drain_ok_def quiescent_def)
      ultimately show False using parts(3) p q Nil by (simp add: exit_ok_def quiescent_def)
    qed
    then show ?thesis
    proof
      assume c: "sv_control s \<noteq> []"
      with parts(2) have "sv_control_open s" by (auto simp: closed_ok_def)
      from control_recv [OF p this c] show ?thesis by (intro exI [of _ ActorControl]) auto
    next
      assume c: "sv_internal s \<noteq> []"
      with parts(2) have "sv_internal_open s" by (auto simp: closed_ok_def)
      from internal_recv [OF p this c] show ?thesis by (intro exI [of _ ActorInternal]) auto
    qed
  qed
  have "sv_pc s \<noteq> SelectPanicked" using parts(1) by (simp add: drain_ok_def)
  then consider "sv_pc s = LoopTop" | "sv_pc s \<in> {LoadAdmitted, LoadInternal, LoadService, LoadOwned}" | "sv_pc s = Breaking"
    | "sv_pc s = Selecting" using pc by (cases "sv_pc s") auto
  then show ?thesis
  proof cases
    case 1
    then show ?thesis using actor_top by (intro exI [of _ ActorTop]) auto
  next
    case 2
    then show ?thesis using actor_load by (intro exI [of _ ActorLoad]) auto
  next
    case 3
    then show ?thesis using actor_end by (intro exI [of _ ActorEnd]) auto
  next
    case 4
    then show ?thesis by (rule sel)
  qed
qed

lemma quiescent_exec:
  assumes "exec supervisor_step s es t" "supervisor_ok s" "quiescent s" "list_all actor_event es"
  shows "quiescent t \<and> length es + drain_bound t \<le> drain_bound s"
  using assms
proof (induction rule: exec.induct)
  case (exec_Nil s)
  then show ?case by simp
next
  case (exec_snoc s es t e u)
  then have "supervisor_ok t" using supervisor.exec_inv by blast
  with exec_snoc quiescent_step [of t e u] show ?case by fastforce
qed

text \<open>
  C12. Once a drain was asked for, all started tasks have finished and no capability is alive, the
  actor ends by itself: left alone it takes at most \<open>drain_bound\<close> steps, and until it has ended it
  always has a step to take. No wake-up is lost.
\<close>

theorem drain_terminates:
  assumes "new_driver_task_supervisor n = Inr s" "exec supervisor_step s es t" "quiescent t"
    and "exec supervisor_step t fs u" "list_all actor_event fs"
  shows "length fs \<le> drain_bound t \<and> (sv_pc u \<noteq> Ended \<longrightarrow> (\<exists>e v. actor_event e \<and> supervisor_step u e v))"
proof -
  have ok: "supervisor_ok t" using assms(1,2) supervisor.reach_inv by (auto simp: initial_def)
  then have "supervisor_ok u" using supervisor.exec_inv assms(4) by blast
  with quiescent_exec [OF assms(4) ok assms(3,5)] quiescent_progress [of u] show ?thesis by auto
qed

definition sample_drained :: supervisor where
  "sample_drained = begin_draining (initial_supervisor 1)"

lemma sample_new: "new_driver_task_supervisor 1 = Inr (initial_supervisor 1)"
  by (simp add: new_driver_task_supervisor_def config_validate_def)

lemma sample_drained_exec: "exec supervisor_step (initial_supervisor 1) [BeginDraining] sample_drained"
  unfolding sample_drained_def by (intro exec_one begin_drain) (simp add: initial_supervisor_def)

lemma sample_drained_quiescent: "quiescent sample_drained"
  by (simp add: sample_drained_def quiescent_unfold begin_draining_def initial_supervisor_def receivers_open_def Let_def)

theorem drain_terminates_witness:
  "drain_bound sample_drained = 41 \<and> (\<exists>e v. actor_event e \<and> supervisor_step sample_drained e v)"
proof -
  have "drain_bound sample_drained = 41" "sv_pc sample_drained \<noteq> Ended"
    by (simp_all add: sample_drained_def drain_bound_def pending_def begin_draining_def initial_supervisor_def
        receivers_open_def Let_def)
  with drain_terminates [OF sample_new sample_drained_exec sample_drained_quiescent exec_Nil] show ?thesis by simp
qed

theorem supervisor_reachable_ok_witness:
  "supervisor_ok sample_drained \<and> snapshot_active (snapshot sample_drained) = 0"
  using supervisor_reachable_ok [OF sample_new sample_drained_exec]
  by (simp add: sample_drained_def begin_draining_def initial_supervisor_def receivers_open_def Let_def)


section \<open>Two complete runs\<close>

text \<open>An admitted task is started, and the supervisor is asked to drain.\<close>

definition sample_task :: task_metadata where
  "sample_task = \<lparr>tm_task_id = 1, tm_root_id = 2, tm_kind = KindRouteSetPublication, tm_subject_id = None\<rparr>"

definition sample_capability :: owned_task_capability where
  "sample_capability = \<lparr>cap_root_id = 2, cap_subject_id = None\<rparr>"

definition sample_running :: "owned_task_capability list \<Rightarrow> join_task" where
  "sample_running cs = \<lparr>jt_id = 0, jt_task = \<lparr>bt_permit = True, bt_capabilities = cs\<rparr>, jt_joined = None\<rparr>"

text \<open>The supervisor with its one task started and a drain asked for.\<close>

definition sample_started :: supervisor where
  "sample_started = (initial_supervisor 1)\<lparr>sh_state := Draining, sh_admitted_slots := 0, sh_admitted_active := 1,
     sh_owned_capabilities := 1, sv_tasks := [sample_running [sample_capability]], sv_metadata := [0 \<mapsto> sample_task],
     sv_next_id := 1, sv_control := [Drain], sv_drained := True\<rparr>"

lemma step_to: "supervisor_step s e t \<Longrightarrow> t = u \<Longrightarrow> exec supervisor_step u es v \<Longrightarrow> exec supervisor_step s (e # es) v"
  using exec_append [OF exec_one] by fastforce

lemmas run_simps = sample_started_def sample_running_def sample_task_def sample_capability_def initial_supervisor_def
  receivers_open_def Let_def

lemma sample_started_exec:
  "exec supervisor_step (initial_supervisor 1)
     [Admit sample_task Captured (Inr ()), ActorTop, ActorAdmitted, BeginDraining] sample_started"
proof -
  let ?i = "initial_supervisor 1"
  let ?a = "?i\<lparr>sh_admitted_slots := 0, sh_owned_capabilities := 1, sh_admitted_queued := 1,
    sv_admitted := [\<lparr>sc_metadata = sample_task, sc_task = \<lparr>bt_permit = True, bt_capabilities = [sample_capability]\<rparr>\<rparr>]\<rparr>"
  let ?b = "?a\<lparr>sv_pc := Selecting\<rparr>"
  let ?c = "sample_started\<lparr>sh_state := Accepting, sv_control := [], sv_drained := False\<rparr>"
  have 1: "supervisor_step ?i (Admit sample_task Captured (Inr ())) ?a"
    by (rule admit) (simp_all add: run_simps try_spawn_admitted_def new_capability_def)
  have 2: "supervisor_step ?a ActorTop (loop_top ?a)" "loop_top ?a = ?b"
    by (rule actor_top) (simp_all add: run_simps loop_top_def)
  have 3: "supervisor_step ?b ActorAdmitted (on_admitted ?b)" "on_admitted ?b = ?c"
    by (rule admitted_recv) (simp_all add: run_simps on_admitted_def spawn_admitted_def spawn_joined_def)
  have 4: "supervisor_step ?c BeginDraining (begin_draining ?c)" "begin_draining ?c = sample_started"
    by (rule begin_drain) (simp_all add: run_simps begin_draining_def)
  show ?thesis
    by (rule step_to [OF 1 refl] step_to [OF 2] step_to [OF 3] step_to [OF 4] exec_Nil)+
qed


text \<open>The task has finished; the actor joins it and begins its exit test.\<close>

definition sample_finished :: "owned_task_capability list \<Rightarrow> internal_command list \<Rightarrow> supervisor" where
  "sample_finished cs ms = (initial_supervisor 1)\<lparr>sh_state := Draining, sh_admitted_active := 1,
     sh_owned_capabilities := length cs,
     sv_tasks := [\<lparr>jt_id = 0, jt_task = \<lparr>bt_permit = False, bt_capabilities = []\<rparr>, jt_joined = Some (JoinReport TaskCompleted)\<rparr>],
     sv_metadata := [0 \<mapsto> sample_task], sv_next_id := 1, sv_control := [Drain], sv_drained := True,
     sv_internal := ms, sv_escaped := cs\<rparr>"

definition sample_joined :: "owned_task_capability list \<Rightarrow> actor_pc \<Rightarrow> supervisor" where
  "sample_joined cs p = (initial_supervisor 1)\<lparr>sh_state := Draining, sh_owned_capabilities := length cs, sh_completed := 1,
     sv_next_id := 1, sv_drained := True, sv_draining := True, sv_escaped := cs, sv_pc := p\<rparr>"

abbreviation joining_events :: "supervisor_event list" where
  "joining_events \<equiv> [ActorTop, ActorControl, ActorTop, ActorJoin (Some sample_task) (JoinReport TaskCompleted), ActorTop, ActorLoad]"

lemma sample_joined_exec:
  assumes ms: "spawns ms = []"
  shows "exec supervisor_step (sample_finished cs ms) joining_events (sample_joined cs LoadInternal)"
proof -
  let ?f = "sample_finished cs ms"
  let ?a = "?f\<lparr>sv_pc := Selecting\<rparr>"
  let ?b = "?f\<lparr>sv_draining := True, sv_control := []\<rparr>"
  let ?c = "?b\<lparr>sv_pc := Selecting\<rparr>"
  let ?d = "(sample_joined cs LoopTop)\<lparr>sv_internal := ms\<rparr>"
  let ?j = "hd (sv_tasks ?f)"
  note defs = run_simps sample_finished_def sample_joined_def
  have 1: "supervisor_step ?f ActorTop (loop_top ?f)" "loop_top ?f = ?a"
    by (rule actor_top) (simp_all add: defs loop_top_def)
  have 2: "supervisor_step ?a ActorControl (on_control ?a)" "on_control ?a = ?b"
    by (rule control_recv) (simp_all add: defs on_control_def)
  have 3: "supervisor_step ?b ActorTop (loop_top ?b)" "loop_top ?b = ?c"
    by (rule actor_top) (simp_all add: defs loop_top_def)
  have j: "sv_pc ?c = Selecting" "?j \<in> set (sv_tasks ?c)" "jt_joined ?j = Some (JoinReport TaskCompleted)"
    "sv_metadata ?c (jt_id ?j) = Some sample_task" by (simp_all add: defs)
  have 4: "supervisor_step ?c (ActorJoin (Some sample_task) (JoinReport TaskCompleted)) (on_joined ?j (JoinReport TaskCompleted) ?c)"
    using joined [OF j(1-3)] by (simp only: j(4))
  have 5: "on_joined ?j (JoinReport TaskCompleted) ?c = ?d"
    by (simp add: defs on_joined_def reap_joined_def decrement_active_def)
  have 6: "supervisor_step ?d ActorTop (loop_top ?d)" "loop_top ?d = sample_joined cs LoadAdmitted"
    by (rule actor_top) (simp_all add: defs loop_top_def drain_ready_commands_def no_spawns [OF ms])
  have 7: "supervisor_step (sample_joined cs LoadAdmitted) ActorLoad (exit_load (sample_joined cs LoadAdmitted))"
    "exit_load (sample_joined cs LoadAdmitted) = sample_joined cs LoadInternal"
    by (rule actor_load) (simp_all add: defs exit_load_def)
  show ?thesis
    by (rule step_to [OF 1] step_to [OF 2] step_to [OF 3] step_to [OF 4 5] step_to [OF 6] step_to [OF 7] exec_Nil)+
qed

lemma sample_load:
  "supervisor_step (sample_joined cs LoadInternal) ActorLoad (sample_joined cs LoadService)"
  using actor_load [of "sample_joined cs LoadInternal"] by (simp add: exit_load_def sample_joined_def initial_supervisor_def)

text \<open>The task keeps its capability: the drain ends with the task joined.\<close>

abbreviation confined_run :: "supervisor_event list" where
  "confined_run \<equiv> [Admit sample_task Captured (Inr ()), ActorTop, ActorAdmitted, BeginDraining, FinishTask (Returns (Inr ()))]
     @ joining_events @ [ActorLoad, ActorLoad, ActorLoad, ActorEnd]"

definition sample_stopped :: supervisor where
  "sample_stopped = (sample_joined [] Ended)\<lparr>sh_state := Stopped\<rparr>"

lemma confined_run_exec: "exec supervisor_step (initial_supervisor 1) confined_run sample_stopped"
proof -
  let ?j = "sample_running [sample_capability]" and ?s = "sample_joined []"
  note defs = run_simps sample_finished_def sample_joined_def
  have 1: "supervisor_step sample_started (FinishTask (Returns (Inr ()))) (finish_task ?j (Returns (Inr ())) sample_started)"
    by (rule finish_running) (simp add: running_def run_simps)
  have 2: "finish_task ?j (Returns (Inr ())) sample_started = sample_finished [] [CapabilityDropped]"
    by (simp add: defs finish_task_def task_kind_def update_task_def drop_task_def drop_capability_def send_internal_def
        service_result_def)
  have l: "supervisor_step (?s LoadService) ActorLoad (?s LoadOwned)" "supervisor_step (?s LoadOwned) ActorLoad (?s Breaking)"
    using actor_load [of "?s LoadService"] actor_load [of "?s LoadOwned"] by (simp_all add: exit_load_def defs)
  have e: "supervisor_step (?s Breaking) ActorEnd (actor_ends (?s Breaking))" "actor_ends (?s Breaking) = sample_stopped"
    by (rule actor_end) (simp_all add: defs actor_ends_def sample_stopped_def)
  have "exec supervisor_step (?s LoadInternal) [ActorLoad, ActorLoad, ActorLoad, ActorEnd] sample_stopped"
    by (rule step_to [OF sample_load refl] step_to [OF l(1) refl] step_to [OF l(2) refl] step_to [OF e] exec_Nil)+
  from exec_append [OF sample_joined_exec [of "[CapabilityDropped]"] this]
  have "exec supervisor_step sample_started (FinishTask (Returns (Inr ())) # joining_events @ [ActorLoad, ActorLoad, ActorLoad, ActorEnd])
      sample_stopped" by (intro step_to [OF 1 2]) simp
  from exec_append [OF sample_started_exec this] show ?thesis by simp
qed

theorem drain_joins_accepted_witness:
  "accepted confined_run = [sample_task] \<and> joined_tasks confined_run = [sample_task] \<and>
   drain_result (snapshot sample_stopped) = Inr (snapshot sample_stopped)"
  using drain_joins_accepted [OF sample_new confined_run_exec]
  by (simp add: accepted_def joined_tasks_def join_results_def sample_stopped_def sample_joined_def initial_supervisor_def)


text \<open>The task moves its capability out, and the holder uses it while the actor reads its counters.\<close>

abbreviation lost_task :: task_metadata where
  "lost_task \<equiv> cleanup_metadata 3 sample_capability"

abbreviation escaping_run :: "supervisor_event list" where
  "escaping_run \<equiv> [Admit sample_task Captured (Inr ()), ActorTop, ActorAdmitted, BeginDraining, EscapeCapability,
     FinishTask (Returns (Inr ()))] @ joining_events @ [ActorLoad, Cleanup lost_task Discarded (Inr ()), DropCapability,
     ActorLoad, ActorLoad, ActorEnd]"

definition sample_lost :: "actor_pc \<Rightarrow> supervisor" where
  "sample_lost p = (sample_joined [] p)\<lparr>sh_internal_queued := 1, sv_internal := [CapabilityDropped,
     SpawnCleanup \<lparr>sc_metadata = lost_task, sc_task = \<lparr>bt_permit = False, bt_capabilities = []\<rparr>\<rparr>, CapabilityDropped]\<rparr>"

lemma escaping_run_start:
  "exec supervisor_step sample_started [EscapeCapability, FinishTask (Returns (Inr ()))] (sample_finished [sample_capability] [])"
proof -
  let ?j = "sample_running [sample_capability]" and ?k = "sample_running []"
  let ?u = "sample_started\<lparr>sv_tasks := [?k], sv_escaped := [sample_capability]\<rparr>"
  let ?v = "(lose_capability ?j sample_capability sample_started)\<lparr>sv_escaped := sample_capability # sv_escaped sample_started\<rparr>"
  have 1: "supervisor_step sample_started EscapeCapability ?v"
    by (rule escape) (simp_all add: running_def run_simps)
  have 2: "?v = ?u" by (simp add: run_simps lose_capability_def update_task_def)
  have 3: "supervisor_step ?u (FinishTask (Returns (Inr ()))) (finish_task ?k (Returns (Inr ())) ?u)"
    by (rule finish_running) (simp add: running_def run_simps)
  have 4: "finish_task ?k (Returns (Inr ())) ?u = sample_finished [sample_capability] []"
    by (simp add: run_simps sample_finished_def finish_task_def task_kind_def update_task_def drop_task_def service_result_def)
  show ?thesis by (rule step_to [OF 1 2] step_to [OF 3 4] exec_Nil)+
qed

lemma escaping_run_end:
  "exec supervisor_step (sample_joined [sample_capability] LoadInternal)
     [ActorLoad, Cleanup lost_task Discarded (Inr ()), DropCapability, ActorLoad, ActorLoad, ActorEnd]
     (actor_ends (sample_lost Breaking))"
proof -
  let ?s = "sample_joined [sample_capability] LoadService"
  let ?t = "?s\<lparr>sh_internal_queued := 1, sv_internal := [CapabilityDropped,
     SpawnCleanup \<lparr>sc_metadata = lost_task, sc_task = \<lparr>bt_permit = False, bt_capabilities = []\<rparr>\<rparr>]\<rparr>"
  let ?u = "drop_capability (?t\<lparr>sv_escaped := remove1 sample_capability (sv_escaped ?t)\<rparr>)"
  note defs = sample_joined_def sample_lost_def initial_supervisor_def receivers_open_def Let_def
  have "try_spawn_cleanup sample_capability 3 Discarded ?s = (Inr (), ?t)"
    by (simp add: defs try_spawn_cleanup_def new_capability_def drop_capability_def send_internal_def)
  then have 1: "supervisor_step ?s (Cleanup lost_task Discarded (Inr ())) ?t"
    by (intro cleanup_escaped) (simp_all add: sample_joined_def)
  have 2: "supervisor_step ?t DropCapability ?u"
    by (rule drop_escaped) (simp add: sample_joined_def)
  have 3: "?u = sample_lost LoadService"
    by (simp add: defs drop_capability_def send_internal_def)
  have 4: "supervisor_step (sample_lost LoadService) ActorLoad (sample_lost LoadOwned)"
    "supervisor_step (sample_lost LoadOwned) ActorLoad (sample_lost Breaking)"
    using actor_load [of "sample_lost LoadService"] actor_load [of "sample_lost LoadOwned"] by (simp_all add: exit_load_def defs)
  have 5: "supervisor_step (sample_lost Breaking) ActorEnd (actor_ends (sample_lost Breaking))"
    by (rule actor_end) (simp add: defs)
  show ?thesis
    by (rule step_to [OF sample_load refl] step_to [OF 1 refl] step_to [OF 2 3] step_to [OF 4(1) refl] step_to [OF 4(2) refl]
        step_to [OF 5 refl] exec_Nil)+
qed

text \<open>
  C37. The exit test reads the queue counters before the count of live capabilities. A capability
  that was moved out of its task can be used in between and then dropped: the cleanup is accepted,
  every counter that is still to be read is zero, and the actor ends. The cleanup never runs,
  although its receipt was handed out, and the drain reports success.
\<close>

theorem escaped_cleanup_lost:
  "\<exists>s es t m. new_driver_task_supervisor 1 = Inr s \<and> exec supervisor_step s es t \<and> sv_pc t = Ended \<and>
     drain_result (snapshot t) = Inr (snapshot t) \<and> m \<in> set (accepted es) \<and> tm_kind m = KindSafetyCleanup \<and>
     m \<notin> set (joined_tasks es)"
proof (intro exI conjI)
  show "new_driver_task_supervisor 1 = Inr (initial_supervisor 1)" by (rule sample_new)
  show "exec supervisor_step (initial_supervisor 1) escaping_run (actor_ends (sample_lost Breaking))"
    using exec_append [OF exec_append [OF sample_started_exec escaping_run_start]
        exec_append [OF sample_joined_exec [of "[]"] escaping_run_end]] by simp
  show "sv_pc (actor_ends (sample_lost Breaking)) = Ended"
    "drain_result (snapshot (actor_ends (sample_lost Breaking))) = Inr (snapshot (actor_ends (sample_lost Breaking)))"
    by (simp_all add: actor_ends_def sample_lost_def sample_joined_def initial_supervisor_def drop_task_def
        drain_result_def snapshot_def Let_def)
  show "lost_task \<in> set (accepted escaping_run)" "lost_task \<notin> set (joined_tasks escaping_run)"
    "tm_kind lost_task = KindSafetyCleanup"
    by (simp_all add: accepted_def joined_tasks_def cleanup_metadata_def sample_task_def)
qed

text \<open>
  C36. What the three ways to hand work to a reachable supervisor answer: a task is admitted exactly
  when its kind is admissible, the supervisor accepts and a slot is free; a service is started
  exactly once while the supervisor accepts; a cleanup is accepted until the actor has ended. The
  full and closed channels that the methods also check for are never met.
\<close>

theorem admission_exact:
  assumes "new_driver_task_supervisor n = Inr s" "exec supervisor_step s es t"
  shows "fst (try_spawn_admitted m fate t) =
      (if is_internal (tm_kind m) \<or> is_service (tm_kind m) then Inl InternalKind
       else if sh_state t \<noteq> Accepting then Inl AdmitDraining
       else if sh_admitted_slots t = 0 then Inl AtCapacity else Inr ()) \<and>
    fst (try_spawn_service m t) =
      (if \<not> is_service (tm_kind m) then Inl NotServiceKind
       else if sh_state t \<noteq> Accepting then Inl ServiceDraining
       else if and (sh_service_started_bits t) 1 \<noteq> 0 then Inl AlreadyStarted else Inr ()) \<and>
    fst (try_spawn_cleanup c i fate t) = (if sh_state t = Stopped then Inl CleanupSupervisorStopped else Inr ())"
proof -
  have ok: "supervisor_ok t" using assms supervisor.reach_inv by (auto simp: initial_def)
  show ?thesis by (simp add: try_spawn_admitted_eq [OF ok] try_spawn_service_eq [OF ok] try_spawn_cleanup_eq [OF ok])
qed

theorem admission_exact_witness:
  "fst (try_spawn_admitted sample_task Captured sample_drained) = Inl AdmitDraining \<and>
   fst (try_spawn_cleanup sample_capability 3 Discarded sample_drained) = Inr ()"
  using admission_exact [OF sample_new sample_drained_exec, of sample_task Captured sample_capability 3]
    admission_exact [OF sample_new sample_drained_exec, of sample_task Discarded sample_capability 3]
  by (simp add: sample_task_def sample_drained_def begin_draining_def initial_supervisor_def receivers_open_def Let_def)

end
