(* ===== verification/Spec2Isabelle.thy ===== *)
theory Spec2Isabelle
  imports Operation_Queue Worker Commands Release_Manifest Route_Set_Sealer Gateway_Identity
    Route_Set_Staging Route_Set_Publication_Safety Publication_Ledger_Safety Task_Supervisor_Safety
begin

text \<open>
  \<^bold>\<open>Verification of the control plane.\<close> The control plane admits commands over HTTP, turns them into
  durable operations, lets workers carry the operations out, and drives the container host whose
  gateway serves the routes of all workshops. This library models the parts that decide: the
  command ledger and the operation queue, the worker, the release manifest, and the pipeline that
  renders, seals and publishes a route set for the whole fleet.

  \<^bold>\<open>Shared vocabulary.\<close>
  \<^item> \<open>Rust_Base\<close>: results and the question mark, loops that stop at the first error, byte strings,
    hexadecimal and UUID texts, strictly ascending scans. \<open>Json\<close>: values of \<open>serde_json\<close>, with the
    field access the sources use. \<open>Sql_Table\<close>: rows, \<open>update ... where\<close> and check constraints.
  \<^item> \<open>Transition_System\<close>: executions of labelled steps and the contract of an inductive invariant,
    a locale that the queue, the command ledger, the publication ledger and the task supervisor
    interpret.
  \<^item> \<open>Port_Programs\<close>: programs over ports that may fail or be cancelled at every await, with their
    weakest preconditions.
  \<^item> \<open>Domain\<close> (\<open>domain.rs\<close>): roles, permissions, operation kinds and states.

  \<^bold>\<open>Commands, queue and worker.\<close>
  \<^item> \<open>Commands\<close> (\<open>command.rs\<close>, the operator retry of \<open>api.rs\<close>, the constraints of
    \<open>control.commands\<close>): a key is admitted once, completed commands replay their result, and the
    retry handler never gets past the constraints of its table.
  \<^item> \<open>Operation_Queue\<close> (\<open>persistence.rs\<close>, the constraints of \<open>control.operations\<close>): enqueue, lease,
    renewal, checkpoint, finish and dead-letter retry as a step relation. Accepted statements come
    from the holder of the latest grant, rows stay well formed, expired leases are taken over.
  \<^item> \<open>Worker\<close> (\<open>worker.rs\<close>): scope checks, outcome reporting and compensation, with the domain
    handlers as parameters.
  \<^item> \<open>Release_Manifest\<close> (\<open>release.rs\<close>): validation of a release manifest against a declarative
    specification, and the selected platform.

  \<^bold>\<open>Routes.\<close> The driver publishes one immutable generation with a file per workshop. The steps are
  in the order of the pipeline:
  \<^item> \<open>Route_Projection\<close> (\<open>route_projection.rs\<close>, rendering in \<open>gateway.rs\<close>): parsing a projection and
    rendering its servers.
  \<^item> \<open>Route_Set_Sealer\<close> (\<open>route_set_generation_fs.rs\<close>): the evidence rows and files of a generation,
    the digest over them, resuming an interrupted attempt, verification. \<open>Gateway_Identity\<close>
    (\<open>gateway.rs\<close>): the identity a generation carries in its configuration, and reading it back from
    a running worker. \<open>Route_Set_Staging\<close> (\<open>route_set_staging.rs\<close>): from the frozen snapshot of the
    fleet to sealed rows; only the target changes what the fleet serves.
  \<^item> \<open>Route_Set_Publication_Db\<close> (\<open>route_set_publication_db.rs\<close>): the requests and leases of the
    publication ledger, the statement each call binds and the checks of every reply.
    \<open>Route_Set_Publication\<close> (\<open>route_set_publication.rs\<close>): the coordinator as a program over its
    database, file system and runtime ports, with heartbeat, cancellation guard and cleanup task.
    \<open>Route_Set_Publication_Safety\<close>: for any answers and any interruption, irreversible calls follow
    their durable permission, an ambiguous outcome is quarantined or handed to the cleanup task, and
    a returned receipt is confirmed by the ledger, the gateway and the disk.
  \<^item> \<open>Publication_Tables\<close> and \<open>Publication_Ledger\<close> (migrations 0027 to 0034): the other side of those
    statements, the functions of the database that admit, renew, record, seal, start, observe,
    finish and quarantine a publication, with the triggers and constraints they run under, as
    transactions on the tables. \<open>Publication_Ledger_Invariant\<close>: every one of them keeps one open
    publication under growing fences, its leases and its evidence.
    \<open>Publication_Ledger_Safety\<close>: over every interleaving, a superseded authority does nothing,
    evidence is only added, a seal covers the snapshot, and a finish applies exactly the target.
    \<open>Publication_Ledger_Sample\<close> evaluates one whole publication as the input of the witnesses.
  \<^item> \<open>Task_Supervisor\<close> (\<open>task_supervisor.rs\<close>) and \<open>Task_Supervisor_Safety\<close>: the owner of the
    background tasks, with all interleavings of its users, its tasks and its actor.

  \<^bold>\<open>Bounds and fuel.\<close> All functions are total. Loops of the sources recurse over their data or
  with a termination proof; the snapshot reader ends because a batch is never empty. The cleanup
  task may retry for ever and is a partial function into \<^typ>\<open>'a option\<close>; that it returns is a
  theorem. Machine integers keep their width where the sources check it: fences are 64-bit words,
  lease times and counts are compared with the bounds of the source. Counters of the supervisor
  wrap below zero, and the invariant shows that they never do.

  \<^bold>\<open>Environment.\<close> SHA-256, the JSON printer and parser, the clock, random identifiers, the database
  server, the gateway process and the file system are parameters. What the theorems need of them is
  a hypothesis with a witness: that the digest is lower-case hexadecimal, that printing and parsing
  JSON are inverse, that a quarantine is accepted eventually.

  \<^bold>\<open>Not modelled.\<close> The recovery, start-up and release variants of the publication coordinator repeat
  its protocol over their own ledgers; retention deletes what it claimed. In the publication ledger
  their database functions are steps of the rest of the system, which leave what an open
  publication owns in place; foreign keys, row locks and the shape constraints of the lease tables
  are left out, and a transaction is one step. The HTTP handlers, the domain handlers of the worker, the clients of external
  services, configuration, telemetry and the executables are input and output around these parts.
\<close>

end
